(* ===== verification/Prelude.thy ===== *)
theory Prelude
  imports Main "HOL-Library.Sublist"
begin

text \<open>
  Shared vocabulary of the development: the JavaScript string and array operations the dashboard
  uses, number-to-string conversion in a radix, computations that may throw, and the list lemmas
  the component theories rely on.

  Strings are lists of 8-bit code units. Case conversion and trimming act on ASCII, which is what
  the identifiers, IP addresses, rule texts and country codes of the program are made of. The
  typographic characters of messages (dashes, dots) are written as their UTF-8 bytes.
\<close>

named_theorems js_defs \<open>definitions of the JavaScript operations, for evaluation\<close>
named_theorems keep_rules \<open>every operation of a component keeps its invariant\<close>

section \<open>JavaScript strings\<close>

definition emdash :: string where
  "emdash = [CHR 0xE2, CHR 0x80, CHR 0x94]"

definition middot :: string where
  "middot = [CHR 0xC2, CHR 0xB7]"

definition ellipsis :: string where
  "ellipsis = [CHR 0xE2, CHR 0x80, CHR 0xA6]"

definition char_code :: "char \<Rightarrow> nat" where
  "char_code c = of_char c"

definition lower_char :: "char \<Rightarrow> char" where
  "lower_char c = (if 65 \<le> char_code c \<and> char_code c \<le> 90 then char_of (char_code c + 32) else c)"

definition upper_char :: "char \<Rightarrow> char" where
  "upper_char c = (if 97 \<le> char_code c \<and> char_code c \<le> 122 then char_of (char_code c - 32) else c)"

definition toLowerCase :: "string \<Rightarrow> string" where
  "toLowerCase s = map lower_char s"

definition toUpperCase :: "string \<Rightarrow> string" where
  "toUpperCase s = map upper_char s"

definition is_space :: "char \<Rightarrow> bool" where
  "is_space c \<longleftrightarrow> char_code c \<in> {9, 10, 11, 12, 13, 32, 160}"

definition trim :: "string \<Rightarrow> string" where
  "trim s = rev (dropWhile is_space (rev (dropWhile is_space s)))"

text \<open>\<open>s.includes(t)\<close>, \<open>s.startsWith(t)\<close>, \<open>s.endsWith(t)\<close>.\<close>

definition str_includes :: "string \<Rightarrow> string \<Rightarrow> bool" where
  "str_includes s t \<longleftrightarrow> sublist t s"

definition startsWith :: "string \<Rightarrow> string \<Rightarrow> bool" where
  "startsWith s t \<longleftrightarrow> prefix t s"

definition endsWith :: "string \<Rightarrow> string \<Rightarrow> bool" where
  "endsWith s t \<longleftrightarrow> suffix t s"

text \<open>\<open>s.replace(pat, rep)\<close> with a string pattern: the first occurrence only.\<close>

fun replace_first :: "string \<Rightarrow> string \<Rightarrow> string \<Rightarrow> string" where
  "replace_first [] pat rep = (if pat = [] then rep else [])"
| "replace_first (c # s) pat rep =
     (if prefix pat (c # s) then rep @ drop (length pat) (c # s)
      else c # replace_first s pat rep)"

text \<open>\<open>s.padStart(n, c)\<close>.\<close>

definition padStart :: "nat \<Rightarrow> char \<Rightarrow> string \<Rightarrow> string" where
  "padStart n c s = replicate (n - length s) c @ s"

lemmas js_string_defs = emdash_def middot_def ellipsis_def char_code_def lower_char_def
  upper_char_def toLowerCase_def toUpperCase_def is_space_def trim_def str_includes_def
  startsWith_def endsWith_def padStart_def

declare js_string_defs [js_defs]

lemma length_toLowerCase [simp]: "length (toLowerCase s) = length s"
  by (simp add: toLowerCase_def)

lemma length_toUpperCase [simp]: "length (toUpperCase s) = length s"
  by (simp add: toUpperCase_def)

lemma replace_first_absent: "\<not> sublist pat s \<Longrightarrow> replace_first s pat rep = s"
proof (induction s)
  case Nil
  then show ?case by auto
next
  case (Cons c s)
  then have "\<not> prefix pat (c # s)" and "\<not> sublist pat s"
    by (auto simp: sublist_Cons_right)
  with Cons.IH show ?case by simp
qed

lemma replace_first_present:
  assumes "sublist pat s"
  shows "\<exists>u v. s = u @ pat @ v \<and> replace_first s pat rep = u @ rep @ v"
  using assms
proof (induction s)
  case Nil
  then show ?case by auto
next
  case (Cons c s)
  show ?case
  proof (cases "prefix pat (c # s)")
    case True
    then obtain v where "c # s = pat @ v" by (auto elim: prefixE)
    moreover from this have "drop (length pat) (c # s) = v" by simp
    moreover have "replace_first (c # s) pat rep = rep @ drop (length pat) (c # s)"
      using True by simp
    ultimately have "c # s = [] @ pat @ v" and "replace_first (c # s) pat rep = [] @ rep @ v"
      by (simp_all del: replace_first.simps)
    then show ?thesis by blast
  next
    case False
    with Cons.prems have "sublist pat s" by (simp add: sublist_Cons_right)
    then obtain u v where "s = u @ pat @ v" and "replace_first s pat rep = u @ rep @ v"
      using Cons.IH by blast
    with False have "c # s = (c # u) @ pat @ v"
      and "replace_first (c # s) pat rep = (c # u) @ rep @ v" by auto
    then show ?thesis by blast
  qed
qed

section \<open>Numbers as strings\<close>

text \<open>\<open>n.toString(b)\<close> for a natural number and a radix between 2 and 36.\<close>

definition digit_char :: "nat \<Rightarrow> char" where
  "digit_char d = (if d < 10 then char_of (48 + d) else char_of (87 + d))"

fun radix_digits :: "nat \<Rightarrow> nat \<Rightarrow> nat list" where
  "radix_digits b n = (if n < b \<or> b < 2 then [n] else radix_digits b (n div b) @ [n mod b])"

declare radix_digits.simps [simp del]

definition radix_string :: "nat \<Rightarrow> nat \<Rightarrow> string" where
  "radix_string b n = map digit_char (radix_digits b n)"

definition dec :: "nat \<Rightarrow> string" where
  "dec n = radix_string 10 n"

definition dec_int :: "int \<Rightarrow> string" where
  "dec_int i = (if i < 0 then ''-'' @ dec (nat (- i)) else dec (nat i))"

lemmas radix_defs [js_defs] = digit_char_def radix_string_def dec_def dec_int_def radix_digits.simps

lemma digit_char_code: "d < 36 \<Longrightarrow> char_code (digit_char d) = (if d < 10 then 48 + d else 87 + d)"
  by (simp add: char_code_def digit_char_def of_char_of)

lemma digit_char_inj: "d < 36 \<Longrightarrow> e < 36 \<Longrightarrow> digit_char d = digit_char e \<Longrightarrow> d = e"
proof -
  assume "d < 36" "e < 36" "digit_char d = digit_char e"
  then have "(if d < 10 then 48 + d else 87 + d) = (if e < 10 then 48 + e else 87 + e)"
    by (metis digit_char_code)
  then show "d = e" by (simp split: if_split_asm)
qed

lemma radix_digits_bound: "2 \<le> b \<Longrightarrow> d \<in> set (radix_digits b n) \<Longrightarrow> d < b"
proof (induction b n rule: radix_digits.induct)
  case (1 b n)
  then show ?case
    using radix_digits.simps [of b n] by (cases "n < b \<or> b < 2") auto
qed

text \<open>The value of a digit list, which shows that printing is injective.\<close>

definition digits_value :: "nat \<Rightarrow> nat list \<Rightarrow> nat" where
  "digits_value b ds = foldl (\<lambda>acc d. acc * b + d) 0 ds"

lemma digits_value_radix_digits: "2 \<le> b \<Longrightarrow> digits_value b (radix_digits b n) = n"
proof (induction b n rule: radix_digits.induct)
  case (1 b n)
  show ?case
  proof (cases "n < b \<or> b < 2")
    case True
    then show ?thesis by (subst radix_digits.simps) (simp add: digits_value_def)
  next
    case False
    with 1 have "digits_value b (radix_digits b (n div b)) = n div b" by auto
    with False show ?thesis
      by (subst radix_digits.simps) (simp add: digits_value_def)
  qed
qed

lemma inj_on_digit_char: "inj_on digit_char {..<36}"
  by (auto intro!: inj_onI digit_char_inj)

lemma radix_string_inj:
  assumes "2 \<le> b" "b \<le> 36" "radix_string b m = radix_string b n"
  shows "m = n"
proof -
  have "set (radix_digits b m) \<union> set (radix_digits b n) \<subseteq> {..<36}"
    using radix_digits_bound [OF assms(1)] assms(2) by fastforce
  with assms(3) have "radix_digits b m = radix_digits b n"
    unfolding radix_string_def
    by (intro map_inj_on [where f = digit_char]) (auto intro: inj_on_subset [OF inj_on_digit_char])
  then show ?thesis
    using digits_value_radix_digits [OF assms(1)] by metis
qed

lemma dec_inj: "dec m = dec n \<Longrightarrow> m = n"
  unfolding dec_def by (rule radix_string_inj) auto

lemma radix_string_code:
  assumes "2 \<le> b" "b \<le> 36" "c \<in> set (radix_string b n)"
  shows "48 \<le> char_code c"
proof -
  obtain d where d: "d \<in> set (radix_digits b n)" "c = digit_char d"
    using assms(3) by (auto simp: radix_string_def)
  with assms have "d < 36" using radix_digits_bound [OF assms(1)] by fastforce
  with d(2) show ?thesis by (simp add: digit_char_code)
qed

lemma radix_string_upper:
  assumes "2 \<le> b" "b \<le> 36" "c \<in> set (radix_string b n)"
  shows "char_code c < 123"
proof -
  obtain d where d: "d \<in> set (radix_digits b n)" "c = digit_char d"
    using assms(3) by (auto simp: radix_string_def)
  with assms have "d < 36" using radix_digits_bound [OF assms(1)] by fastforce
  with d(2) show ?thesis by (simp add: digit_char_code)
qed

lemma radix_string_no_dash: "2 \<le> b \<Longrightarrow> b \<le> 36 \<Longrightarrow> CHR ''-'' \<notin> set (radix_string b n)"
  using radix_string_code [of b "CHR ''-''" n] by (auto simp: char_code_def)

lemma dec_no_dot: "CHR ''.'' \<notin> set (dec n)"
  using radix_string_code [of 10 "CHR ''.''" n] by (auto simp: dec_def char_code_def)

lemma radix_string_nonempty: "radix_string b n \<noteq> []"
  by (subst radix_string_def) (subst radix_digits.simps, simp)

lemma trim_digit: "c \<in> set s \<Longrightarrow> 48 \<le> char_code c \<Longrightarrow> char_code c < 160 \<Longrightarrow> trim s \<noteq> []"
proof
  assume c: "c \<in> set s" "48 \<le> char_code c" "char_code c < 160" and "trim s = []"
  from c have ns: "\<not> is_space c" by (auto simp: is_space_def)
  then have "c \<in> set (dropWhile is_space s)"
    using c(1) by (metis set_takeWhileD takeWhile_dropWhile_id Un_iff set_append)
  then have "c \<in> set (rev (dropWhile is_space s))" by simp
  moreover have "\<forall>x \<in> set (rev (dropWhile is_space s)). is_space x"
    using \<open>trim s = []\<close> by (simp add: trim_def)
  ultimately show False using ns by blast
qed

section \<open>JavaScript arrays\<close>

text \<open>\<open>xs[i]\<close>, with \<open>undefined\<close> outside the array; \<open>xs.slice(-k)\<close>.\<close>

definition get_at :: "'a list \<Rightarrow> int \<Rightarrow> 'a option" where
  "get_at xs i = (if 0 \<le> i \<and> i < int (length xs) then Some (xs ! nat i) else None)"

definition take_last :: "nat \<Rightarrow> 'a list \<Rightarrow> 'a list" where
  "take_last k xs = drop (length xs - k) xs"

declare get_at_def [js_defs] take_last_def [js_defs]

lemma length_take_last [simp]: "length (take_last k xs) = min k (length xs)"
  by (simp add: take_last_def)

lemma set_take_last: "set (take_last k xs) \<subseteq> set xs"
  by (simp add: take_last_def set_drop_subset)

lemma take_last_take_last_append: "take_last k (take_last k xs @ ys) = take_last k (xs @ ys)"
proof (cases "length xs \<le> k")
  case True
  then show ?thesis by (simp add: take_last_def)
next
  case False
  then have "length ys + (length xs - k) = length xs + length ys - k"
    and "length xs + length ys - k - length xs = length ys - k" by linarith+
  with False show ?thesis by (simp add: take_last_def)
qed

lemma distinct_map_filter: "distinct (map f xs) \<Longrightarrow> distinct (map f (filter P xs))"
  by (induction xs) auto

lemma distinct_map_take: "distinct (map f xs) \<Longrightarrow> distinct (map f (take n xs))"
  by (simp flip: take_map)

lemma distinct_map_drop: "distinct (map f xs) \<Longrightarrow> distinct (map f (drop n xs))"
  by (simp flip: drop_map)

lemma length_filter_eq_count: "length (filter (\<lambda>x. x = a) xs) = count_list xs a"
  by (induction xs) auto

text \<open>The first element for each value of a key, in order: what a loop over a \<open>Set\<close> keeps.\<close>

fun first_by :: "('a \<Rightarrow> 'k) \<Rightarrow> 'a list \<Rightarrow> 'a list" where
  "first_by f [] = []"
| "first_by f (x # xs) = x # first_by f (filter (\<lambda>y. f y \<noteq> f x) xs)"

lemma first_by_keys: "f ` set (first_by f xs) = f ` set xs"
  by (induction f xs rule: first_by.induct) (auto simp: image_iff)

lemma first_by_subset: "set (first_by f xs) \<subseteq> set xs"
  by (induction f xs rule: first_by.induct) auto

lemma first_by_distinct: "distinct (map f (first_by f xs))"
proof (induction f xs rule: first_by.induct)
  case (2 f x xs)
  have "f x \<notin> f ` set (first_by f (filter (\<lambda>y. f y \<noteq> f x) xs))"
    by (auto simp: first_by_keys)
  with 2 show ?case by simp
qed simp

lemma first_by_id: "distinct (map f xs) \<Longrightarrow> first_by f xs = xs"
proof (induction xs)
  case (Cons x xs)
  then have "filter (\<lambda>y. f y \<noteq> f x) xs = xs" by (auto simp: filter_id_conv image_iff)
  with Cons show ?case by simp
qed simp

text \<open>The truthiness of \<open>string | null | undefined\<close>: absent and empty strings are falsy.\<close>

definition truthy :: "string option \<Rightarrow> bool" where
  "truthy v = (case v of None \<Rightarrow> False | Some s \<Rightarrow> s \<noteq> [])"

lemma truthy_simps [simp]: "truthy None = False" "truthy (Some s) = (s \<noteq> [])"
  by (simp_all add: truthy_def)

text \<open>\<open>a ?? b\<close> for an optional \<open>b\<close>, and for a total one.\<close>

definition or_else :: "'a option \<Rightarrow> 'a option \<Rightarrow> 'a option" where
  "or_else a b = (case a of None \<Rightarrow> b | Some x \<Rightarrow> Some x)"

definition default :: "'a option \<Rightarrow> 'a \<Rightarrow> 'a" where
  "default a d = (case a of None \<Rightarrow> d | Some x \<Rightarrow> x)"

lemma or_else_simps [simp]: "or_else None b = b" "or_else (Some x) b = Some x"
  by (simp_all add: or_else_def)

lemma default_simps [simp]: "default None d = d" "default (Some x) d = x"
  by (simp_all add: default_def)

section \<open>Computations that may throw\<close>

text \<open>
  An asynchronous function of the program is a state transformer whose result is a thrown value
  or a return value. \<open>JsError m\<close> is an \<open>Error\<close> object with message \<open>m\<close>, \<open>JsOther\<close> any other
  thrown value.
\<close>

datatype exn = JsError string | JsOther

type_synonym ('s, 'a) comp = "'s \<Rightarrow> (exn + 'a) \<times> 's"

definition returnE :: "'a \<Rightarrow> ('s, 'a) comp" where
  "returnE x s = (Inr x, s)"

definition throwE :: "exn \<Rightarrow> ('s, 'a) comp" where
  "throwE e s = (Inl e, s)"

definition bindE :: "('s, 'a) comp \<Rightarrow> ('a \<Rightarrow> ('s, 'b) comp) \<Rightarrow> ('s, 'b) comp" where
  "bindE m f s = (case m s of (Inl e, s') \<Rightarrow> (Inl e, s') | (Inr x, s') \<Rightarrow> f x s')"

definition catchE :: "('s, 'a) comp \<Rightarrow> (exn \<Rightarrow> ('s, 'a) comp) \<Rightarrow> ('s, 'a) comp" where
  "catchE m h s = (case m s of (Inl e, s') \<Rightarrow> h e s' | (Inr x, s') \<Rightarrow> (Inr x, s'))"

definition modifyE :: "('s \<Rightarrow> 's) \<Rightarrow> ('s, unit) comp" where
  "modifyE f s = (Inr (), f s)"

definition readE :: "('s \<Rightarrow> 'a) \<Rightarrow> ('s, 'a) comp" where
  "readE f s = (Inr (f s), s)"

lemmas comp_defs = returnE_def throwE_def bindE_def catchE_def modifyE_def readE_def

declare comp_defs [js_defs]

text \<open>\<open>cause instanceof Error ? cause.message : fallback\<close>.\<close>

fun message_or :: "exn \<Rightarrow> string \<Rightarrow> string" where
  "message_or (JsError m) fallback = m"
| "message_or JsOther fallback = fallback"

lemma bindE_cong: "m = m' \<Longrightarrow> (\<And>x. f x = g x) \<Longrightarrow> bindE m f = bindE m' g"
  by (metis ext)

lemma bindE_assoc: "bindE (bindE m f) g = bindE m (\<lambda>x. bindE (f x) g)"
  by (rule ext) (auto simp: bindE_def split: prod.splits sum.splits)

lemma bindE_returnE [simp]: "bindE (returnE x) f = f x"
  by (rule ext) (simp add: bindE_def returnE_def)

lemma bindE_throwE [simp]: "bindE (throwE e) f = throwE e"
  by (rule ext) (simp add: bindE_def throwE_def)

section \<open>Machines\<close>

text \<open>
  A component driven by inputs: its step function keeps an invariant. The clients are the runs over
  arbitrary sequences of inputs.
\<close>

locale machine =
  fixes step :: "'i \<Rightarrow> 's \<Rightarrow> 's" and inv :: "'s \<Rightarrow> bool"
  assumes keep: "inv s \<Longrightarrow> inv (step i s)"
begin

lemma run: "inv s \<Longrightarrow> inv (fold step is s)"
  by (induction "is" arbitrary: s) (auto intro: keep)

lemma run_snoc: "inv s \<Longrightarrow> inv (step i (fold step is s))"
  by (intro keep run)

text \<open>What no step changes while the invariant holds, no run changes.\<close>

lemma run_frame:
  assumes "\<And>s i. inv s \<Longrightarrow> f (step i s) = f s"
  shows "inv s \<Longrightarrow> f (fold step is s) = f s"
  by (induction "is" arbitrary: s) (simp_all add: assms keep)

end

end
