(* ===== verification/JS_Number.thy ===== *)
theory JS_Number
  imports Prelude Complex_Main "HOL-Library.Log_Nat"
begin

text \<open>
  JavaScript numbers. A finite number is the rational it denotes; every arithmetic operation
  rounds its exact result to the nearest double, ties to even (\<open>fl\<close>: 53 significant bits, the
  exponent range is not bounded, which none of the quantities of the program reaches). NaN and
  the infinities do not occur as values: the places where the program can produce them are
  separate branches of the component models.

  The locale \<open>rounding\<close> states what the components rely on (monotone, exact on small integers)
  and derives the bounds of the percentages the dashboard shows.
\<close>

section \<open>Rounding to double precision\<close>

definition ilog2 :: "rat \<Rightarrow> int" where
  "ilog2 x = (if 1 \<le> x then bitlen \<lfloor>x\<rfloor> - 1 else - bitlen (\<lceil>1 / x\<rceil> - 1))"

definition round_even :: "rat \<Rightarrow> int" where
  "round_even y = (let f = \<lfloor>y\<rfloor>; d = y - of_int f in
     if d < 1 / 2 then f else if 1 / 2 < d then f + 1 else if even f then f else f + 1)"

definition pow2 :: "int \<Rightarrow> rat" where
  "pow2 k = (if 0 \<le> k then 2 ^ nat k else 1 / 2 ^ nat (- k))"

definition fl_pos :: "rat \<Rightarrow> rat" where
  "fl_pos x = (let k = ilog2 x - 52 in of_int (round_even (x * pow2 (- k))) * pow2 k)"

definition fl :: "rat \<Rightarrow> rat" where
  "fl x = (if x = 0 then 0 else if x < 0 then - fl_pos (- x) else fl_pos x)"

lemma pow2_pos [simp]: "0 < pow2 k"
  by (simp add: pow2_def)

lemma pow2_add: "pow2 (a + b) = pow2 a * pow2 b"
proof -
  have p: "pow2 k = 2 powi k" for k
    by (simp add: pow2_def power_int_def power_one_over inverse_eq_divide)
  show ?thesis by (simp add: p power_int_add)
qed

lemma pow2_minus: "pow2 (- k) * pow2 k = 1"
  using pow2_add [of "- k" k] by (simp add: pow2_def)

lemma pow2_nat [simp]: "pow2 (int n) = 2 ^ n"
  by (simp add: pow2_def)

lemma pow2_numeral [simp]: "pow2 (numeral k) = 2 ^ numeral k"
  by (simp add: pow2_def)

lemma pow2_0 [simp]: "pow2 0 = 1"
  by (simp add: pow2_def)

lemma pow2_1 [simp]: "pow2 1 = 2"
  by (simp add: pow2_def)

lemma pow2_nonzero [simp]: "pow2 k \<noteq> 0"
  by (simp add: pow2_def)

lemma pow2_mono: "a \<le> b \<Longrightarrow> pow2 a \<le> pow2 b"
proof -
  assume "a \<le> b"
  then obtain n where "b = a + int n" by (metis zle_iff_zadd)
  then show ?thesis by (simp add: pow2_add)
qed

lemma ilog2_bounds:
  assumes "0 < x"
  shows "pow2 (ilog2 x) \<le> x \<and> x < pow2 (ilog2 x + 1)"
proof (cases "1 \<le> x")
  case True
  then have f: "1 \<le> \<lfloor>x\<rfloor>" by (simp add: le_floor_iff)
  then have b: "2 ^ nat (bitlen \<lfloor>x\<rfloor> - 1) \<le> \<lfloor>x\<rfloor>" "\<lfloor>x\<rfloor> < 2 ^ nat (bitlen \<lfloor>x\<rfloor>)"
    using bitlen_bounds [of "\<lfloor>x\<rfloor>"] by auto
  have l: "1 \<le> bitlen \<lfloor>x\<rfloor>" using f bitlen_ge_iff_power [of 1 "\<lfloor>x\<rfloor>"] by simp
  from b(1) have "(2::rat) ^ nat (bitlen \<lfloor>x\<rfloor> - 1) \<le> of_int \<lfloor>x\<rfloor>"
    by (metis of_int_le_iff of_int_numeral of_int_power)
  also have "\<dots> \<le> x" by simp
  finally have lo: "pow2 (ilog2 x) \<le> x" using True l by (simp add: ilog2_def pow2_def)
  from b(2) have "\<lfloor>x\<rfloor> + 1 \<le> 2 ^ nat (bitlen \<lfloor>x\<rfloor>)" by simp
  then have "(of_int (\<lfloor>x\<rfloor> + 1) :: rat) \<le> 2 ^ nat (bitlen \<lfloor>x\<rfloor>)"
    by (metis of_int_le_iff of_int_numeral of_int_power)
  moreover have "x < of_int (\<lfloor>x\<rfloor> + 1)" by linarith
  ultimately have "x < pow2 (ilog2 x + 1)" using True l by (simp add: ilog2_def pow2_def)
  with lo show ?thesis ..
next
  case False
  define y where "y = 1 / x"
  define n where "n = \<lceil>y\<rceil> - 1"
  have y: "1 < y" using False assms by (simp add: y_def)
  then have n: "1 \<le> n" unfolding n_def by linarith
  then have b: "2 ^ nat (bitlen n - 1) \<le> n" "n < 2 ^ nat (bitlen n)"
    using bitlen_bounds [of n] by auto
  have l: "1 \<le> bitlen n" using n bitlen_ge_iff_power [of 1 n] by simp
  from b(1) have "(2::rat) ^ nat (bitlen n - 1) \<le> of_int n"
    by (metis of_int_le_iff of_int_numeral of_int_power)
  also have "of_int n < y" unfolding n_def by linarith
  finally have lo: "2 ^ nat (bitlen n - 1) < y" .
  from b(2) have "n + 1 \<le> 2 ^ nat (bitlen n)" by simp
  then have "(of_int (n + 1) :: rat) \<le> 2 ^ nat (bitlen n)"
    by (metis of_int_le_iff of_int_numeral of_int_power)
  moreover have "y \<le> of_int (n + 1)" unfolding n_def by simp
  ultimately have hi: "y \<le> 2 ^ nat (bitlen n)" by linarith
  have il: "ilog2 x = - bitlen n" using False by (simp add: ilog2_def n_def y_def)
  have xy: "x = 1 / y" by (simp add: y_def)
  have "pow2 (ilog2 x) = 1 / 2 ^ nat (bitlen n)"
    using l by (simp add: il pow2_def)
  moreover have "1 / 2 ^ nat (bitlen n) \<le> x"
    using hi y by (simp add: xy field_simps)
  ultimately have "pow2 (ilog2 x) \<le> x" by simp
  moreover have "x < pow2 (ilog2 x + 1)"
  proof -
    have "pow2 (1 - bitlen n) = 1 / 2 ^ nat (bitlen n - 1)"
      using l by (auto simp: pow2_def)
    moreover have "x < 1 / 2 ^ nat (bitlen n - 1)"
      using lo y by (simp add: xy field_simps)
    ultimately show ?thesis by (simp add: il)
  qed
  ultimately show ?thesis ..
qed

lemma round_even_of_int [simp]: "round_even (of_int n) = n"
  by (simp add: round_even_def)

lemma round_even_near: "of_int (round_even y) - 1 / 2 \<le> y \<and> y \<le> of_int (round_even y) + 1 / 2"
  unfolding round_even_def Let_def by (auto; linarith)

lemma round_even_mono: "x \<le> y \<Longrightarrow> round_even x \<le> round_even y"
proof -
  assume xy: "x \<le> y"
  then have f: "\<lfloor>x\<rfloor> \<le> \<lfloor>y\<rfloor>" by (rule floor_mono)
  have fx: "round_even x \<le> \<lfloor>x\<rfloor> + 1" and fy: "\<lfloor>y\<rfloor> \<le> round_even y"
    by (auto simp: round_even_def Let_def)
  show ?thesis
  proof (cases "\<lfloor>x\<rfloor> = \<lfloor>y\<rfloor>")
    case True
    with xy show ?thesis by (auto simp: round_even_def Let_def)
  next
    case False
    with f fx fy show ?thesis by linarith
  qed
qed

lemma ilog2_unique:
  assumes "0 < x" "pow2 k \<le> x" "x < pow2 (k + 1)"
  shows "ilog2 x = k"
proof (rule ccontr)
  assume "ilog2 x \<noteq> k"
  then consider "ilog2 x + 1 \<le> k" | "k + 1 \<le> ilog2 x" by linarith
  then show False
  proof cases
    case 1
    then have "pow2 (ilog2 x + 1) \<le> pow2 k" by (rule pow2_mono)
    with ilog2_bounds [OF assms(1)] assms(2) show False by linarith
  next
    case 2
    then have "pow2 (k + 1) \<le> pow2 (ilog2 x)" by (rule pow2_mono)
    with ilog2_bounds [OF assms(1)] assms(3) show False by linarith
  qed
qed

text \<open>A value rounds within its binade: it stays between the powers of two around it.\<close>

lemma scaled_binade:
  assumes "0 < x"
  shows "2 ^ 52 \<le> x * pow2 (52 - ilog2 x) \<and> x * pow2 (52 - ilog2 x) < 2 ^ 53"
proof -
  let ?k = "ilog2 x"
  have s: "pow2 (52 - ?k) * pow2 ?k = 2 ^ 52" "pow2 (52 - ?k) * pow2 (?k + 1) = 2 ^ 53"
    using pow2_add [of "52 - ?k" ?k] pow2_add [of "52 - ?k" "?k + 1"] by simp_all
  have "pow2 (52 - ?k) * pow2 ?k \<le> pow2 (52 - ?k) * x"
    using ilog2_bounds [OF assms] by (simp add: mult_le_cancel_left_pos)
  moreover have "pow2 (52 - ?k) * x < pow2 (52 - ?k) * pow2 (?k + 1)"
    using ilog2_bounds [OF assms] by (simp add: mult_less_cancel_left_pos)
  ultimately show ?thesis by (simp only: s mult.commute [of x])
qed

lemma fl_pos_binade:
  assumes "0 < x"
  shows "pow2 (ilog2 x) \<le> fl_pos x \<and> fl_pos x \<le> pow2 (ilog2 x + 1)"
proof -
  let ?k = "ilog2 x - 52"
  let ?m = "round_even (x * pow2 (- ?k))"
  have k: "- ?k = 52 - ilog2 x" by simp
  have "round_even (of_int (2 ^ 52)) \<le> ?m" "?m \<le> round_even (of_int (2 ^ 53))"
    using scaled_binade [OF assms] unfolding k by (intro round_even_mono; simp)+
  then have m: "2 ^ 52 \<le> ?m" "?m \<le> 2 ^ 53" by (simp_all del: of_int_power of_int_numeral)
  then have r: "(2 ^ 52 :: rat) \<le> of_int ?m" "of_int ?m \<le> (2 ^ 53 :: rat)"
    by (metis of_int_le_iff of_int_numeral of_int_power)+
  have e: "pow2 (ilog2 x) = 2 ^ 52 * pow2 ?k" "pow2 (ilog2 x + 1) = 2 ^ 53 * pow2 ?k"
    using pow2_add [of 52 ?k] pow2_add [of 53 ?k] by (simp_all add: algebra_simps)
  show ?thesis
    unfolding fl_pos_def Let_def e using r by (simp add: mult_le_cancel_right_pos)
qed

lemma fl_pos_pos: "0 < x \<Longrightarrow> 0 < fl_pos x"
  using fl_pos_binade [of x] pow2_pos [of "ilog2 x"] by linarith

lemma fl_pos_mono:
  assumes "0 < x" "x \<le> y"
  shows "fl_pos x \<le> fl_pos y"
proof (cases "ilog2 x = ilog2 y")
  case True
  have "round_even (x * pow2 (- (ilog2 y - 52))) \<le> round_even (y * pow2 (- (ilog2 y - 52)))"
    using assms by (intro round_even_mono) (simp add: mult_le_cancel_right_pos)
  then show ?thesis
    unfolding fl_pos_def Let_def True by (simp add: mult_le_cancel_right_pos)
next
  case False
  have y: "0 < y" using assms by simp
  have "\<not> ilog2 y + 1 \<le> ilog2 x"
  proof
    assume "ilog2 y + 1 \<le> ilog2 x"
    then have "pow2 (ilog2 y + 1) \<le> pow2 (ilog2 x)" by (rule pow2_mono)
    with ilog2_bounds [OF assms(1)] ilog2_bounds [OF y] assms(2) show False by linarith
  qed
  with False have "pow2 (ilog2 x + 1) \<le> pow2 (ilog2 y)" by (intro pow2_mono) simp
  with fl_pos_binade [OF assms(1)] fl_pos_binade [OF y] show ?thesis by linarith
qed

lemma fl_mono: "x \<le> y \<Longrightarrow> fl x \<le> fl y"
  using fl_pos_mono [of x y] fl_pos_mono [of "- y" "- x"] fl_pos_pos [of y] fl_pos_pos [of "- x"]
  by (auto simp: fl_def)

text \<open>Numbers with at most 53 significant bits are doubles already.\<close>

lemma fl_exact_pos:
  assumes "0 < m" "m \<le> 2 ^ 53"
  shows "fl_pos (of_int m * pow2 e) = of_int m * pow2 e"
proof -
  let ?x = "of_int m * pow2 e"
  have x: "0 < ?x" using assms by simp
  let ?k = "ilog2 ?x - 52"
  have "pow2 (ilog2 ?x) \<le> ?x" using ilog2_bounds [OF x] by simp
  also have "?x \<le> of_int (2 ^ 53) * pow2 e"
    using assms(2) by (intro mult_right_mono) (simp_all del: of_int_power add: less_imp_le)
  also have "\<dots> = pow2 (53 + e)" by (simp add: pow2_add)
  finally have le: "pow2 (ilog2 ?x) \<le> pow2 (53 + e)" .
  show ?thesis
  proof (cases "?k \<le> e")
    case True
    then obtain n where n: "e = ?k + int n" by (metis zle_iff_zadd)
    then have pe: "pow2 e = pow2 ?k * 2 ^ n" by (metis pow2_add pow2_nat)
    have "?x * pow2 (- ?k) = of_int m * pow2 (- ?k) * pow2 e" by simp
    also have "\<dots> = of_int m * (2 ^ n * (pow2 (- ?k) * pow2 ?k))" by (subst pe) simp
    also have "\<dots> = of_int (m * 2 ^ n)" by (simp only: pow2_minus) simp
    finally have s: "?x * pow2 (- ?k) = of_int (m * 2 ^ n)" .
    have "of_int (m * 2 ^ n) * pow2 ?k = of_int m * (pow2 ?k * 2 ^ n)" by simp
    also have "\<dots> = ?x" using pe by simp
    finally show ?thesis unfolding fl_pos_def Let_def s round_even_of_int .
  next
    case False
    then have "53 + e \<le> ilog2 ?x" by simp
    then have "pow2 (53 + e) \<le> pow2 (ilog2 ?x)" by (rule pow2_mono)
    with le ilog2_bounds [OF x] assms(2) have eq: "?x = pow2 (53 + e)"
      using \<open>?x \<le> of_int (2 ^ 53) * pow2 e\<close> \<open>of_int (2 ^ 53) * pow2 e = pow2 (53 + e)\<close> by linarith
    have il: "ilog2 ?x = 53 + e"
      by (rule ilog2_unique) (use eq x in \<open>simp_all add: pow2_add\<close>)
    have k: "?k = 1 + e" by (simp add: il)
    have "?x * pow2 (- ?k) = pow2 (53 + e) * pow2 (- (1 + e))" unfolding k by (subst eq) simp
    also have "\<dots> = 2 ^ 52" using pow2_add [of "53 + e" "- (1 + e)"] by simp
    finally have "?x * pow2 (- ?k) = 2 ^ 52" .
    then have "round_even (?x * pow2 (- ?k)) = 2 ^ 52"
      using round_even_of_int [of "2 ^ 52"] by simp
    moreover have "2 ^ 52 * pow2 (1 + e) = ?x" using pow2_add [of 52 "1 + e"] eq by simp
    ultimately show ?thesis unfolding fl_pos_def Let_def by (simp add: k)
  qed
qed

lemma fl_exact:
  assumes "\<bar>m\<bar> \<le> 2 ^ 53"
  shows "fl (of_int m * pow2 e) = of_int m * pow2 e"
proof -
  have z: "of_int m * pow2 e = 0 \<longleftrightarrow> m = 0" by simp
  have neg: "of_int m * pow2 e < 0 \<longleftrightarrow> m < 0" by (simp add: mult_less_0_iff not_less [of _ 0, THEN iffD2] less_imp_le)
  show ?thesis
    using assms fl_exact_pos [of m e] fl_exact_pos [of "- m" e]
    unfolding fl_def z neg by (cases "m = 0"; cases "m < 0") auto
qed

lemma fl_of_int: "\<bar>m\<bar> \<le> 2 ^ 53 \<Longrightarrow> fl (of_int m) = of_int m"
  using fl_exact [of m 0] by (simp add: pow2_def)

lemma fl_0 [simp]: "fl 0 = 0"
  by (simp add: fl_def)

lemma fl_1 [simp]: "fl 1 = 1"
  using fl_of_int [of 1] by simp

lemma fl_of_nat: "n \<le> 2 ^ 53 \<Longrightarrow> fl (of_nat n) = of_nat n"
  using fl_of_int [of "int n"] by simp

lemma fl_numeral: "numeral k \<le> (2 ^ 53 :: int) \<Longrightarrow> fl (numeral k) = numeral k"
  using fl_of_int [of "numeral k"] by simp


text \<open>A value that is a multiple of \<open>2 ^ -n\<close> of moderate size: no operation on it rounds.\<close>

lemma fl_dyadic:
  assumes "x = of_int m / 2 ^ n" "\<bar>m\<bar> \<le> 2 ^ 53"
  shows "fl x = x"
proof -
  have "pow2 (- int n) = 1 / 2 ^ n" by (simp add: pow2_def)
  with fl_exact [OF assms(2), of "- int n"] assms(1) show ?thesis by simp
qed

section \<open>Operations of the Number and Math objects\<close>

text \<open>\<open>Math.round\<close>: the nearest integer, halves upwards, computed on the exact value.\<close>

definition math_round :: "rat \<Rightarrow> int" where
  "math_round x = \<lfloor>x + 1 / 2\<rfloor>"

text \<open>
  \<open>x.toFixed(d)\<close>: the integer \<open>n\<close> for which \<open>n / 10^d\<close> is closest to \<open>x\<close>, the larger one
  of two, printed with \<open>d\<close> decimals.
\<close>

definition fixed_digits :: "nat \<Rightarrow> nat \<Rightarrow> string" where
  "fixed_digits d n = (if d = 0 then dec n
     else dec (n div 10 ^ d) @ ''.'' @ padStart d (CHR ''0'') (dec (n mod 10 ^ d)))"

definition toFixed :: "nat \<Rightarrow> rat \<Rightarrow> string" where
  "toFixed d x = (if x < 0 then ''-'' @ fixed_digits d (nat \<lfloor>- x * 10 ^ d + 1 / 2\<rfloor>)
     else fixed_digits d (nat \<lfloor>x * 10 ^ d + 1 / 2\<rfloor>))"

declare math_round_def [js_defs] toFixed_def [js_defs] fixed_digits_def [js_defs]

lemma math_round_mono: "x \<le> y \<Longrightarrow> math_round x \<le> math_round y"
  unfolding math_round_def by (intro floor_mono) simp

lemma math_round_of_int [simp]: "math_round (of_int n) = n"
  unfolding math_round_def by linarith

lemma math_round_ge: "of_int n \<le> x \<Longrightarrow> n \<le> math_round x"
  using math_round_mono [of "of_int n" x] by simp

lemma math_round_le: "x \<le> of_int n \<Longrightarrow> math_round x \<le> n"
  using math_round_mono [of x "of_int n"] by simp

section \<open>What the components rely on\<close>

locale rounding =
  fixes rnd :: "rat \<Rightarrow> rat"
  assumes rnd_mono: "x \<le> y \<Longrightarrow> rnd x \<le> rnd y"
    and rnd_int: "\<bar>m\<bar> \<le> 2 ^ 53 \<Longrightarrow> rnd (of_int m) = of_int m"
begin

lemma ge_int: "\<bar>m\<bar> \<le> 2 ^ 53 \<Longrightarrow> of_int m \<le> x \<Longrightarrow> of_int m \<le> rnd x"
  using rnd_mono [of "of_int m" x] rnd_int [of m] by simp

lemma le_int: "\<bar>m\<bar> \<le> 2 ^ 53 \<Longrightarrow> x \<le> of_int m \<Longrightarrow> rnd x \<le> of_int m"
  using rnd_mono [of x "of_int m"] rnd_int [of m] by simp

lemma ge_0: "0 \<le> x \<Longrightarrow> 0 \<le> rnd x"
  using ge_int [of 0 x] by simp

lemma ge_numeral: "(numeral k :: int) \<le> 2 ^ 53 \<Longrightarrow> numeral k \<le> x \<Longrightarrow> numeral k \<le> rnd x"
  using ge_int [of "numeral k" x] by simp

lemma le_numeral: "(numeral k :: int) \<le> 2 ^ 53 \<Longrightarrow> x \<le> numeral k \<Longrightarrow> rnd x \<le> numeral k"
  using le_int [of "numeral k" x] by simp

lemma ge_neg_numeral: "(numeral k :: int) \<le> 2 ^ 53 \<Longrightarrow> - numeral k \<le> x \<Longrightarrow> - numeral k \<le> rnd x"
  using ge_int [of "- numeral k" x] by simp

lemma le_1: "x \<le> 1 \<Longrightarrow> rnd x \<le> 1"
  using le_int [of 1 x] by simp

text \<open>\<open>(part / whole) * 100\<close> is a percentage.\<close>

lemma percent_bounds:
  fixes part whole :: nat
  assumes "part \<le> whole" "0 < whole"
  shows "0 \<le> rnd (rnd (of_nat part / of_nat whole) * 100)"
    and "rnd (rnd (of_nat part / of_nat whole) * 100) \<le> 100"
proof -
  have q: "0 \<le> rnd (of_nat part / of_nat whole)" "rnd (of_nat part / of_nat whole) \<le> 1"
    using assms by (auto intro!: ge_0 le_1 simp: divide_le_eq)
  then show "0 \<le> rnd (rnd (of_nat part / of_nat whole) * 100)" by (intro ge_0) simp
  from q show "rnd (rnd (of_nat part / of_nat whole) * 100) \<le> 100" by (intro le_numeral) auto
qed

lemma percent_mono:
  fixes a b whole :: nat
  assumes "a \<le> b"
  shows "rnd (rnd (of_nat a / of_nat whole) * 100) \<le> rnd (rnd (of_nat b / of_nat whole) * 100)"
  using assms by (intro rnd_mono mult_right_mono divide_right_mono) auto

lemma percent_full:
  fixes whole :: nat
  assumes "0 < whole"
  shows "rnd (rnd (of_nat whole / of_nat whole) * 100) = 100"
  using assms rnd_int [of 1] rnd_int [of 100] by simp

end

interpretation dbl: rounding fl
  by unfold_locales (rule fl_mono, assumption, rule fl_of_int)

end
