(* ===== verification/Events.thy ===== *)
theory Events
  imports JS_Number
begin

text \<open>
  The event record every part of the dashboard consumes (\<open>AnalyticsEvent\<close> of
  \<open>hooks/useAnalytics.ts\<close>, produced by the analytics service or, with the same shape and explicit
  coordinates, by \<open>lib/demo.ts\<close>). An optional property is an \<open>option\<close> field. A timestamp string
  is represented by the instant it denotes, or by the string itself when \<open>Date\<close> cannot parse it.
\<close>

datatype iso = Iso int | Unparsable string

record analytics_event =
  ev_id :: "string option"
  ev_event_id :: "string option"
  ev_type :: string
  ev_user_id :: "string option"
  ev_ip :: "string option"
  ev_timestamp :: iso
  ev_action :: "string option"
  ev_score :: "rat option"
  ev_country_code :: "string option"
  ev_country :: "string option"
  ev_lat :: "rat option"
  ev_lon :: "rat option"

text \<open>\<open>event.id ?? event.event_id\<close>, the key the program identifies an event by.\<close>

definition event_key :: "analytics_event \<Rightarrow> string option" where
  "event_key e = or_else (ev_id e) (ev_event_id e)"

text \<open>\<open>event.action === "BLOCK" || event.action === "CHALLENGE"\<close>, the test used throughout.\<close>

definition flagged :: "analytics_event \<Rightarrow> bool" where
  "flagged e \<longleftrightarrow> ev_action e = Some ''BLOCK'' \<or> ev_action e = Some ''CHALLENGE''"

text \<open>\<open>new Date(iso).getTime()\<close>: the instant, or NaN.\<close>

fun getTime :: "iso \<Rightarrow> int option" where
  "getTime (Iso t) = Some t"
| "getTime (Unparsable s) = None"

definition blank_event :: analytics_event where
  "blank_event = \<lparr>ev_id = None, ev_event_id = None, ev_type = '''', ev_user_id = None,
     ev_ip = None, ev_timestamp = Iso 0, ev_action = None, ev_score = None,
     ev_country_code = None, ev_country = None, ev_lat = None, ev_lon = None\<rparr>"

text \<open>
  The share of the events of a window that satisfy a test, in percent, as the program computes
  it: \<open>events.length > 0 ? (n / events.length) * 100 : 0\<close>.
\<close>

definition percent_of :: "(analytics_event \<Rightarrow> bool) \<Rightarrow> analytics_event list \<Rightarrow> rat" where
  "percent_of P evs = (if length evs > 0
     then fl (fl (of_nat (length (filter P evs)) / of_nat (length evs)) * 100) else 0)"

lemma percent_of_bounds: "0 \<le> percent_of P evs \<and> percent_of P evs \<le> 100"
  using dbl.percent_bounds [of "length (filter P evs)" "length evs"]
  by (simp add: percent_of_def)

lemma percent_of_none: "\<forall>e \<in> set evs. \<not> P e \<Longrightarrow> percent_of P evs = 0"
  by (simp add: percent_of_def filter_False)

lemma percent_of_all: "evs \<noteq> [] \<Longrightarrow> \<forall>e \<in> set evs. P e \<Longrightarrow> percent_of P evs = 100"
  using dbl.percent_full [of "length evs"] by (simp add: percent_of_def filter_True)

lemma percent_of_mono:
  assumes "\<And>e. e \<in> set evs \<Longrightarrow> P e \<Longrightarrow> Q e"
  shows "percent_of P evs \<le> percent_of Q evs"
proof -
  have "filter P evs = filter P (filter Q evs)"
    using assms by (induction evs) auto
  then have "length (filter P evs) \<le> length (filter Q evs)" by (metis length_filter_le)
  from dbl.percent_mono [OF this, of "length evs"] show ?thesis by (simp add: percent_of_def)
qed

end
