(* ===== verification/Demo.thy ===== *)
theory Demo
  imports Events "HOL-Library.Word" "HOL-Library.State_Monad" "HOL-Library.Multiset"
begin

unbundle bit_operations_syntax

text \<open>
  \<open>lib/demo.ts\<close>: the seeded telemetry simulation of demo mode. The pseudo-random generator is a
  state monad over its 32-bit word; \<open>generateEvent\<close> draws from it in the order of the source.
  Clock readings (\<open>Date.now()\<close>, \<open>new Date()\<close>) and the module variable \<open>seq\<close> are arguments.

  The locale \<open>random_source\<close> states what the generator promises (values in the unit interval that
  are multiples of 2^-32, so that the picks do not round); the laws of the events are proved
  against it and \<open>mulberry32\<close> is its instance.
\<close>

section \<open>The generator\<close>

definition mulberry32 :: "(32 word, rat) state" where
  "mulberry32 = State (\<lambda>seed0.
     let seed = seed0 + 0x6d2b79f5;
         t = (seed XOR drop_bit 15 seed) * (1 OR seed);
         t = (t + (t XOR drop_bit 7 t) * (61 OR t)) XOR t
     in (of_int (uint (t XOR drop_bit 14 t)) / 4294967296, seed))"

section \<open>Vocabularies\<close>

record country_entry =
  c_code :: string
  c_name :: string
  c_weight :: nat
  c_lat :: rat
  c_lon :: rat

definition country :: "string \<Rightarrow> string \<Rightarrow> nat \<Rightarrow> rat \<Rightarrow> rat \<Rightarrow> country_entry" where
  "country code name w lat lon =
     \<lparr>c_code = code, c_name = name, c_weight = w, c_lat = fl lat, c_lon = fl lon\<rparr>"

definition COUNTRY_POOL :: "country_entry list" where
  "COUNTRY_POOL = [
     country ''US'' ''United States'' 24 39.8 (-98.6),
     country ''GB'' ''United Kingdom'' 10 54.0 (-2.0),
     country ''IN'' ''India'' 9 20.6 78.9,
     country ''DE'' ''Germany'' 7 51.2 10.4,
     country ''BR'' ''Brazil'' 7 (-14.2) (-51.9),
     country ''CN'' ''China'' 6 35.9 104.2,
     country ''RU'' ''Russia'' 6 61.5 105.3,
     country ''NL'' ''Netherlands'' 5 52.1 5.3,
     country ''FR'' ''France'' 5 46.2 2.2,
     country ''SG'' ''Singapore'' 4 1.35 103.8,
     country ''JP'' ''Japan'' 4 36.2 138.3,
     country ''NG'' ''Nigeria'' 3 9.1 8.7,
     country ''VN'' ''Vietnam'' 3 14.1 108.3,
     country ''TR'' ''Turkey'' 2 38.9 35.2,
     country ''ID'' ''Indonesia'' 2 (-0.8) 113.9,
     country ''AU'' ''Australia'' 2 (-25.3) 133.8,
     country ''KR'' ''South Korea'' 2 35.9 127.8,
     country ''ZA'' ''South Africa'' 1 (-30.6) 22.9,
     country ''MX'' ''Mexico'' 2 23.6 (-102.5),
     country ''CA'' ''Canada'' 3 56.1 (-106.3)]"

definition EVENT_TYPES :: "(string \<times> nat) list" where
  "EVENT_TYPES = [(''user.login'', 34), (''payment.attempt'', 26), (''user.register'', 12),
     (''password.change'', 8), (''card.linking'', 10), (''profile.update'', 6),
     (''withdrawal.request'', 4)]"

definition SUSPICIOUS_IP_PREFIX :: "string list" where
  "SUSPICIOUS_IP_PREFIX = [''45.132'', ''185.220'', ''91.219'', ''194.26'', ''62.171'',
     ''159.223'', ''51.15'', ''103.4'']"

definition NORMAL_IP_PREFIX :: "string list" where
  "NORMAL_IP_PREFIX = [''73.12'', ''82.44'', ''24.16'', ''98.211'', ''106.77'', ''119.42'',
     ''203.15'', ''58.6'']"

text \<open>
  \<open>weightedPick\<close>: the loop subtracts the weights from \<open>r * total\<close> and returns the item at which
  the rest is no longer positive; the last item when the loop runs out. Both call sites pass a
  non-empty pool.
\<close>

fun pick_loop :: "('a \<Rightarrow> nat) \<Rightarrow> 'a list \<Rightarrow> rat \<Rightarrow> 'a option" where
  "pick_loop wt [] acc = None"
| "pick_loop wt (x # xs) acc =
     (let acc' = fl (acc - of_nat (wt x)) in if acc' \<le> 0 then Some x else pick_loop wt xs acc')"

definition weightedPick :: "('a \<Rightarrow> nat) \<Rightarrow> 'a list \<Rightarrow> rat \<Rightarrow> 'a" where
  "weightedPick wt items r =
     (let total = sum_list (map wt items) in
      case pick_loop wt items (fl (r * of_nat total)) of Some x \<Rightarrow> x | None \<Rightarrow> last items)"

section \<open>Event generation\<close>

text \<open>The bimodal risk score and the decision that goes with it.\<close>

definition demo_score :: "rat \<Rightarrow> rat \<Rightarrow> rat" where
  "demo_score roll r =
     (if roll < fl 0.62 then fl (5 + fl (r * 25))
      else if roll < fl 0.86 then fl (30 + fl (r * 25))
      else if roll < fl 0.97 then fl (55 + fl (r * 25))
      else fl (80 + fl (r * 19)))"

definition demo_action :: "rat \<Rightarrow> string" where
  "demo_action score =
     (if 80 \<le> score then ''BLOCK'' else if 55 \<le> score then ''CHALLENGE''
      else if 35 \<le> score then ''REVIEW'' else ''ALLOW'')"

text \<open>\<open>Math.round(score * 10) / 10\<close>, the published score.\<close>

definition demo_risk_score :: "rat \<Rightarrow> rat" where
  "demo_risk_score score = fl (of_int (math_round (fl (score * 10))) / 10)"

text \<open>\<open>pool[Math.floor(r * pool.length)]\<close> in a template literal.\<close>

definition pick_prefix :: "string list \<Rightarrow> rat \<Rightarrow> string" where
  "pick_prefix pool r = default (get_at pool \<lfloor>fl (r * of_nat (length pool))\<rfloor>) ''undefined''"

definition jitter6 :: "rat \<Rightarrow> rat" where
  "jitter6 r = fl (fl (r - 1 / 2) * 6)"

definition demo_id :: "nat \<Rightarrow> nat \<Rightarrow> string" where
  "demo_id now seq = ''demo-'' @ radix_string 36 now @ ''-'' @ dec seq"

definition generateEvent ::
    "('g, rat) state \<Rightarrow> nat \<Rightarrow> int \<Rightarrow> nat \<Rightarrow> ('g, analytics_event) state" where
  "generateEvent rand now_id now_ts seq = do {
     r1 \<leftarrow> rand;
     let ctry = weightedPick c_weight COUNTRY_POOL r1;
     r2 \<leftarrow> rand;
     let eventType = weightedPick snd EVENT_TYPES r2;
     roll \<leftarrow> rand;
     r4 \<leftarrow> rand;
     let score = demo_score roll r4;
     let action = demo_action score;
     r5 \<leftarrow> rand;
     let prefix = (if 55 < score then pick_prefix SUSPICIOUS_IP_PREFIX r5
                   else pick_prefix NORMAL_IP_PREFIX r5);
     r6 \<leftarrow> rand;
     r7 \<leftarrow> rand;
     let ip = prefix @ ''.'' @ dec_int \<lfloor>fl (r6 * 255)\<rfloor> @ ''.'' @ dec_int \<lfloor>fl (r7 * 255)\<rfloor>;
     let eid = demo_id now_id (seq + 1);
     r8 \<leftarrow> rand;
     let jLat = jitter6 r8;
     r9 \<leftarrow> rand;
     let jLon = jitter6 r9;
     r10 \<leftarrow> rand;
     State_Monad.return
       \<lparr>ev_id = Some eid, ev_event_id = Some eid, ev_type = fst eventType,
        ev_user_id = Some (''usr_'' @ radix_string 36 (nat \<lfloor>fl (fl (r10 * 900000) + 100000)\<rfloor>)),
        ev_ip = Some ip, ev_timestamp = Iso now_ts, ev_action = Some action,
        ev_score = Some (demo_risk_score score),
        ev_country_code = Some (c_code ctry), ev_country = Some (c_name ctry),
        ev_lat = Some (fl (c_lat ctry + jLat)), ev_lon = Some (fl (c_lon ctry + jLon))\<rparr>
   }"

text \<open>\<open>new Date(x)\<close> truncates its argument towards zero.\<close>

definition date_of :: "rat \<Rightarrow> iso" where
  "date_of x = Iso (if x < 0 then \<lceil>x\<rceil> else \<lfloor>x\<rfloor>)"

definition backfill_time :: "int \<Rightarrow> nat \<Rightarrow> nat \<Rightarrow> nat \<Rightarrow> iso" where
  "backfill_time now cnt minutes i =
     date_of (fl (of_int now - fl (fl (fl (of_nat i / of_nat cnt) * of_nat minutes) * 60000)))"

text \<open>
  The loop \<open>for (let i = count; i > 0; i--)\<close>; \<open>clk\<close> gives the clock reading of each
  \<open>generateEvent\<close> call, indexed by the value of \<open>seq\<close> before the call.
\<close>

fun backfill_loop ::
    "(nat \<Rightarrow> nat) \<Rightarrow> int \<Rightarrow> nat \<Rightarrow> nat \<Rightarrow> nat \<Rightarrow> nat \<Rightarrow> (32 word, analytics_event list) state" where
  "backfill_loop clk now cnt minutes 0 seq = State_Monad.return []"
| "backfill_loop clk now cnt minutes (Suc i) seq = do {
     e \<leftarrow> generateEvent mulberry32 (clk seq) (int (clk seq)) seq;
     rest \<leftarrow> backfill_loop clk now cnt minutes i (seq + 1);
     State_Monad.return (e\<lparr>ev_timestamp := backfill_time now cnt minutes (Suc i)\<rparr> # rest)
   }"

definition demoBackfill ::
    "(nat \<Rightarrow> nat) \<Rightarrow> int \<Rightarrow> nat \<Rightarrow> nat \<Rightarrow> 32 word \<Rightarrow> nat \<Rightarrow> analytics_event list" where
  "demoBackfill clk now cnt minutes seed seq =
     fst (run_state (backfill_loop clk now cnt minutes cnt seq) seed)"

text \<open>The module state of the live stream: \<open>seq\<close> and the generator \<open>liveRand\<close>.\<close>

record demo_stream =
  ds_seq :: nat
  ds_rand :: "32 word"

definition live_seed :: "32 word" where
  "live_seed = 1337"

definition demoTick :: "nat \<Rightarrow> demo_stream \<Rightarrow> analytics_event \<times> demo_stream" where
  "demoTick now ds =
     (case run_state (generateEvent mulberry32 now (int now) (ds_seq ds)) (ds_rand ds) of
        (e, g) \<Rightarrow> (e, \<lparr>ds_seq = ds_seq ds + 1, ds_rand = g\<rparr>))"

section \<open>Rollups\<close>

text \<open>
  \<open>[...].sort((a, b) => b.count - a.count)\<close>: a stable sort by descending count.
\<close>

definition sort_desc :: "('a \<Rightarrow> int) \<Rightarrow> 'a list \<Rightarrow> 'a list" where
  "sort_desc f xs = sort_key (\<lambda>x. - f x) xs"

definition first_draw :: "32 word \<Rightarrow> rat" where
  "first_draw seed = fst (run_state mulberry32 seed)"

definition geo_count :: "country_entry \<Rightarrow> int" where
  "geo_count c = math_round (fl (fl (of_nat (c_weight c) * 37) *
     fl (fl 0.8 + fl (first_draw (word_of_nat (char_code (c_code c ! 0) + char_code (c_code c ! 1)))
       * fl 0.4))))"

definition demoGeo :: "(string \<times> int) list" where
  "demoGeo = sort_desc snd (map (\<lambda>c. (c_code c, geo_count c)) COUNTRY_POOL)"

record rate_point =
  rp_bucket :: iso
  rp_total :: int
  rp_fraud :: int

definition diurnal :: "nat \<Rightarrow> rat" where
  "diurnal h = (if 2 \<le> h \<and> h \<le> 6 then fl 0.45 else if 10 \<le> h \<and> h \<le> 13 then fl 1.35
     else if 19 \<le> h \<and> h \<le> 22 then fl 1.5 else 1)"

text \<open>The volume of an hour and its fraud count, from one draw each.\<close>

definition rate_total :: "rat \<Rightarrow> nat \<Rightarrow> int" where
  "rate_total r h = math_round (fl (fl (380 + fl (r * 240)) * diurnal h))"

definition rate_fraud :: "int \<Rightarrow> rat \<Rightarrow> nat \<Rightarrow> int" where
  "rate_fraud tot r i =
     (let attackBurst = (if i = 17 \<or> i = 6 then fl 3.1 else 1) in
      max 1 (math_round (fl (fl (of_int tot * fl (fl 0.011 + fl (r * fl 0.012))) * attackBurst))))"

text \<open>\<open>hours\<close> is \<open>getHours()\<close>, the hour of day of an instant in the browser's time zone.\<close>

fun rate_loop :: "(int \<Rightarrow> nat) \<Rightarrow> int \<Rightarrow> nat \<Rightarrow> (32 word, rate_point list) state" where
  "rate_loop hours now 0 = State_Monad.return []"
| "rate_loop hours now (Suc i) = do {
     let hourStart = now - int i * 3600000;
     r1 \<leftarrow> mulberry32;
     let tot = rate_total r1 (hours hourStart);
     r2 \<leftarrow> mulberry32;
     let fraud = rate_fraud tot r2 i;
     rest \<leftarrow> rate_loop hours now i;
     State_Monad.return
       (\<lparr>rp_bucket = Iso hourStart, rp_total = tot, rp_fraud = fraud\<rparr> # rest)
   }"

definition demoFraudRate :: "(int \<Rightarrow> nat) \<Rightarrow> int \<Rightarrow> rate_point list" where
  "demoFraudRate hours now = fst (run_state (rate_loop hours now 24) 2024)"

fun top_threat_loop :: "string list \<Rightarrow> (32 word, (string \<times> int) list) state" where
  "top_threat_loop [] = State_Monad.return []"
| "top_threat_loop (ip # ips) = do {
     r \<leftarrow> mulberry32;
     rest \<leftarrow> top_threat_loop ips;
     State_Monad.return ((ip, math_round (fl (40 + fl (r * 460)))) # rest)
   }"

definition demo_threat_ips :: "string list" where
  "demo_threat_ips = [''185.220.101.34'', ''45.132.8.91'', ''91.219.237.14'', ''194.26.29.156'',
     ''62.171.177.80'', ''159.223.44.19'', ''51.15.203.201'', ''103.4.217.7'']"

definition demoTopThreats :: "(string \<times> int) list" where
  "demoTopThreats = sort_desc snd (fst (run_state (top_threat_loop demo_threat_ips) 777))"

section \<open>The generator's contract\<close>

text \<open>A draw: a multiple of 2^-32 in the unit interval.\<close>

definition draw :: "rat \<Rightarrow> bool" where
  "draw r \<longleftrightarrow> (\<exists>k::int. 0 \<le> k \<and> k < 2 ^ 32 \<and> r = of_int k / 2 ^ 32)"

lemma draw_bounds: "draw r \<Longrightarrow> 0 \<le> r \<and> r < 1"
proof -
  assume "draw r"
  then obtain k :: int where k: "0 \<le> k" "k < 2 ^ 32" "r = of_int k / 2 ^ 32"
    by (auto simp: draw_def)
  then have "(of_int k :: rat) < 2 ^ 32" by (metis of_int_less_iff of_int_numeral of_int_power)
  with k show ?thesis by simp
qed


lemma uint_word32_draw: "draw (of_int (uint (w :: 32 word)) / 4294967296)"
proof -
  have "0 \<le> uint w" "uint w < 2 ^ 32" using uint_bounded [of w] by auto
  then show ?thesis unfolding draw_def by (intro exI [of _ "uint w"]) simp
qed

lemma mulberry32_draws: "pred_state draw mulberry32"
proof (rule pred_stateI)
  fix a s s'
  assume "run_state mulberry32 s = (a, s')"
  then have "\<exists>w :: 32 word. a = of_int (uint w) / 4294967296"
    unfolding mulberry32_def Let_def state.sel prod.inject by blast
  then show "draw a" using uint_word32_draw by blast
qed

section \<open>Weighted choice\<close>

text \<open>
  The choice inverts the cumulative distribution: \<open>r * total\<close> lies in the interval the picked
  item covers. Draws are dyadic, so the subtractions of the loop are exact.
\<close>

lemma fl_dyadic32: "x = of_int m / 2 ^ 32 \<Longrightarrow> \<bar>m\<bar> \<le> 2 ^ 53 \<Longrightarrow> fl x = x"
  by (rule fl_dyadic)

definition picked :: "('a \<Rightarrow> nat) \<Rightarrow> 'a list \<Rightarrow> rat \<Rightarrow> 'a \<Rightarrow> bool" where
  "picked wt items acc x \<longleftrightarrow> (\<exists>pre post. items = pre @ x # post
     \<and> (pre = [] \<or> of_nat (sum_list (map wt pre)) < acc)
     \<and> acc \<le> of_nat (sum_list (map wt pre) + wt x))"

lemma pickedI:
  assumes "items = pre @ x # post" "pre = [] \<or> of_nat (sum_list (map wt pre)) < acc"
    "acc \<le> of_nat (sum_list (map wt pre) + wt x)"
  shows "picked wt items acc x"
  using assms unfolding picked_def by blast

lemma pick_loop_spec:
  assumes "acc = of_int m / 2 ^ 32" "0 \<le> m" "m \<le> 2 ^ 52"
    and "sum_list (map wt xs) \<le> 2 ^ 20" "xs \<noteq> []"
    and "acc \<le> of_nat (sum_list (map wt xs))"
  shows "\<exists>x. pick_loop wt xs acc = Some x \<and> picked wt xs acc x"
  using assms
proof (induction xs arbitrary: acc m)
  case Nil
  then show ?case by simp
next
  case (Cons x xs)
  let ?m = "m - int (wt x) * 2 ^ 32"
  have w: "int (wt x) \<le> 2 ^ 20" using Cons.prems(4) by simp
  have eq: "acc - of_nat (wt x) = of_int ?m / 2 ^ 32"
    using Cons.prems(1) by (simp add: field_simps)
  have "\<bar>?m\<bar> \<le> 2 ^ 53" using Cons.prems(2,3) w by simp
  then have ex: "fl (acc - of_nat (wt x)) = acc - of_nat (wt x)" by (rule fl_dyadic32 [OF eq])
  show ?case
  proof (cases "acc - of_nat (wt x) \<le> 0")
    case True
    then have "picked wt (x # xs) acc x"
      by (intro pickedI [of _ "[]" _ xs]) auto
    with True ex show ?thesis by simp
  next
    case False
    then have pos: "0 < ?m" using eq by (simp add: zero_less_divide_iff)
    from Cons.prems(6) False have ne: "xs \<noteq> []" by (cases xs) auto
    have "\<exists>y. pick_loop wt xs (acc - of_nat (wt x)) = Some y \<and> picked wt xs (acc - of_nat (wt x)) y"
      using Cons.prems pos ne by (intro Cons.IH [OF eq]) auto
    then obtain y pre post where y: "pick_loop wt xs (acc - of_nat (wt x)) = Some y"
        "xs = pre @ y # post"
        "pre = [] \<or> of_nat (sum_list (map wt pre)) < acc - of_nat (wt x)"
        "acc - of_nat (wt x) \<le> of_nat (sum_list (map wt pre) + wt y)"
      by (auto simp: picked_def)
    from y(2,3,4) False have "picked wt (x # xs) acc y"
      by (intro pickedI [of _ "x # pre" _ post]) auto
    with False ex y(1) show ?thesis by simp
  qed
qed

lemma weightedPick_picked:
  assumes "draw r" "items \<noteq> []" "sum_list (map wt items) \<le> 2 ^ 20"
  shows "picked wt items (r * of_nat (sum_list (map wt items))) (weightedPick wt items r)"
proof -
  let ?t = "sum_list (map wt items)"
  obtain k :: int where k: "0 \<le> k" "k < 2 ^ 32" "r = of_int k / 2 ^ 32"
    using assms(1) by (auto simp: draw_def)
  have t: "int ?t \<le> 2 ^ 20" using assms(3) by simp
  have "k * int ?t \<le> 2 ^ 32 * 2 ^ 20" using k t by (intro mult_mono) auto
  then have m: "0 \<le> k * int ?t" "k * int ?t \<le> 2 ^ 52" using k by auto
  have eq: "r * of_nat ?t = of_int (k * int ?t) / 2 ^ 32" using k(3) by simp
  have fl: "fl (r * of_nat ?t) = r * of_nat ?t" using m by (intro fl_dyadic32 [OF eq]) simp
  have "r * of_nat ?t \<le> of_nat ?t" using draw_bounds [OF assms(1)] by (simp add: mult_left_le_one_le)
  from pick_loop_spec [OF eq m assms(3,2) this] fl show ?thesis
    by (auto simp: weightedPick_def Let_def)
qed

lemma picked_mem: "picked wt items acc x \<Longrightarrow> x \<in> set items"
  by (auto simp: picked_def)

lemma pool_weight: "sum_list (map c_weight COUNTRY_POOL) = 107"
  by (simp add: COUNTRY_POOL_def country_def)

lemma types_weight: "sum_list (map snd EVENT_TYPES) = 100"
  by (simp add: EVENT_TYPES_def)

lemma pools_nonempty: "COUNTRY_POOL \<noteq> []" "EVENT_TYPES \<noteq> []"
  by (simp_all add: COUNTRY_POOL_def EVENT_TYPES_def)

lemma country_picked: "draw r \<Longrightarrow> weightedPick c_weight COUNTRY_POOL r \<in> set COUNTRY_POOL"
  using weightedPick_picked [of r COUNTRY_POOL c_weight] pool_weight pools_nonempty
  by (auto intro: picked_mem)

lemma type_picked: "draw r \<Longrightarrow> weightedPick snd EVENT_TYPES r \<in> set EVENT_TYPES"
  using weightedPick_picked [of r EVENT_TYPES snd] types_weight pools_nonempty
  by (auto intro: picked_mem)

section \<open>Laws of a generated event\<close>

lemma demo_score_range:
  assumes "draw r"
  shows "5 \<le> demo_score roll r \<and> demo_score roll r \<le> 99"
proof -
  have r: "0 \<le> r" "r \<le> 1" using draw_bounds [OF assms] by auto
  have a: "0 \<le> fl (r * 25)" "fl (r * 25) \<le> 25" "0 \<le> fl (r * 19)" "fl (r * 19) \<le> 19"
    using r by (auto intro!: dbl.ge_0 dbl.le_numeral)
  show ?thesis
    unfolding demo_score_def using a by (auto intro!: dbl.ge_numeral dbl.le_numeral)
qed

lemma demo_risk_score_bounds:
  assumes "\<bar>a\<bar> \<le> 1000" "\<bar>b\<bar> \<le> 1000" "of_int a \<le> x" "x \<le> of_int b"
  shows "of_int a \<le> demo_risk_score x \<and> demo_risk_score x \<le> of_int b"
proof -
  have "of_int (a * 10) \<le> fl (x * 10)" using assms by (intro dbl.ge_int) auto
  moreover have "fl (x * 10) \<le> of_int (b * 10)" using assms by (intro dbl.le_int) auto
  ultimately have "a * 10 \<le> math_round (fl (x * 10))" "math_round (fl (x * 10)) \<le> b * 10"
    by (auto intro: math_round_ge math_round_le simp del: of_int_mult)
  then have "(of_int (a * 10) :: rat) \<le> of_int (math_round (fl (x * 10)))"
    "(of_int (math_round (fl (x * 10))) :: rat) \<le> of_int (b * 10)"
    by (simp_all only: of_int_le_iff)
  then show ?thesis
    unfolding demo_risk_score_def using assms by (auto intro!: dbl.ge_int dbl.le_int)
qed

text \<open>The decision of an event and its published score agree, band by band.\<close>

definition banded :: "analytics_event \<Rightarrow> bool" where
  "banded e \<longleftrightarrow> (\<exists>s. ev_score e = Some s \<and>
     (ev_action e = Some ''BLOCK'' \<and> 80 \<le> s \<and> s \<le> 99
      \<or> ev_action e = Some ''CHALLENGE'' \<and> 55 \<le> s \<and> s \<le> 80
      \<or> ev_action e = Some ''REVIEW'' \<and> 35 \<le> s \<and> s \<le> 55
      \<or> ev_action e = Some ''ALLOW'' \<and> 5 \<le> s \<and> s \<le> 35))"

lemma demo_bands:
  assumes "ev_action e = Some (demo_action (demo_score roll r))"
    "ev_score e = Some (demo_risk_score (demo_score roll r))" "draw r"
  shows "banded e"
proof -
  let ?s = "demo_score roll r"
  note range = demo_score_range [OF assms(3), of roll]
  consider "80 \<le> ?s" | "55 \<le> ?s" "?s < 80" | "35 \<le> ?s" "?s < 55" | "?s < 35" by linarith
  then show ?thesis
  proof cases
    case 1
    with range demo_risk_score_bounds [of 80 99 ?s] assms(1,2) show ?thesis
      by (simp add: banded_def demo_action_def)
  next
    case 2
    with demo_risk_score_bounds [of 55 80 ?s] assms(1,2) show ?thesis
      by (simp add: banded_def demo_action_def)
  next
    case 3
    with demo_risk_score_bounds [of 35 55 ?s] assms(1,2) show ?thesis
      by (simp add: banded_def demo_action_def)
  next
    case 4
    with range demo_risk_score_bounds [of 5 35 ?s] assms(1,2) show ?thesis
      by (simp add: banded_def demo_action_def)
  qed
qed

text \<open>Coordinates on the globe.\<close>

definition on_globe :: "analytics_event \<Rightarrow> bool" where
  "on_globe e \<longleftrightarrow> (\<exists>la lo. ev_lat e = Some la \<and> ev_lon e = Some lo
     \<and> -90 \<le> la \<and> la \<le> 90 \<and> -180 \<le> lo \<and> lo \<le> 180)"

lemma jitter6_bounds: "draw r \<Longrightarrow> -3 \<le> jitter6 r \<and> jitter6 r \<le> 3"
proof -
  assume d: "draw r"
  have half: "fl (1 / 2) = 1 / 2" "fl (- (1 / 2)) = - (1 / 2)"
    using fl_dyadic [of "1 / 2" 1 1] fl_dyadic [of "- (1 / 2)" "- 1" 1] by auto
  have "fl (- (1 / 2)) \<le> fl (r - 1 / 2)" "fl (r - 1 / 2) \<le> fl (1 / 2)"
    using draw_bounds [OF d] by (auto intro!: fl_mono)
  with half show ?thesis
    unfolding jitter6_def by (auto intro!: dbl.ge_neg_numeral dbl.le_numeral)
qed

lemma pool_coords:
  "c \<in> set COUNTRY_POOL \<Longrightarrow> -31 \<le> c_lat c \<and> c_lat c \<le> 62 \<and> -107 \<le> c_lon c \<and> c_lon c \<le> 139"
  unfolding COUNTRY_POOL_def country_def
  by (auto intro!: dbl.ge_neg_numeral dbl.le_numeral)

lemma place_on_globe:
  assumes "c \<in> set COUNTRY_POOL" "draw r" "draw r'"
  shows "-90 \<le> fl (c_lat c + jitter6 r)" "fl (c_lat c + jitter6 r) \<le> 90"
    "-180 \<le> fl (c_lon c + jitter6 r')" "fl (c_lon c + jitter6 r') \<le> 180"
  using pool_coords [OF assms(1)] jitter6_bounds [OF assms(2)] jitter6_bounds [OF assms(3)]
  by (auto intro!: dbl.ge_neg_numeral dbl.le_numeral)

locale random_source =
  fixes rand :: "('g, rat) state"
  assumes draws: "pred_state draw rand"
begin

lemma bind_rand: "(\<And>r. draw r \<Longrightarrow> pred_state P (f r)) \<Longrightarrow> pred_state P (State_Monad.bind rand f)"
  by (rule bind_predI) (auto intro!: pred_stateI dest: pred_stateD [OF draws])

lemma event_laws:
  "pred_state (\<lambda>e. banded e \<and> on_globe e \<and> ev_type e \<in> fst ` set EVENT_TYPES
     \<and> ev_id e = Some (demo_id now_id (seq + 1)) \<and> ev_event_id e = ev_id e
     \<and> ev_timestamp e = Iso now_ts)
   (generateEvent rand now_id now_ts seq)"
  unfolding generateEvent_def Let_def
  by (intro bind_rand pred_stateI)
    (auto simp: on_globe_def intro!: demo_bands type_picked country_picked place_on_globe)

end

interpretation mulb: random_source mulberry32
  by unfold_locales (rule mulberry32_draws)

section \<open>Backfill and live stream\<close>

lemma mulberry_event:
  assumes "run_state (generateEvent mulberry32 t_id t_ts seq) g = (e, g')"
  shows "banded e" "on_globe e" "ev_type e \<in> fst ` set EVENT_TYPES"
    "ev_id e = Some (demo_id t_id (seq + 1))" "ev_event_id e = ev_id e" "ev_timestamp e = Iso t_ts"
  using pred_stateD [OF mulb.event_laws assms] by auto

lemma demo_id_inj: "demo_id t m = demo_id t' n \<Longrightarrow> m = n"
proof -
  assume eq: "demo_id t m = demo_id t' n"
  have tail: "takeWhile (\<lambda>c. c \<noteq> CHR ''-'') (rev (demo_id u k)) = rev (dec k)" for u k
  proof -
    have "\<forall>c \<in> set (rev (dec k)). c \<noteq> CHR ''-''"
      using radix_string_no_dash [of 10 k] by (auto simp: dec_def)
    then have "takeWhile (\<lambda>c. c \<noteq> CHR ''-'') (rev (dec k) @ ys)
        = rev (dec k) @ takeWhile (\<lambda>c. c \<noteq> CHR ''-'') ys" for ys
      by (intro takeWhile_append2) auto
    then show ?thesis by (simp add: demo_id_def)
  qed
  from eq have "rev (dec m) = rev (dec n)" by (metis tail)
  then show ?thesis by (simp add: dec_inj)
qed

lemma backfill_loop_laws:
  "pred_state (\<lambda>es. length es = i
      \<and> map ev_timestamp es = map (backfill_time now cnt minutes) (rev [1..<Suc i])
      \<and> map ev_id es = map (\<lambda>j. Some (demo_id (clk (seq + j)) (seq + j + 1))) [0..<i]
      \<and> (\<forall>e \<in> set es. banded e \<and> on_globe e))
   (backfill_loop clk now cnt minutes i seq)"
proof (induction i arbitrary: seq)
  case 0
  show ?case by (rule pred_stateI) auto
next
  case (Suc i)
  have ups: "[0..<Suc i] = 0 # map Suc [0..<i]" "rev [1..<Suc (Suc i)] = Suc i # rev [1..<Suc i]"
    by (simp_all add: upt_conv_Cons map_Suc_upt)
  show ?case
  proof (rule pred_stateI)
    fix es g g'
    assume "run_state (backfill_loop clk now cnt minutes (Suc i) seq) g = (es, g')"
    then obtain e rest g1 where
        e: "run_state (generateEvent mulberry32 (clk seq) (int (clk seq)) seq) g = (e, g1)"
      and r: "run_state (backfill_loop clk now cnt minutes i (seq + 1)) g1 = (rest, g')"
      and es: "es = e\<lparr>ev_timestamp := backfill_time now cnt minutes (Suc i)\<rparr> # rest"
      by (auto split: prod.splits)
    from pred_stateD [OF Suc.IH r] mulberry_event [OF e]
    show "length es = Suc i
      \<and> map ev_timestamp es = map (backfill_time now cnt minutes) (rev [1..<Suc (Suc i)])
      \<and> map ev_id es = map (\<lambda>j. Some (demo_id (clk (seq + j)) (seq + j + 1))) [0..<Suc i]
      \<and> (\<forall>e \<in> set es. banded e \<and> on_globe e)"
      unfolding es ups by (auto simp: banded_def on_globe_def)
  qed
qed

lemma demoBackfill_laws:
  shows "length (demoBackfill clk now cnt minutes seed seq) = cnt"
    and "map ev_timestamp (demoBackfill clk now cnt minutes seed seq)
         = map (backfill_time now cnt minutes) (rev [1..<Suc cnt])"
    and "map ev_id (demoBackfill clk now cnt minutes seed seq)
         = map (\<lambda>j. Some (demo_id (clk (seq + j)) (seq + j + 1))) [0..<cnt]"
    and "\<forall>e \<in> set (demoBackfill clk now cnt minutes seed seq). banded e \<and> on_globe e"
  using pred_state_run_state [OF backfill_loop_laws [where i = cnt and cnt = cnt and now = now
      and minutes = minutes and clk = clk and seq = seq], of seed]
  by (auto simp: demoBackfill_def)

lemma demoBackfill_ids_distinct: "distinct (map ev_id (demoBackfill clk now cnt minutes seed seq))"
  unfolding demoBackfill_laws(3) by (auto simp: distinct_map inj_on_def dest: demo_id_inj)

text \<open>\<open>new Date\<close> and the rounded arithmetic keep the order of the loop index.\<close>

fun instant :: "iso \<Rightarrow> int" where
  "instant (Iso t) = t"
| "instant (Unparsable s) = 0"

lemma date_of_mono: "x \<le> y \<Longrightarrow> instant (date_of x) \<le> instant (date_of y)"
proof -
  assume "x \<le> y"
  then have "\<lceil>x\<rceil> \<le> \<lceil>y\<rceil>" "\<lfloor>x\<rfloor> \<le> \<lfloor>y\<rfloor>" by (auto intro: ceiling_mono floor_mono)
  moreover have "x < 0 \<Longrightarrow> \<lceil>x\<rceil> \<le> 0" "0 \<le> y \<Longrightarrow> 0 \<le> \<lfloor>y\<rfloor>" by linarith+
  ultimately show ?thesis using \<open>x \<le> y\<close> by (simp add: date_of_def del: ceiling_le_zero zero_le_floor) linarith
qed

lemma backfill_time_antimono:
  assumes "i \<le> j"
  shows "instant (backfill_time now cnt minutes j) \<le> instant (backfill_time now cnt minutes i)"
  unfolding backfill_time_def
  using assms
  by (intro date_of_mono fl_mono diff_left_mono mult_right_mono divide_right_mono) auto

lemma backfill_time_range:
  assumes "0 < i" "i \<le> cnt" "minutes \<le> 100000" "int minutes * 60000 \<le> now" "now \<le> 2 ^ 53"
  shows "now - int minutes * 60000 \<le> instant (backfill_time now cnt minutes i)
    \<and> instant (backfill_time now cnt minutes i) \<le> now"
proof -
  have "fl (of_nat i / of_nat cnt) \<le> 1" "0 \<le> fl (of_nat i / of_nat cnt)"
    using assms by (auto intro!: dbl.le_1 dbl.ge_0 simp: divide_le_eq)
  then have "fl (of_nat i / of_nat cnt) * of_nat minutes \<le> of_int (int minutes)"
    "0 \<le> fl (of_nat i / of_nat cnt) * of_nat minutes"
    by (auto simp: mult_left_le_one_le)
  then have m: "fl (fl (of_nat i / of_nat cnt) * of_nat minutes) \<le> of_int (int minutes)"
    "0 \<le> fl (fl (of_nat i / of_nat cnt) * of_nat minutes)"
    using assms(3) by (auto intro!: dbl.ge_0 dbl.le_int simp del: of_int_of_nat_eq)
  let ?d = "fl (fl (fl (of_nat i / of_nat cnt) * of_nat minutes) * 60000)"
  have d: "?d \<le> of_int (int minutes * 60000)" "0 \<le> ?d"
    using m assms(3) by (auto intro!: dbl.ge_0 dbl.le_int simp del: of_int_mult)
  have n: "of_int (now - int minutes * 60000) \<le> fl (of_int now - ?d)" "fl (of_int now - ?d) \<le> of_int now"
    using d assms(4,5) by (auto intro!: dbl.ge_int dbl.le_int simp del: of_int_diff)
  have "0 \<le> now - int minutes * 60000" using assms(4) by simp
  with n show ?thesis
    unfolding backfill_time_def date_of_def by (auto simp: le_floor_iff floor_le_iff)
qed

lemma demoTick_laws:
  assumes "demoTick now ds = (e, ds')"
  shows "banded e" "on_globe e" "ev_id e = Some (demo_id now (ds_seq ds + 1))"
    "ev_timestamp e = Iso (int now)" "ds_seq ds' = ds_seq ds + 1"
proof -
  obtain g where "run_state (generateEvent mulberry32 now (int now) (ds_seq ds)) (ds_rand ds) = (e, g)"
    and "ds' = \<lparr>ds_seq = ds_seq ds + 1, ds_rand = g\<rparr>"
    using assms by (auto simp: demoTick_def split: prod.splits)
  then show "banded e" "on_globe e" "ev_id e = Some (demo_id now (ds_seq ds + 1))"
    "ev_timestamp e = Iso (int now)" "ds_seq ds' = ds_seq ds + 1"
    by (auto dest: mulberry_event)
qed

section \<open>Rollups\<close>

lemma sort_desc_sorted: "sorted_wrt (\<lambda>a b. f b \<le> f a) (sort_desc f xs)"
proof -
  have "sorted (map (\<lambda>x. - f x) (sort_desc f xs))" by (simp add: sort_desc_def)
  then show ?thesis by (simp add: sorted_map)
qed

lemma mset_sort_desc [simp]: "mset (sort_desc f xs) = mset xs"
  by (simp add: sort_desc_def)

lemma set_sort_desc [simp]: "set (sort_desc f xs) = set xs"
  by (simp add: sort_desc_def)

lemma length_sort_desc [simp]: "length (sort_desc f xs) = length xs"
  by (simp add: sort_desc_def)

lemma top_threat_loop_laws:
  "pred_state (\<lambda>ts. map fst ts = ips \<and> (\<forall>t \<in> set ts. 40 \<le> snd t \<and> snd t \<le> 500)) (top_threat_loop ips)"
proof (induction ips)
  case Nil
  show ?case by (rule pred_stateI) auto
next
  case (Cons ip ips)
  have count: "40 \<le> math_round (fl (40 + fl (r * 460))) \<and> math_round (fl (40 + fl (r * 460))) \<le> 500"
    if "draw r" for r
  proof -
    have "0 \<le> fl (r * 460)" "fl (r * 460) \<le> 460"
      using draw_bounds [OF that] by (auto intro!: dbl.ge_0 dbl.le_numeral)
    then have "40 \<le> fl (40 + fl (r * 460))" "fl (40 + fl (r * 460)) \<le> 500"
      by (auto intro!: dbl.ge_numeral dbl.le_numeral)
    then show ?thesis by (auto intro!: math_round_ge math_round_le)
  qed
  show ?case
    unfolding top_threat_loop.simps
    by (intro mulb.bind_rand bind_predI pred_stateI) (auto dest!: pred_stateD [OF Cons.IH] count)
qed

lemma rate_point_bounds:
  assumes "draw r1" "draw r2"
  shows "1 \<le> rate_fraud (rate_total r1 h) r2 i \<and> rate_fraud (rate_total r1 h) r2 i \<le> rate_total r1 h"
proof -
  define tot where "tot = rate_total r1 h"
  define burst where "burst = (if i = 17 \<or> i = 6 then fl 3.1 else 1)"
  have half: "fl (1 / 4) = 1 / 4" "fl (1 / 64) = 1 / 64" "fl (1 / 32) = 1 / 32"
    using fl_dyadic [of "1 / 4" 1 2] fl_dyadic [of "1 / 64" 1 6] fl_dyadic [of "1 / 32" 1 5] by auto
  have d: "1 / 4 \<le> diurnal h" "diurnal h \<le> 2"
    using fl_mono [of "1 / 4" "0.45"] fl_mono [of "1 / 4" "1.35"] fl_mono [of "1 / 4" "1.5"] half
    by (auto simp: diurnal_def intro!: dbl.le_numeral)
  have "0 \<le> fl (r1 * 240)" "fl (r1 * 240) \<le> 240"
    using draw_bounds [OF assms(1)] by (auto intro!: dbl.ge_0 dbl.le_numeral)
  then have v: "380 \<le> fl (380 + fl (r1 * 240))" "fl (380 + fl (r1 * 240)) \<le> 620"
    by (auto intro!: dbl.ge_numeral dbl.le_numeral)
  have "95 \<le> fl (380 + fl (r1 * 240)) * diurnal h"
    using mult_mono [OF v(1) d(1)] v by simp
  moreover have "fl (380 + fl (r1 * 240)) * diurnal h \<le> 1240"
    using mult_mono [OF v(2) d(2)] d v by simp
  ultimately have "95 \<le> fl (fl (380 + fl (r1 * 240)) * diurnal h)"
    "fl (fl (380 + fl (r1 * 240)) * diurnal h) \<le> 1240"
    by (auto intro!: dbl.ge_numeral dbl.le_numeral)
  then have t: "95 \<le> tot" "tot \<le> 1240"
    unfolding tot_def rate_total_def by (auto intro!: math_round_ge math_round_le)
  have q1: "fl 0.011 \<le> 1 / 64" "fl 0.012 \<le> 1 / 64" "0 \<le> fl 0.012"
    using fl_mono [of "0.011" "1 / 64"] fl_mono [of "0.012" "1 / 64"] half
    by (auto intro!: dbl.ge_0)
  have "r2 * fl 0.012 \<le> 1 / 64"
    using draw_bounds [OF assms(2)] q1 mult_left_le_one_le [of "fl 0.012" r2] by linarith
  then have "fl (r2 * fl 0.012) \<le> 1 / 64" using fl_mono half(2) by metis
  with q1 have "fl (fl 0.011 + fl (r2 * fl 0.012)) \<le> 1 / 32"
    using fl_mono [of "fl 0.011 + fl (r2 * fl 0.012)" "1 / 32"] half by simp
  then have "of_int tot * fl (fl 0.011 + fl (r2 * fl 0.012)) \<le> of_int tot / 32"
    using t mult_left_mono [of _ "1 / 32" "of_int tot :: rat"] by simp
  moreover have "fl (of_int tot / 32) = of_int tot / 32" using t by (intro fl_dyadic [of _ tot 5]) auto
  ultimately have f: "fl (of_int tot * fl (fl 0.011 + fl (r2 * fl 0.012))) \<le> of_int tot / 32"
    using fl_mono by metis
  have b: "0 \<le> burst" "burst \<le> 4" by (auto simp: burst_def intro!: dbl.ge_0 dbl.le_numeral)
  have "fl (of_int tot * fl (fl 0.011 + fl (r2 * fl 0.012))) * burst \<le> of_int tot / 32 * 4"
    using f b t by (intro mult_mono) auto
  also have "\<dots> \<le> of_int tot" using t by simp
  finally have "fl (fl (of_int tot * fl (fl 0.011 + fl (r2 * fl 0.012))) * burst) \<le> of_int tot"
    using t by (intro dbl.le_int) auto
  then have "math_round (fl (fl (of_int tot * fl (fl 0.011 + fl (r2 * fl 0.012))) * burst)) \<le> tot"
    by (rule math_round_le)
  moreover have "rate_fraud tot r2 i
      = max 1 (math_round (fl (fl (of_int tot * fl (fl 0.011 + fl (r2 * fl 0.012))) * burst)))"
    by (simp only: rate_fraud_def burst_def Let_def)
  ultimately show ?thesis using t unfolding tot_def by simp
qed

lemma rate_loop_laws:
  "pred_state (\<lambda>ps. map rp_bucket ps = map (\<lambda>j. Iso (now - int j * 3600000)) (rev [0..<i])
     \<and> (\<forall>p \<in> set ps. 1 \<le> rp_fraud p \<and> rp_fraud p \<le> rp_total p)) (rate_loop hours now i)"
proof (induction i)
  case 0
  show ?case by (rule pred_stateI) auto
next
  case (Suc i)
  show ?case
    unfolding rate_loop.simps Let_def
    by (intro mulb.bind_rand bind_predI pred_stateI)
      (auto dest!: pred_stateD [OF Suc.IH] simp: rate_point_bounds)
qed

section \<open>Properties of the simulation\<close>

lemma demo_threat_ips_length: "length demo_threat_ips = 8"
  by (simp add: demo_threat_ips_def)

text \<open>
  The weighted choice inverts the cumulative weights: for every draw of the generator the item
  picked is the one whose interval of cumulated weight contains the scaled draw, and the rounding
  of the subtractions cannot change that.
\<close>

lemma weightedPick_inverts_weights:
  assumes "draw r" "items \<noteq> []" "sum_list (map wt items) \<le> 2 ^ 20"
  shows "\<exists>pre post. items = pre @ weightedPick wt items r # post
    \<and> (pre = [] \<or> of_nat (sum_list (map wt pre)) < r * of_nat (sum_list (map wt items)))
    \<and> r * of_nat (sum_list (map wt items)) \<le> of_nat (sum_list (map wt pre) + wt (weightedPick wt items r))"
  using weightedPick_picked [OF assms] by (simp add: picked_def)

lemma weightedPick_inverts_weights_witness:
  "\<exists>pre post. EVENT_TYPES = pre @ weightedPick snd EVENT_TYPES (1 / 2) # post \<and> weightedPick snd EVENT_TYPES (1 / 2) \<in> set EVENT_TYPES"
proof -
  have "draw (1 / 2)" unfolding draw_def by (intro exI [of _ "2 ^ 31"]) simp
  from weightedPick_inverts_weights [OF this pools_nonempty(2), of snd]
  obtain pre post where "EVENT_TYPES = pre @ weightedPick snd EVENT_TYPES (1 / 2) # post"
    by (auto simp: types_weight)
  then show ?thesis by (metis in_set_conv_decomp)
qed

text \<open>
  C37: every simulated event, from any generator state and clock, is consistent: its decision fits
  the band of its published score, its position is on the globe, its type is in the vocabulary,
  both ids are the id made of the clock and the next sequence number.
\<close>

theorem generated_event_consistent:
  assumes "run_state (generateEvent mulberry32 t_id t_ts n) g = (e, g')"
  shows "banded e \<and> on_globe e \<and> ev_type e \<in> fst ` set EVENT_TYPES
    \<and> event_key e = Some (demo_id t_id (n + 1)) \<and> ev_event_id e = ev_id e \<and> ev_timestamp e = Iso t_ts"
  using mulberry_event [OF assms] by (simp add: event_key_def)

theorem generated_event_consistent_witness:
  "banded (fst (run_state (generateEvent mulberry32 1700000000000 1700000000000 0) live_seed))"
  using generated_event_consistent [of 1700000000000 1700000000000 0 live_seed] by (metis prod.collapse)

lemma demoBackfill_sorted:
  "sorted (map (\<lambda>e. instant (ev_timestamp e)) (demoBackfill clk now cnt minutes seed n))"
proof -
  have "sorted_wrt (\<ge>) (rev [1..<Suc cnt])" by (simp add: sorted_wrt_rev del: upt_Suc)
  then have "sorted (map (\<lambda>i. instant (backfill_time now cnt minutes i)) (rev [1..<Suc cnt]))"
    unfolding sorted_map by (rule sorted_wrt_mono_rel [rotated]) (rule backfill_time_antimono)
  then have "sorted (map instant (map ev_timestamp (demoBackfill clk now cnt minutes seed n)))"
    unfolding demoBackfill_laws(2) by (simp add: comp_def del: upt_Suc)
  then show ?thesis by (simp add: comp_def)
qed

text \<open>
  The backfill has the requested number of events with pairwise distinct ids, in the order of
  their timestamps, oldest first, all within the requested minutes before the load time.
\<close>

lemma demoBackfill_ordered:
  fixes clk cnt minutes seed n now
  assumes "minutes \<le> 100000" "int minutes * 60000 \<le> now" "now \<le> 2 ^ 53"
  defines "es \<equiv> demoBackfill clk now cnt minutes seed n"
  shows "length es = cnt \<and> distinct (map ev_id es)
    \<and> sorted (map (\<lambda>e. instant (ev_timestamp e)) es)
    \<and> (\<forall>e \<in> set es. now - int minutes * 60000 \<le> instant (ev_timestamp e) \<and> instant (ev_timestamp e) \<le> now)"
proof -
  have ts: "map ev_timestamp es = map (backfill_time now cnt minutes) (rev [1..<Suc cnt])"
    unfolding es_def by (rule demoBackfill_laws(2))
  have "sorted (map (\<lambda>e. instant (ev_timestamp e)) es)" unfolding es_def by (rule demoBackfill_sorted)
  moreover have "now - int minutes * 60000 \<le> instant (ev_timestamp e) \<and> instant (ev_timestamp e) \<le> now"
    if "e \<in> set es" for e
  proof -
    from that have "ev_timestamp e \<in> set (map (backfill_time now cnt minutes) (rev [1..<Suc cnt]))"
      by (metis ts imageI list.set_map)
    then obtain i where i: "ev_timestamp e = backfill_time now cnt minutes i" "0 < i" "i \<le> cnt" by auto
    show ?thesis unfolding i(1) by (rule backfill_time_range [OF i(2,3) assms(1-3)])
  qed
  moreover have "length es = cnt" "distinct (map ev_id es)"
    unfolding es_def by (rule demoBackfill_laws(1), rule demoBackfill_ids_distinct)
  ultimately show ?thesis by blast
qed

lemma demoBackfill_ordered_witness:
  "sorted (map (\<lambda>e. instant (ev_timestamp e)) (demoBackfill (\<lambda>_. 1700000000000) 1700000000000 48 30 42 0))"
  using demoBackfill_ordered [of 30 1700000000000 "\<lambda>_. 1700000000000" 48 42 0] by simp

text \<open>
  The simulated rollups have the shape of the real ones: 24 hourly points, oldest first, each
  with at least one and at most all of its events fraudulent; threat sources and countries in
  descending order of their counts.
\<close>

lemma demo_rollups_shaped:
  "map rp_bucket (demoFraudRate hours now) = map (\<lambda>j. Iso (now - int j * 3600000)) (rev [0..<24])
   \<and> list_all (\<lambda>p. 1 \<le> rp_fraud p \<and> rp_fraud p \<le> rp_total p) (demoFraudRate hours now)
   \<and> sorted_wrt (\<lambda>a b. snd b \<le> snd a) demoTopThreats \<and> length demoTopThreats = 8
   \<and> list_all (\<lambda>t. fst t \<in> set demo_threat_ips \<and> 40 \<le> snd t \<and> snd t \<le> 500) demoTopThreats
   \<and> sorted_wrt (\<lambda>a b. snd b \<le> snd a) demoGeo \<and> fst ` set demoGeo = c_code ` set COUNTRY_POOL"
proof -
  have rate: "map rp_bucket (demoFraudRate hours now) = map (\<lambda>j. Iso (now - int j * 3600000)) (rev [0..<24])
     \<and> (\<forall>p \<in> set (demoFraudRate hours now). 1 \<le> rp_fraud p \<and> rp_fraud p \<le> rp_total p)"
    unfolding demoFraudRate_def by (rule pred_state_run_state [OF rate_loop_laws])
  have thr: "map fst (fst (run_state (top_threat_loop demo_threat_ips) 777)) = demo_threat_ips
      \<and> (\<forall>t \<in> set (fst (run_state (top_threat_loop demo_threat_ips) 777)). 40 \<le> snd t \<and> snd t \<le> 500)"
    by (rule pred_state_run_state [OF top_threat_loop_laws])
  then have len: "length (fst (run_state (top_threat_loop demo_threat_ips) 777)) = 8"
    by (metis length_map demo_threat_ips_length)
  have "fst t \<in> set demo_threat_ips" if "t \<in> set (fst (run_state (top_threat_loop demo_threat_ips) 777))" for t
    using that thr by (metis imageI list.set_map)
  with rate thr len show ?thesis
    by (simp add: list_all_iff demoTopThreats_def demoGeo_def sort_desc_sorted image_image)
qed

end
