(* ===== verification/Toasts.thy ===== *)
theory Toasts
  imports Prelude
begin

text \<open>
  \<open>components/ui/Toast.tsx\<close>: the notification queue. The provider's state is the list of shown
  toasts, the counter \<open>idRef\<close> and the pending \<open>window.setTimeout\<close> callbacks; \<open>push_toast\<close> and
  \<open>dismiss\<close> are the two operations of its context, the remaining events are the close button, the
  drag gesture and a timer going off.

  The locale \<open>toaster\<close> is the interface the pages use: what the list of shown toasts is after a
  push. Its lemma says what is left of a burst of notifications.
\<close>

datatype toast_kind = Success | Warning | Danger | Info

record toast_input =
  ti_kind :: toast_kind
  ti_title :: string
  ti_message :: "string option"
  ti_duration :: "int option"

record toast =
  t_id :: nat
  t_input :: toast_input
  t_duration :: int

record toast_state =
  ts_toasts :: "toast list"
  ts_next :: nat
  ts_timers :: "(nat \<times> int) list"

definition toast_init :: toast_state where
  "toast_init = \<lparr>ts_toasts = [], ts_next = 1, ts_timers = []\<rparr>"

definition dismiss :: "nat \<Rightarrow> toast_state \<Rightarrow> toast_state" where
  "dismiss i s = s\<lparr>ts_toasts := filter (\<lambda>t. t_id t \<noteq> i) (ts_toasts s)\<rparr>"

definition push_toast :: "toast_input \<Rightarrow> toast_state \<Rightarrow> toast_state" where
  "push_toast t s =
     (let i = ts_next s; duration = default (ti_duration t) 4500 in
      s\<lparr>ts_next := i + 1,
        ts_toasts := take_last 4 (ts_toasts s) @ [\<lparr>t_id = i, t_input = t, t_duration = duration\<rparr>],
        ts_timers := (if 0 < duration then ts_timers s @ [(i, duration)] else ts_timers s)\<rparr>)"

text \<open>The timer of toast \<open>i\<close> goes off; the close button; a drag that ends \<open>x\<close> pixels right.\<close>

definition fire_timer :: "nat \<Rightarrow> toast_state \<Rightarrow> toast_state" where
  "fire_timer i s = (if i \<in> fst ` set (ts_timers s)
     then dismiss i (s\<lparr>ts_timers := filter (\<lambda>p. fst p \<noteq> i) (ts_timers s)\<rparr>) else s)"

datatype toast_event = Push toast_input | CloseClick nat | DragEnd nat int | TimerFires nat

fun toast_step :: "toast_event \<Rightarrow> toast_state \<Rightarrow> toast_state" where
  "toast_step (Push t) s = push_toast t s"
| "toast_step (CloseClick i) s = dismiss i s"
| "toast_step (DragEnd i x) s = (if 90 < x then dismiss i s else s)"
| "toast_step (TimerFires i) s = fire_timer i s"

text \<open>The rendered row of a toast: its message line and whether it has a progress bar.\<close>

definition toast_row :: "toast \<Rightarrow> string \<times> string option \<times> bool" where
  "toast_row t = (ti_title (t_input t),
     (if truthy (ti_message (t_input t)) then ti_message (t_input t) else None),
     t_duration t \<noteq> 0)"

section \<open>The queue invariant\<close>

definition toasts_ok :: "toast_state \<Rightarrow> bool" where
  "toasts_ok s \<longleftrightarrow> length (ts_toasts s) \<le> 5
     \<and> sorted_wrt (<) (map t_id (ts_toasts s))
     \<and> (\<forall>t \<in> set (ts_toasts s). t_id t < ts_next s)
     \<and> (\<forall>p \<in> set (ts_timers s). fst p < ts_next s)
     \<and> (\<forall>t \<in> set (ts_toasts s). 0 < t_duration t \<longrightarrow> t_id t \<in> fst ` set (ts_timers s))"

lemma toasts_ok_init [simp]: "toasts_ok toast_init"
  by (simp add: toasts_ok_def toast_init_def)

lemma sorted_map_filter_ids:
  "sorted_wrt (<) (map t_id ts) \<Longrightarrow> sorted_wrt (<) (map t_id (filter P ts))"
  by (induction ts) auto

lemma dismiss_ok [keep_rules]: "toasts_ok s \<Longrightarrow> toasts_ok (dismiss i s)"
  by (auto simp: toasts_ok_def dismiss_def
      intro: sorted_map_filter_ids le_trans [OF length_filter_le])

lemma push_toast_ok [keep_rules]: "toasts_ok s \<Longrightarrow> toasts_ok (push_toast t s)"
proof -
  assume ok: "toasts_ok s"
  have sub: "set (take_last 4 (ts_toasts s)) \<subseteq> set (ts_toasts s)" by (rule set_take_last)
  have "sorted_wrt (<) (map t_id (take_last 4 (ts_toasts s)))"
    using ok by (simp add: toasts_ok_def take_last_def sorted_wrt_drop flip: drop_map)
  then have "sorted_wrt (<) (map t_id (ts_toasts (push_toast t s)))"
    using ok sub by (auto simp: toasts_ok_def push_toast_def Let_def sorted_wrt_append)
  with ok sub show ?thesis
    by (force simp: toasts_ok_def push_toast_def Let_def)
qed

lemma fire_timer_ok [keep_rules]: "toasts_ok s \<Longrightarrow> toasts_ok (fire_timer i s)"
  by (fastforce simp: toasts_ok_def fire_timer_def dismiss_def image_iff Bex_def
      intro: sorted_map_filter_ids le_trans [OF length_filter_le])

lemma toast_step_ok [keep_rules]: "toasts_ok s \<Longrightarrow> toasts_ok (toast_step e s)"
  by (cases e) (auto intro: keep_rules)

text \<open>\<^bold>\<open>Runs\<close>: the provider under any sequence of events.\<close>

interpretation toast_machine: machine toast_step toasts_ok
  by unfold_locales (rule toast_step_ok)

text \<open>
  C38: in every state the provider reaches, at most five toasts are shown, their ids are distinct
  and in order of arrival, and every toast with a positive duration has a pending timer, so none
  of them can stay on screen for ever.
\<close>

theorem toasts_reachable_ok:
  "let s = fold toast_step es toast_init in
     length (ts_toasts s) \<le> 5 \<and> distinct (map t_id (ts_toasts s))
     \<and> (\<forall>t. t \<in> set (ts_toasts s) \<and> 0 < t_duration t
          \<longrightarrow> (\<exists>d. (t_id t, d) \<in> set (ts_timers s)))"
  using toast_machine.run [OF toasts_ok_init, of es]
  by (force simp: toasts_ok_def Let_def strict_sorted_iff)

theorem toasts_reachable_ok_witness:
  "let s = fold toast_step [Push \<lparr>ti_kind = Info, ti_title = ''a'', ti_message = None,
       ti_duration = None\<rparr>] toast_init in
     ts_toasts s \<noteq> [] \<and> length (ts_toasts s) \<le> 5"
  using toasts_reachable_ok [of "[Push \<lparr>ti_kind = Info, ti_title = ''a'', ti_message = None,
       ti_duration = None\<rparr>]"]
  by (simp add: Let_def push_toast_def toast_init_def take_last_def)

section \<open>Draining\<close>

lemma fire_timers_toasts:
  "ts_toasts (fold fire_timer is s) =
     filter (\<lambda>t. t_id t \<notin> set is \<or> t_id t \<notin> fst ` set (ts_timers s)) (ts_toasts s)"
proof (induction "is" arbitrary: s)
  case Nil
  then show ?case by simp
next
  case (Cons i "is")
  have "fst ` set (ts_timers (fire_timer i s)) = fst ` set (ts_timers s) - {i}"
    by (auto simp: fire_timer_def dismiss_def)
  moreover have "ts_toasts (fire_timer i s) =
      filter (\<lambda>t. t_id t \<noteq> i \<or> i \<notin> fst ` set (ts_timers s)) (ts_toasts s)"
    by (auto simp: fire_timer_def dismiss_def)
  ultimately show ?case
    by (auto simp: Cons.IH intro!: filter_cong)
qed

text \<open>
  Once the pending timers have gone off, in any order, only sticky toasts (duration 0 or
  less) remain: every other notification dismisses itself.
\<close>

lemma timers_drain_toasts:
  assumes "s = fold toast_step es toast_init"
    and "set is = fst ` set (ts_timers s)"
    and "t \<in> set (ts_toasts (fold fire_timer is s))"
  shows "t \<in> set (ts_toasts s) \<and> t_duration t \<le> 0"
proof -
  have ok: "toasts_ok s" using toast_machine.run [OF toasts_ok_init] assms(1) by simp
  from assms(3) have t: "t \<in> set (ts_toasts s)" "t_id t \<notin> set is"
    using assms(2) by (auto simp: fire_timers_toasts)
  with ok assms(2) show ?thesis by (force simp: toasts_ok_def)
qed

lemma timers_drain_toasts_witness:
  "ts_toasts (fold fire_timer [2] (fold toast_step
       [Push \<lparr>ti_kind = Info, ti_title = ''sticky'', ti_message = None, ti_duration = Some 0\<rparr>,
        Push \<lparr>ti_kind = Info, ti_title = ''b'', ti_message = None, ti_duration = None\<rparr>] toast_init))
   = [\<lparr>t_id = 1, t_input = \<lparr>ti_kind = Info, ti_title = ''sticky'', ti_message = None,
       ti_duration = Some 0\<rparr>, t_duration = 0\<rparr>]
   \<and> (0::int) \<le> 0"
  using timers_drain_toasts [of _
      "[Push \<lparr>ti_kind = Info, ti_title = ''sticky'', ti_message = None, ti_duration = Some 0\<rparr>,
        Push \<lparr>ti_kind = Info, ti_title = ''b'', ti_message = None, ti_duration = None\<rparr>]" "[2]"
      "\<lparr>t_id = 1, t_input = \<lparr>ti_kind = Info, ti_title = ''sticky'', ti_message = None,
       ti_duration = Some 0\<rparr>, t_duration = 0\<rparr>", OF refl]
  by (simp add: push_toast_def toast_init_def take_last_def fire_timer_def dismiss_def)

section \<open>The interface of the pages\<close>

locale toaster =
  fixes push :: "'t \<Rightarrow> 's \<Rightarrow> 's"
    and shown :: "'s \<Rightarrow> 't list"
  assumes shown_push: "shown (push t s) = take_last 4 (shown s) @ [t]"
begin

lemma shown_burst:
  "ts \<noteq> [] \<Longrightarrow> shown (fold push ts s) = take_last 5 (shown s @ ts)"
proof (induction ts arbitrary: s)
  case Nil
  then show ?case by simp
next
  case (Cons t ts)
  have one: "take_last 4 xs @ [t] = take_last 5 (xs @ [t])" for xs :: "'t list"
    by (simp add: take_last_def)
  show ?case
  proof (cases "ts = []")
    case True
    then show ?thesis by (simp add: shown_push one)
  next
    case False
    then have "shown (fold push (t # ts) s) = take_last 5 (take_last 5 (shown s @ [t]) @ ts)"
      by (simp add: Cons.IH shown_push one)
    also have "\<dots> = take_last 5 (shown s @ t # ts)"
      by (simp add: take_last_take_last_append)
    finally show ?thesis .
  qed
qed

end

interpretation toast_queue: toaster push_toast "\<lambda>s. map t_input (ts_toasts s)"
  by unfold_locales (simp add: push_toast_def Let_def take_last_def drop_map)

end
