(* ===== verification/Memo.thy ===== *)
theory Memo
  imports Prelude
begin

text \<open>
  \<open>React.memo\<close> with a comparator, as \<open>LiveThreatFeed\<close> and \<open>WorldThreatMap\<close> use it: a component
  keeps the props and the output of its last rendering and reuses the output while the comparator
  accepts the new props. The locale \<open>memoized\<close> says when that cannot be observed.
\<close>

fun memo_step :: "('p \<Rightarrow> 'p \<Rightarrow> bool) \<Rightarrow> ('p \<Rightarrow> 'r) \<Rightarrow> 'p \<times> 'r \<Rightarrow> 'p \<Rightarrow> 'p \<times> 'r" where
  "memo_step same render (prev, out) nxt =
     (if same prev nxt then (prev, out) else (nxt, render nxt))"

text \<open>The output on screen after the component was given the props \<open>p\<close>, then each of \<open>ps\<close>.\<close>

definition memo_run :: "('p \<Rightarrow> 'p \<Rightarrow> bool) \<Rightarrow> ('p \<Rightarrow> 'r) \<Rightarrow> 'p \<Rightarrow> 'p list \<Rightarrow> 'r" where
  "memo_run same render p ps = snd (foldl (memo_step same render) (p, render p) ps)"

locale memoized =
  fixes same :: "'p \<Rightarrow> 'p \<Rightarrow> bool"
    and render :: "'p \<Rightarrow> 'r"
    and coherent :: "'p \<Rightarrow> 'p \<Rightarrow> bool"
  assumes same_render: "same p q \<Longrightarrow> coherent p q \<Longrightarrow> render p = render q"
begin

lemma memo_fold:
  assumes "\<And>x y. x \<in> set (p # ps) \<Longrightarrow> y \<in> set (p # ps) \<Longrightarrow> coherent x y"
  shows "\<exists>q \<in> set (p # ps). foldl (memo_step same render) (p, render p) ps = (q, render q)
     \<and> render q = render (last (p # ps))"
  using assms
proof (induction ps rule: rev_induct)
  case Nil
  then show ?case by simp
next
  case (snoc x ps)
  then obtain q where q: "q \<in> set (p # ps)"
    "foldl (memo_step same render) (p, render p) ps = (q, render q)" by auto
  show ?case
  proof (cases "same q x")
    case True
    with q snoc.prems [of q x] have "render q = render x" by (intro same_render) auto
    with q True show ?thesis by (intro bexI [of _ q]) auto
  next
    case False
    with q show ?thesis by (intro bexI [of _ x]) auto
  qed
qed

lemma memo_transparent:
  assumes "\<And>x y. x \<in> set (p # ps) \<Longrightarrow> y \<in> set (p # ps) \<Longrightarrow> coherent x y"
  shows "memo_run same render p ps = render (last (p # ps))"
proof -
  obtain q where "foldl (memo_step same render) (p, render p) ps = (q, render q)"
    and "render q = render (last (p # ps))"
    using memo_fold [of p ps] assms by blast
  then show ?thesis by (simp only: memo_run_def snd_conv)
qed

end

text \<open>A comparator that never accepts renders every time.\<close>

lemma memo_never:
  assumes "\<And>p q. \<not> same p q"
  shows "foldl (memo_step same render) (p, render p) ps = (last (p # ps), render (last (p # ps)))"
  using assms by (induction ps rule: rev_induct) auto

end
