(* ===== verification/Threats.thy ===== *)
theory Threats
  imports Events Toasts Memo "HOL-Library.Word" "HOL-Library.Signed_Division"
begin

text \<open>
  The threat views: the derived data of \<open>app/threats/page.tsx\<close> and of the map on
  \<open>app/page.tsx\<close>, the blips of \<open>TacticalRadar\<close> (\<open>components/hud/HUDAmbientLayer.tsx\<close>) and the
  live feed with its memo comparator (\<open>components/feed/LiveThreatFeed.tsx\<close>).
\<close>

section \<open>The key hash\<close>

text \<open>
  \<open>h = (h * 31 + key.charCodeAt(i)) | 0\<close> over the key: the product and sum are exact and
  \<open>| 0\<close> reduces modulo 2^32. \<open>Math.abs(h)\<close> is an integer up to 2^31, which \<open>>>\<close> converts back
  to 32 bits first.
\<close>

definition js_hash :: "string \<Rightarrow> 32 word" where
  "js_hash key = foldl (\<lambda>h c. h * 31 + word_of_nat (char_code c)) 0 key"

definition hash_abs :: "32 word \<Rightarrow> int" where
  "hash_abs h = \<bar>sint h\<bar>"

definition shift_right :: "int \<Rightarrow> nat \<Rightarrow> int" where
  "shift_right x k = sint (word_of_int x :: 32 word) div 2 ^ k"

text \<open>\<open>a % b\<close>, with the sign of the dividend.\<close>

definition js_rem :: "int \<Rightarrow> int \<Rightarrow> int" where
  "js_rem a b = a smod b"

definition jitter_of :: "int \<Rightarrow> rat" where
  "jitter_of n = fl (fl (fl (of_int (js_rem n 100) / 100) - 1 / 2) * 3)"

definition jitter :: "32 word \<Rightarrow> rat" where
  "jitter h = jitter_of (hash_abs h)"

definition jitter2 :: "32 word \<Rightarrow> rat" where
  "jitter2 h = jitter_of (shift_right (hash_abs h) 5)"

section \<open>Positions\<close>

definition COUNTRY_COORDS :: "string \<rightharpoonup> rat \<times> rat" where
  "COUNTRY_COORDS = map_of [
     (''US'', (fl 39.8, fl (-98.6))), (''GB'', (54, -2)), (''CA'', (fl 56.1, fl (-106.3))),
     (''IN'', (fl 20.6, fl 78.9)), (''CN'', (fl 35.9, fl 104.2)), (''BR'', (fl (-14.2), fl (-51.9))),
     (''RU'', (fl 61.5, fl 105.3)), (''DE'', (fl 51.2, fl 10.4)), (''FR'', (fl 46.2, fl 2.2)),
     (''JP'', (fl 36.2, fl 138.3)), (''NL'', (fl 52.1, fl 5.3)), (''SG'', (fl 1.35, fl 103.8)),
     (''AU'', (fl (-25.3), fl 133.8)), (''ZA'', (fl (-30.6), fl 22.9)), (''NG'', (fl 9.1, fl 8.7)),
     (''VN'', (fl 14.1, fl 108.3)), (''ID'', (fl (-0.8), fl 113.9)), (''TR'', (fl 38.9, fl 35.2)),
     (''KR'', (fl 35.9, fl 127.8)), (''MX'', (fl 23.6, fl (-102.5)))]"

text \<open>\<open>resolveCoords\<close> of the threats page: the ISO code first, then the full name.\<close>

definition resolveCoords :: "analytics_event \<Rightarrow> (rat \<times> rat) option" where
  "resolveCoords e =
     (let code = map_option toUpperCase (ev_country_code e);
          name = map_option toUpperCase (ev_country e) in
      if truthy code \<and> COUNTRY_COORDS (the code) \<noteq> None then COUNTRY_COORDS (the code)
      else if truthy name \<and> COUNTRY_COORDS (the name) \<noteq> None then COUNTRY_COORDS (the name)
      else None)"

text \<open>The same lookup as the command center writes it.\<close>

definition lookupCoords :: "analytics_event \<Rightarrow> (rat \<times> rat) option" where
  "lookupCoords e =
     (let code = toUpperCase (default (ev_country_code e) '''');
          name = toUpperCase (default (ev_country e) '''') in
      or_else (COUNTRY_COORDS code) (COUNTRY_COORDS name))"

text \<open>Explicit coordinates win over the country table on both pages.\<close>

definition event_coords :: "(analytics_event \<Rightarrow> (rat \<times> rat) option) \<Rightarrow> analytics_event
    \<Rightarrow> (rat \<times> rat) option" where
  "event_coords table e = (case (ev_lat e, ev_lon e) of
     (Some la, Some lo) \<Rightarrow> Some (la, lo) | _ \<Rightarrow> table e)"

definition threat_key :: "analytics_event \<Rightarrow> string" where
  "threat_key e = default (or_else (ev_ip e) (ev_event_id e)) ''anon''"

record map_threat =
  mt_id :: string
  mt_lat :: rat
  mt_lon :: rat
  mt_score :: rat
  mt_action :: string
  mt_label :: "string option"

record geo_threat = map_threat +
  mt_ip :: string
  mt_time :: iso

definition marker :: "analytics_event \<Rightarrow> rat \<times> rat \<Rightarrow> geo_threat" where
  "marker e base = (let h = js_hash (threat_key e) in
     \<lparr>mt_id = default (event_key e) (threat_key e),
      mt_lat = fl (fst base + jitter h), mt_lon = fl (snd base + jitter2 h),
      mt_score = default (ev_score e) 0, mt_action = default (ev_action e) ''ALLOW'',
      mt_label = ev_ip e, mt_ip = default (ev_ip e) ''unknown'', mt_time = ev_timestamp e\<rparr>)"

section \<open>The threats page\<close>

datatype map_filter = AllThreats | BlockedOnly

text \<open>The loop of the \<open>threats\<close> memo, with the set \<open>seen\<close> of keys already placed.\<close>

fun threat_loop :: "map_filter \<Rightarrow> string set \<Rightarrow> analytics_event list \<Rightarrow> geo_threat list" where
  "threat_loop flt seen [] = []"
| "threat_loop flt seen (e # es) =
     (if threat_key e \<in> seen then threat_loop flt seen es
      else if flt = BlockedOnly \<and> ev_action e \<noteq> Some ''BLOCK'' then threat_loop flt seen es
      else case event_coords resolveCoords e of
        None \<Rightarrow> threat_loop flt seen es
      | Some base \<Rightarrow> marker e base # threat_loop flt (insert (threat_key e) seen) es)"

definition page_threats :: "map_filter \<Rightarrow> analytics_event list \<Rightarrow> geo_threat list" where
  "page_threats flt es = threat_loop flt {} es"

text \<open>The command center's \<open>mapThreats\<close>: every placeable event, at most twelve.\<close>

definition mapThreats :: "analytics_event list \<Rightarrow> map_threat list" where
  "mapThreats es = take 12 (List.map_filter
     (\<lambda>e. map_option (\<lambda>base. map_threat.truncate (marker e base)) (event_coords lookupCoords e)) es)"

text \<open>The critical-threat toasts: the effect over \<open>events\<close> with its \<open>alertedRef\<close> set.\<close>

definition critical :: "analytics_event \<Rightarrow> bool" where
  "critical e \<longleftrightarrow> truthy (event_key e) \<and> ev_action e = Some ''BLOCK'' \<and> \<not> default (ev_score e) 0 < 85"

definition critical_toast :: "analytics_event \<Rightarrow> toast_input" where
  "critical_toast e = \<lparr>ti_kind = Danger, ti_title = ''Critical threat blocked'',
     ti_message = Some (default (ev_ip e) ''unknown source'' @ '' '' @ middot @ '' score ''
       @ toFixed 1 (default (ev_score e) 0) @ '' '' @ middot @ '' '' @ ev_type e),
     ti_duration = Some 6000\<rparr>"

fun alert_scan :: "string set \<Rightarrow> analytics_event list \<Rightarrow> string set \<times> (string \<times> toast_input) list" where
  "alert_scan alerted [] = (alerted, [])"
| "alert_scan alerted (e # es) =
     (if \<not> critical e \<or> the (event_key e) \<in> alerted then alert_scan alerted es
      else let i = the (event_key e); (s, ts) = alert_scan (insert i alerted) es
           in (s, (i, critical_toast e) # ts))"

text \<open>The effect runs once per window of events; the set survives between runs.\<close>

fun alert_run :: "string set \<Rightarrow> analytics_event list list \<Rightarrow> (string \<times> toast_input) list" where
  "alert_run alerted [] = []"
| "alert_run alerted (w # ws) = (let (s, ts) = alert_scan alerted w in ts @ alert_run s ws)"

text \<open>Posture gauges.\<close>

definition blockedRatio :: "analytics_event list \<Rightarrow> rat" where
  "blockedRatio es = percent_of (\<lambda>e. ev_action e = Some ''BLOCK'') es"

definition challengeRatio :: "analytics_event list \<Rightarrow> rat" where
  "challengeRatio es = percent_of (\<lambda>e. ev_action e = Some ''CHALLENGE'') es"

definition peakScore :: "analytics_event list \<Rightarrow> rat" where
  "peakScore es = foldl (\<lambda>m e. max m (default (ev_score e) 0)) 0 es"

text \<open>Clicking a marker selects the full record of the first threat with that id.\<close>

definition select_threat :: "geo_threat list \<Rightarrow> map_threat \<Rightarrow> geo_threat option \<Rightarrow> geo_threat option" where
  "select_threat threats t selected = (case find (\<lambda>x. mt_id x = mt_id t) threats of
     Some full \<Rightarrow> Some full | None \<Rightarrow> selected)"

section \<open>The radar\<close>

record radar_threat =
  rt_id :: string
  rt_score :: rat
  rt_action :: string

record blip =
  b_id :: string
  b_degrees :: int
  b_dist :: int
  b_critical :: bool
  b_score :: rat

definition radar_threats :: "analytics_event list \<Rightarrow> (rat option \<Rightarrow> string) \<Rightarrow> radar_threat list" where
  "radar_threats es show_number = map (\<lambda>e.
     \<lparr>rt_id = default (event_key e) (show_number (ev_score e)),
      rt_score = default (ev_score e) 0, rt_action = default (ev_action e) ''ALLOW''\<rparr>) (take 14 es)"

definition blips :: "radar_threat list \<Rightarrow> blip list" where
  "blips ts = map (\<lambda>t. let h = js_hash (rt_id t) in
     \<lparr>b_id = rt_id t, b_degrees = js_rem (hash_abs h) 360,
      b_dist = 18 + js_rem \<bar>sint h div 2 ^ 7\<bar> 26,
      b_critical = (rt_action t = ''BLOCK'' \<or> 80 \<le> rt_score t), b_score = rt_score t\<rparr>)
     (take 12 ts)"

text \<open>\<open>x = 50 + dist * Math.cos(angle)\<close> and \<open>y\<close>, on real numbers.\<close>

definition blip_xy :: "blip \<Rightarrow> real \<times> real" where
  "blip_xy b = (let angle = real_of_int (b_degrees b) * (pi / 180) in
     (50 + real_of_int (b_dist b) * cos angle, 50 + real_of_int (b_dist b) * sin angle))"

section \<open>The live feed\<close>

definition feed_threats :: "nat \<Rightarrow> analytics_event list \<Rightarrow> analytics_event list" where
  "feed_threats limit es =
     take limit (filter (\<lambda>e. flagged e \<or> 60 \<le> default (ev_score e) 0) es)"

text \<open>What a row of the feed shows; \<open>time\<close> is \<open>toLocaleTimeString\<close>.\<close>

definition feed_row :: "(iso \<Rightarrow> string) \<Rightarrow> nat \<Rightarrow> analytics_event
    \<Rightarrow> bool \<times> bool \<times> string option \<times> string \<times> string \<times> rat" where
  "feed_row time i e = (ev_action e = Some ''BLOCK'', i = 0, ev_action e, time (ev_timestamp e),
     default (ev_ip e) ''unknown source''
       @ (if ev_type e \<noteq> [] then '' '' @ middot @ '' '' @ ev_type e else []),
     default (ev_score e) 0)"

text \<open>
  The props are \<open>limit?\<close> and \<open>events\<close>. The rendering is one row per threat; no row is the
  \<open>No active threats\<close> panel.
\<close>

type_synonym feed_props = "nat option \<times> analytics_event list"

definition feed_view :: "(iso \<Rightarrow> string) \<Rightarrow> feed_props
    \<Rightarrow> (string option \<times> bool \<times> bool \<times> string option \<times> string \<times> string \<times> rat) list" where
  "feed_view time p = map (\<lambda>(i, e). (event_key e, feed_row time i e))
     (enumerate 0 (feed_threats (default (fst p) 12) (snd p)))"

text \<open>The comparator of \<open>React.memo\<close>: \<open>true\<close> keeps the previous rendering.\<close>

fun feed_same_events :: "analytics_event list \<Rightarrow> analytics_event list \<Rightarrow> bool" where
  "feed_same_events (a # as) (b # bs) \<longleftrightarrow>
     event_key a = event_key b \<and> ev_score a = ev_score b \<and> ev_action a = ev_action b
     \<and> feed_same_events as bs"
| "feed_same_events _ _ \<longleftrightarrow> True"

definition feed_same :: "feed_props \<Rightarrow> feed_props \<Rightarrow> bool" where
  "feed_same prev nxt \<longleftrightarrow> fst prev = fst nxt \<and> length (snd prev) = length (snd nxt)
     \<and> feed_same_events (snd prev) (snd nxt)"

section \<open>The origins table\<close>

text \<open>
  The bars of the geo rollup: the first six countries, \<open>(g.count / max) * 100\<close> wide where \<open>max\<close>
  is the first count. The width is absent where the division is not a number or infinite.
\<close>

definition geo_rows :: "(string \<times> int) list \<Rightarrow> (string \<times> rat option \<times> int) list" where
  "geo_rows rollup = map (\<lambda>(c, n). (c,
     (let m = snd (rollup ! 0) in
      if m = 0 then None else Some (fl (fl (of_int n / of_int m) * 100))), n)) (take 6 rollup)"

section \<open>Marker positions\<close>

lemma fl_half: "fl (1 / 2) = 1 / 2" "fl (- (1 / 2)) = - (1 / 2)"
  "fl (3 / 2) = 3 / 2" "fl (- (3 / 2)) = - (3 / 2)"
  by code_simp+

lemma jitter_of_bounds:
  assumes "0 \<le> n"
  shows "- (3 / 2) \<le> jitter_of n \<and> jitter_of n \<le> 3 / 2"
proof -
  have r: "0 \<le> js_rem n 100" "js_rem n 100 < 100"
    using assms by (cases "n = 0"; simp add: js_rem_def smod_int_alt_def)+
  define a :: rat where "a = of_int (js_rem n 100) / 100"
  have a: "0 \<le> a" "a \<le> 1" using r by (simp_all add: a_def)
  define b where "b = fl (fl a - 1 / 2)"
  have "0 \<le> fl a" "fl a \<le> 1" using a by (auto intro: dbl.ge_0 dbl.le_1)
  then have b: "- (1 / 2) \<le> b" "b \<le> 1 / 2"
    using fl_mono [of "- (1 / 2)" "fl a - 1 / 2"] fl_mono [of "fl a - 1 / 2" "1 / 2"]
    unfolding b_def by (simp_all only: fl_half)
  then show ?thesis
    using fl_mono [of "- (3 / 2)" "b * 3"] fl_mono [of "b * 3" "3 / 2"]
    unfolding jitter_of_def a_def [symmetric] b_def [symmetric] by (simp only: fl_half)
qed

lemma hash_abs_range: "0 \<le> hash_abs h \<and> hash_abs h \<le> 2 ^ 31"
proof -
  have "- (2 ^ 31) \<le> sint h" "sint h < 2 ^ 31"
    using sint_ge [of h] sint_lt [of h] by simp_all
  then show ?thesis unfolding hash_abs_def by linarith
qed

lemma hash_abs_min: "hash_abs h = 2 ^ 31 \<longleftrightarrow> h = 0x80000000"
proof
  assume "hash_abs h = 2 ^ 31"
  moreover have "sint h < 2 ^ 31" using sint_lt [of h] by simp
  ultimately have "sint h = - (2 ^ 31)" unfolding hash_abs_def by linarith
  then have "(word_of_int (sint h) :: 32 word) = word_of_int (- (2 ^ 31))" by simp
  then show "h = 0x80000000" by simp
qed (simp add: hash_abs_def)

lemma jitter_bounds: "- (3 / 2) \<le> jitter h \<and> jitter h \<le> 3 / 2"
  unfolding jitter_def using hash_abs_range by (intro jitter_of_bounds) simp

lemma jitter2_bounds:
  assumes "h \<noteq> 0x80000000"
  shows "- (3 / 2) \<le> jitter2 h \<and> jitter2 h \<le> 3 / 2"
proof -
  have "0 \<le> hash_abs h" "hash_abs h < 2 ^ 31"
    using hash_abs_range [of h] hash_abs_min [of h] assms by auto
  then have "sint (word_of_int (hash_abs h) :: 32 word) = hash_abs h"
    by (simp add: sint_sbintrunc' signed_take_bit_int_eq_self)
  with \<open>0 \<le> hash_abs h\<close> have "0 \<le> shift_right (hash_abs h) 5"
    by (simp add: shift_right_def)
  then show ?thesis unfolding jitter2_def by (rule jitter_of_bounds)
qed

text \<open>
  A marker is drawn within 1.5 degrees of its base position on both axes (up to the rounding
  of the last addition); the longitude needs that the key does not hash to the least 32-bit
  integer, whose absolute value does not fit 32 bits when it is shifted.
\<close>

lemma marker_near_base:
  assumes "js_hash (threat_key e) \<noteq> 0x80000000"
  shows "fl (fst base - 3 / 2) \<le> mt_lat (marker e base)
    \<and> mt_lat (marker e base) \<le> fl (fst base + 3 / 2)
    \<and> fl (snd base - 3 / 2) \<le> mt_lon (marker e base)
    \<and> mt_lon (marker e base) \<le> fl (snd base + 3 / 2)"
  using jitter_bounds [of "js_hash (threat_key e)"] jitter2_bounds [OF assms]
  by (auto simp: marker_def Let_def intro!: fl_mono)

lemma marker_near_base_witness:
  "mt_lat (marker (blank_event\<lparr>ev_ip := Some ''73.12.4.5''\<rparr>) (54, -2)) \<le> fl (54 + 3 / 2)"
proof -
  have "js_hash (threat_key (blank_event\<lparr>ev_ip := Some ''73.12.4.5''\<rparr>)) \<noteq> 0x80000000"
    by code_simp
  from marker_near_base [OF this, of "(54, -2)"] show ?thesis by simp
qed

text \<open>
  The least 32-bit integer is a reachable hash: a marker keyed by such a string is displaced
  by 3.42 degrees west, more than twice the intended amount.
\<close>

lemma marker_jitter_overflow:
  "js_hash ''polygenelubricants'' = 0x80000000 \<and> jitter2 0x80000000 < - (341 / 100)"
  by code_simp

section \<open>The two country lookups\<close>

lemma COUNTRY_COORDS_empty [simp]: "COUNTRY_COORDS [] = None"
  by (simp add: COUNTRY_COORDS_def)

lemma toUpperCase_empty [simp]: "toUpperCase [] = []" "toUpperCase s = [] \<longleftrightarrow> s = []"
  by (simp_all add: toUpperCase_def)

lemma resolve_is_lookup: "resolveCoords e = lookupCoords e"
  by (cases "ev_country_code e"; cases "ev_country e")
    (auto simp: resolveCoords_def lookupCoords_def Let_def or_else_def not_None_eq [symmetric]
      simp del: not_None_eq split: option.splits)

section \<open>One marker per source\<close>

definition placeable :: "map_filter \<Rightarrow> analytics_event \<Rightarrow> bool" where
  "placeable flt e \<longleftrightarrow> event_coords resolveCoords e \<noteq> None
     \<and> (flt = BlockedOnly \<longrightarrow> ev_action e = Some ''BLOCK'')"

definition placed :: "analytics_event \<Rightarrow> geo_threat" where
  "placed e = marker e (the (event_coords resolveCoords e))"

lemma threat_loop_step:
  "threat_loop flt seen (e # es) = (if placeable flt e \<and> threat_key e \<notin> seen
     then placed e # threat_loop flt (insert (threat_key e) seen) es else threat_loop flt seen es)"
  by (auto simp: placeable_def placed_def split: option.split)

lemma threat_loop_spec:
  "threat_loop flt seen es =
     map placed (first_by threat_key (filter (\<lambda>e. placeable flt e \<and> threat_key e \<notin> seen) es))"
proof (induction es arbitrary: seen)
  case (Cons e es)
  have "filter (\<lambda>y. threat_key y \<noteq> threat_key e)
      (filter (\<lambda>e. placeable flt e \<and> threat_key e \<notin> seen) es)
    = filter (\<lambda>y. placeable flt y \<and> threat_key y \<notin> insert (threat_key e) seen) es"
    by (auto intro: filter_cong)
  then show ?case
    unfolding threat_loop_step by (simp add: Cons.IH)
qed simp

text \<open>
  C33: the threats page draws exactly one marker for each source key (address, else event id) with
  a placeable event in the window, and it is the marker of the first, that is newest, such event.
\<close>

theorem page_threats_one_per_source:
  "page_threats flt es = map placed (first_by threat_key (filter (placeable flt) es))
   \<and> distinct (map threat_key (first_by threat_key (filter (placeable flt) es)))
   \<and> threat_key ` set (first_by threat_key (filter (placeable flt) es))
      = {threat_key e |e. e \<in> set es \<and> placeable flt e}"
  by (auto simp: page_threats_def threat_loop_spec first_by_distinct first_by_keys)

lemma mapThreats_eq:
  "mapThreats es = take 12 (map (\<lambda>e. map_threat.truncate (placed e)) (filter (placeable AllThreats) es))"
proof -
  have "List.map_filter (\<lambda>e. map_option (\<lambda>b. map_threat.truncate (marker e b)) (event_coords lookupCoords e)) es
    = map (\<lambda>e. map_threat.truncate (placed e)) (filter (placeable AllThreats) es)"
    by (induction es)
      (auto simp: map_filter_simps placeable_def placed_def resolve_is_lookup [abs_def, symmetric]
        fun_eq_iff split: option.split)
  then show ?thesis by (simp add: mapThreats_def)
qed

lemma us_placeable:
  "ev_country_code e = Some ''us'' \<Longrightarrow> ev_lat e = None \<Longrightarrow> placeable AllThreats e"
proof -
  have "toUpperCase ''us'' = ''US''" by code_simp
  then show "ev_country_code e = Some ''us'' \<Longrightarrow> ev_lat e = None \<Longrightarrow> placeable AllThreats e"
    by (simp add: placeable_def event_coords_def resolveCoords_def COUNTRY_COORDS_def)
qed

text \<open>
  The command center derives its markers with the same lookup and the same jitter, but without
  the deduplication its comment promises: two events of one source give two markers there and one
  on the threats page.
\<close>

lemma mapThreats_differs:
  "lookupCoords = resolveCoords
   \<and> (let e = blank_event\<lparr>ev_ip := Some ''1.2.3.4'', ev_country_code := Some ''us''\<rparr>;
          es = [e\<lparr>ev_id := Some ''a''\<rparr>, e\<lparr>ev_id := Some ''b''\<rparr>] in
      length (mapThreats es) = 2 \<and> length (page_threats AllThreats es) = 1)"
proof -
  have "lookupCoords = resolveCoords" by (rule ext) (simp add: resolve_is_lookup)
  then show ?thesis
    by (simp add: Let_def mapThreats_eq page_threats_def threat_loop_spec us_placeable
        blank_event_def threat_key_def)
qed

text \<open>Every marker the threats page selects stands for a marker of the list.\<close>

lemma select_threat_full:
  assumes "t \<in> set threats"
  shows "\<exists>full \<in> set threats. mt_id full = mt_id t
    \<and> select_threat threats (map_threat.truncate t) sel = Some full"
proof -
  have "find (\<lambda>x. mt_id x = mt_id (map_threat.truncate t)) threats \<noteq> None"
    using assms by (auto simp: find_None_iff map_threat.defs)
  then obtain full where "find (\<lambda>x. mt_id x = mt_id (map_threat.truncate t)) threats = Some full"
    by blast
  moreover from this have "full \<in> set threats" "mt_id full = mt_id t"
    by (auto simp: find_Some_iff map_threat.defs)
  ultimately show ?thesis by (auto simp: select_threat_def)
qed

section \<open>Critical alerts\<close>

lemma alert_scan_spec:
  "alert_scan alerted es =
     (alerted \<union> {the (event_key e) |e. e \<in> set es \<and> critical e},
      map (\<lambda>e. (the (event_key e), critical_toast e))
        (first_by (\<lambda>e. the (event_key e))
          (filter (\<lambda>e. critical e \<and> the (event_key e) \<notin> alerted) es)))"
proof (induction es arbitrary: alerted)
  case (Cons e es)
  have "filter (\<lambda>y. the (event_key y) \<noteq> the (event_key e))
      (filter (\<lambda>e. critical e \<and> the (event_key e) \<notin> alerted) es)
    = filter (\<lambda>y. critical y \<and> the (event_key y) \<notin> insert (the (event_key e)) alerted) es"
    by (auto intro: filter_cong)
  then show ?case by (auto simp: Cons.IH Let_def)
qed simp

lemma first_by_append:
  "first_by f (xs @ ys) = first_by f xs @ first_by f (filter (\<lambda>y. f y \<notin> f ` set xs) ys)"
proof (induction f xs arbitrary: ys rule: first_by.induct)
  case (2 f x xs)
  have "filter (\<lambda>y. f y \<notin> f ` set (filter (\<lambda>y. f y \<noteq> f x) xs)) (filter (\<lambda>y. f y \<noteq> f x) ys)
      = filter (\<lambda>y. f y \<notin> f ` set (x # xs)) ys"
    by (auto intro: filter_cong)
  with 2 show ?case by simp
qed simp

lemma alert_run_spec:
  "alert_run alerted ws = map (\<lambda>e. (the (event_key e), critical_toast e))
     (first_by (\<lambda>e. the (event_key e))
       (filter (\<lambda>e. critical e \<and> the (event_key e) \<notin> alerted) (concat ws)))"
proof (induction ws arbitrary: alerted)
  case (Cons w ws)
  have "filter (\<lambda>e. the (event_key e) \<notin> (\<lambda>e. the (event_key e)) `
        set (filter (\<lambda>e. critical e \<and> the (event_key e) \<notin> alerted) w))
      (filter (\<lambda>e. critical e \<and> the (event_key e) \<notin> alerted) (concat ws))
    = filter (\<lambda>e. critical e \<and> the (event_key e) \<notin>
        alerted \<union> {the (event_key e) |e. e \<in> set w \<and> critical e}) (concat ws)"
    by (auto intro: filter_cong)
  then show ?case by (simp add: alert_scan_spec Cons.IH first_by_append)
qed simp

text \<open>The state of the notification queue after the effect ran on each window in turn.\<close>

definition alert_toasts :: "analytics_event list list \<Rightarrow> toast_state \<Rightarrow> toast_state" where
  "alert_toasts ws s = fold push_toast (map snd (alert_run {} ws)) s"

text \<open>
  Over any sequence of event windows the threats page raises exactly one alert per critical
  event key, in order of first appearance, however often the event is delivered again; the queue
  then shows the last five of what it showed before and these alerts.
\<close>

lemma critical_alert_once:
  assumes "alert_run {} ws \<noteq> []"
  shows "distinct (map fst (alert_run {} ws))
    \<and> set (map fst (alert_run {} ws)) = {the (event_key e) |e. e \<in> set (concat ws) \<and> critical e}
    \<and> map t_input (ts_toasts (alert_toasts ws s))
        = take_last 5 (map t_input (ts_toasts s) @ map snd (alert_run {} ws))"
proof -
  have "map snd (alert_run {} ws) \<noteq> []" using assms by simp
  from toast_queue.shown_burst [OF this, of s]
  have "map t_input (ts_toasts (alert_toasts ws s))
      = take_last 5 (map t_input (ts_toasts s) @ map snd (alert_run {} ws))"
    by (simp add: alert_toasts_def)
  moreover have "distinct (map fst (alert_run {} ws))"
    using first_by_distinct [of "\<lambda>e. the (event_key e)"] by (simp add: alert_run_spec comp_def)
  moreover have "set (map fst (alert_run {} ws))
      = {the (event_key e) |e. e \<in> set (concat ws) \<and> critical e}"
    using first_by_keys [of "\<lambda>e. the (event_key e)" "filter critical (concat ws)"]
    by (auto simp: alert_run_spec image_image)
  ultimately show ?thesis by blast
qed

lemma critical_alert_once_witness:
  "let e = blank_event\<lparr>ev_id := Some ''a'', ev_action := Some ''BLOCK'', ev_score := Some 90\<rparr> in
   map t_input (ts_toasts (alert_toasts [[e], [e, e]] toast_init)) = [critical_toast e]"
proof -
  define e where "e = blank_event\<lparr>ev_id := Some ''a'', ev_action := Some ''BLOCK'', ev_score := Some 90\<rparr>"
  have r: "alert_run {} [[e], [e, e]] = [(''a'', critical_toast e)]"
    by (simp add: critical_def event_key_def e_def blank_event_def Let_def)
  then have "alert_run {} [[e], [e, e]] \<noteq> []" by simp
  from critical_alert_once [OF this, of toast_init] r show ?thesis
    by (simp add: e_def toast_init_def take_last_def)
qed

section \<open>Posture\<close>

lemma foldl_max_spec:
  fixes m :: "'a :: linorder"
  shows "foldl (\<lambda>m e. max m (f e)) m es = Max (insert m (f ` set es))"
proof (induction es arbitrary: m)
  case (Cons e es)
  then show ?case by (cases "es = []") (simp_all add: Max_insert max.assoc)
qed simp

text \<open>
  The posture gauges are percentages between 0 and 100 whatever the rounding, an empty window
  reads zero instead of dividing by it, and the peak is the largest score of the window.
\<close>

lemma posture_bounds:
  "0 \<le> blockedRatio es \<and> blockedRatio es \<le> 100 \<and> 0 \<le> challengeRatio es \<and> challengeRatio es \<le> 100
   \<and> blockedRatio [] = 0 \<and> challengeRatio [] = 0
   \<and> peakScore es = Max (insert 0 ((\<lambda>e. default (ev_score e) 0) ` set es))"
  using percent_of_bounds by (simp add: blockedRatio_def challengeRatio_def peakScore_def
      foldl_max_spec percent_of_def)

section \<open>Blips stay on the scope\<close>

lemma js_rem_range: "0 \<le> a \<Longrightarrow> 0 < b \<Longrightarrow> 0 \<le> js_rem a b \<and> js_rem a b < b"
  by (cases "a = 0") (simp_all add: js_rem_def smod_int_alt_def)

text \<open>
  The radar plots at most twelve blips, each between 18 and 43 units from the centre and so
  inside the scope circle of radius 48; the position depends on the id alone.
\<close>

lemma blips_on_scope:
  "length (blips ts) \<le> 12
   \<and> (\<forall>b. b \<in> set (blips ts) \<longrightarrow> 0 \<le> b_degrees b \<and> b_degrees b < 360
        \<and> (let (x, y) = blip_xy b in (x - 50)\<^sup>2 + (y - 50)\<^sup>2 = (real_of_int (b_dist b))\<^sup>2)
        \<and> 18 \<le> b_dist b \<and> b_dist b \<le> 43)
   \<and> (\<forall>b c. b \<in> set (blips ts) \<and> c \<in> set (blips ts) \<and> b_id b = b_id c \<longrightarrow> blip_xy b = blip_xy c)"
proof -
  have circle: "(d * cos a)\<^sup>2 + (d * sin a)\<^sup>2 = d\<^sup>2" for a d :: real
    by (simp add: power_mult_distrib flip: distrib_left)
  have deg: "0 \<le> js_rem (hash_abs h) 360 \<and> js_rem (hash_abs h) 360 < 360" for h
    using hash_abs_range [of h] by (intro js_rem_range) auto
  have dist: "0 \<le> js_rem \<bar>x\<bar> 26 \<and> js_rem \<bar>x\<bar> 26 < 26" for x
    by (intro js_rem_range) auto
  have le: "js_rem \<bar>x\<bar> 26 \<le> 25" for x using dist [of x] by simp
  show ?thesis
    using deg dist le by (auto simp: blips_def Let_def blip_xy_def circle)
qed

lemma blips_on_scope_witness:
  "blips [\<lparr>rt_id = ''a'', rt_score = 81, rt_action = ''ALLOW''\<rparr>] \<noteq> []
   \<and> length (blips [\<lparr>rt_id = ''a'', rt_score = 81, rt_action = ''ALLOW''\<rparr>]) \<le> 12"
  using blips_on_scope [of "[\<lparr>rt_id = ''a'', rt_score = 81, rt_action = ''ALLOW''\<rparr>]"]
  by (simp add: blips_def Let_def)

section \<open>The feed's memo\<close>

text \<open>
  Events are immutable: two deliveries that agree on key, score and decision are the same event.
\<close>

definition same_stream :: "analytics_event list \<Rightarrow> analytics_event list \<Rightarrow> bool" where
  "same_stream es fs \<longleftrightarrow> (\<forall>a \<in> set es. \<forall>b \<in> set fs.
     event_key a = event_key b \<and> ev_score a = ev_score b \<and> ev_action a = ev_action b \<longrightarrow> a = b)"

lemma feed_same_events_eq:
  "feed_same_events es fs \<Longrightarrow> length es = length fs \<Longrightarrow> same_stream es fs \<Longrightarrow> es = fs"
  by (induction es fs rule: feed_same_events.induct) (auto simp: same_stream_def)

interpretation feed_memo: memoized feed_same "feed_view time" "\<lambda>p q. same_stream (snd p) (snd q)"
  for time
proof unfold_locales
  fix p q :: feed_props
  assume "feed_same p q" "same_stream (snd p) (snd q)"
  then have "fst p = fst q" "snd p = snd q"
    using feed_same_events_eq by (auto simp: feed_same_def)
  then show "feed_view time p = feed_view time q" by (simp add: feed_view_def)
qed

text \<open>
  Skipping renders is invisible: when events are immutable, the memoized feed shows after any
  sequence of updates what rendering the last window afresh would show.
\<close>

lemma feed_memo_exact:
  assumes "\<forall>x \<in> set (p # ps). \<forall>y \<in> set (p # ps). same_stream (snd x) (snd y)"
  shows "memo_run feed_same (feed_view time) p ps = feed_view time (last (p # ps))"
  using assms by (intro feed_memo.memo_transparent) blast

lemma feed_memo_exact_witness:
  "let e = blank_event\<lparr>ev_id := Some ''a'', ev_action := Some ''BLOCK''\<rparr> in
   memo_run feed_same (feed_view (\<lambda>_. ''t'')) (None, []) [(None, [e]), (None, [e])]
   = feed_view (\<lambda>_. ''t'') (None, [e])"
  using feed_memo_exact [of "(None, [])" "[(None, [e]), (None, [e])]" for e]
  by (simp add: same_stream_def)

section \<open>Bars of the origins table\<close>

lemma geo_rows_bounds:
  assumes "sorted_wrt (\<lambda>a b. snd b \<le> snd a) rollup" "\<forall>g \<in> set rollup. 0 < snd g"
    and "(c, w, n) \<in> set (geo_rows rollup)"
  shows "\<exists>x. w = Some x \<and> 0 \<le> x \<and> x \<le> 100"
proof -
  let ?m = "snd (rollup ! 0)"
  from assms(3) have mem: "(c, n) \<in> set rollup"
    by (auto simp: geo_rows_def dest: in_set_takeD)
  then have ne: "rollup \<noteq> []" by auto
  with assms(2) have m: "0 < ?m" by (metis nth_mem length_greater_0_conv)
  have n: "0 < n" using mem assms(2) by force
  have le: "n \<le> ?m"
  proof (cases rollup)
    case (Cons g gs)
    with mem assms(1) show ?thesis by auto
  qed (use ne in simp)
  from assms(3) m have w: "w = Some (fl (fl (of_int n / of_int ?m) * 100))"
    by (auto simp: geo_rows_def Let_def)
  have eq: "(of_int n :: rat) / of_int ?m = of_nat (nat n) / of_nat (nat ?m)"
    using m n by simp
  have "nat n \<le> nat ?m" "0 < nat ?m" using m le by simp_all
  from dbl.percent_bounds [OF this] show ?thesis
    unfolding w eq by blast
qed

end
