(* ===== verification/World_Map.thy ===== *)
theory World_Map
  imports Threats "HOL-Library.Multiset"
begin

text \<open>
  \<open>components/map/WorldThreatMap.tsx\<close>: the atlas loader with its module-level caches, the path
  cache, the marker order, the attack arcs, the marker appearance and the memo comparator.

  The projection and the path generator of \<open>d3-geo\<close> are arguments; \<open>Math.hypot\<close>, whose result
  is approximated by the engine, is an argument too. SVG strings are kept as their numbers.
\<close>

section \<open>Loading the atlas\<close>

text \<open>
  The module variables \<open>atlasCache\<close> and \<open>atlasPromise\<close> (pending until the request settles) and
  the mounted maps: what a map shows, whether it waits for the promise, whether its effect was
  cancelled. \<open>at_fetches\<close> and \<open>at_failures\<close> record what was asked of the network.
\<close>

record 'f map_component =
  mc_countries :: "'f list option"
  mc_waiting :: bool
  mc_cancelled :: bool

record 'f atlas =
  at_cache :: "'f list option"
  at_pending :: bool
  at_maps :: "'f map_component list"
  at_fetches :: nat
  at_failures :: nat

definition atlas_init :: "'f atlas" where
  "atlas_init = \<lparr>at_cache = None, at_pending = False, at_maps = [], at_fetches = 0, at_failures = 0\<rparr>"

definition loadAtlas :: "'f atlas \<Rightarrow> 'f atlas" where
  "loadAtlas s = (if at_cache s \<noteq> None \<or> at_pending s then s
     else s\<lparr>at_pending := True, at_fetches := at_fetches s + 1\<rparr>)"

text \<open>Mounting: the state starts from the cache; the effect loads unless the cache is filled.\<close>

definition mount_map :: "'f atlas \<Rightarrow> 'f atlas" where
  "mount_map s =
     (let c = \<lparr>mc_countries = at_cache s, mc_waiting = (at_cache s = None), mc_cancelled = False\<rparr>;
          s' = (if at_cache s = None then loadAtlas s else s)
      in s'\<lparr>at_maps := at_maps s' @ [c]\<rparr>)"

definition unmount_map :: "nat \<Rightarrow> 'f atlas \<Rightarrow> 'f atlas" where
  "unmount_map i s = (if i < length (at_maps s)
     then s\<lparr>at_maps := (at_maps s)[i := (at_maps s ! i)\<lparr>mc_cancelled := True\<rparr>]\<rparr> else s)"

definition deliver :: "'f list \<Rightarrow> 'f map_component \<Rightarrow> 'f map_component" where
  "deliver features c = (if mc_waiting c
     then (if mc_cancelled c then c else c\<lparr>mc_countries := Some features\<rparr>)\<lparr>mc_waiting := False\<rparr>
     else c)"

text \<open>The request settles: the features of the decoded topology, or a failure.\<close>

definition settle :: "'f list option \<Rightarrow> 'f atlas \<Rightarrow> 'f atlas" where
  "settle r s = (if \<not> at_pending s then s else
     case r of
       Some features \<Rightarrow> s\<lparr>at_pending := False, at_cache := Some features,
         at_maps := map (deliver features) (at_maps s)\<rparr>
     | None \<Rightarrow> s\<lparr>at_pending := False, at_failures := at_failures s + 1,
         at_maps := map (deliver []) (at_maps s)\<rparr>)"

datatype 'f atlas_event = MountMap | UnmountMap nat | Settle "'f list option"

fun atlas_step :: "'f atlas_event \<Rightarrow> 'f atlas \<Rightarrow> 'f atlas" where
  "atlas_step MountMap s = mount_map s"
| "atlas_step (UnmountMap i) s = unmount_map i s"
| "atlas_step (Settle r) s = settle r s"

definition atlas_ok :: "'f atlas \<Rightarrow> bool" where
  "atlas_ok s \<longleftrightarrow> \<not> (at_pending s \<and> at_cache s \<noteq> None)
     \<and> at_fetches s = at_failures s + (if at_pending s \<or> at_cache s \<noteq> None then 1 else 0)
     \<and> (\<forall>c \<in> set (at_maps s). mc_waiting c \<longrightarrow> at_pending s)
     \<and> (\<forall>c \<in> set (at_maps s). at_failures s = 0 \<and> \<not> mc_waiting c \<and> \<not> mc_cancelled c
          \<longrightarrow> mc_countries c = at_cache s \<and> at_cache s \<noteq> None)"

lemma mount_map_ok [keep_rules]: "atlas_ok s \<Longrightarrow> atlas_ok (mount_map s)"
  by (auto simp: atlas_ok_def mount_map_def loadAtlas_def Let_def)

lemma unmount_map_ok [keep_rules]: "atlas_ok s \<Longrightarrow> atlas_ok (unmount_map i s)"
  unfolding atlas_ok_def unmount_map_def
  by (cases "i < length (at_maps s)") (auto dest!: set_update_subset_insert [THEN subsetD])

lemma settle_ok [keep_rules]: "atlas_ok s \<Longrightarrow> atlas_ok (settle r s)"
  by (auto simp: atlas_ok_def settle_def deliver_def split: option.split)

lemma atlas_step_ok [keep_rules]: "atlas_ok s \<Longrightarrow> atlas_ok (atlas_step e s)"
  by (cases e) (auto intro: keep_rules)

interpretation atlas_machine: machine atlas_step atlas_ok
  by unfold_locales (rule atlas_step_ok)

lemma atlas_init_ok [simp]: "atlas_ok atlas_init"
  by (simp add: atlas_ok_def atlas_init_def)

text \<open>
  The atlas is requested once per session, plus once for each request that failed, however
  many maps are mounted and unmounted; without failures every live map that is not waiting shows
  the one cached atlas.
\<close>

lemma atlas_fetched_once:
  fixes es :: "'f atlas_event list"
  defines "s \<equiv> fold atlas_step es atlas_init"
  shows "at_fetches s \<le> at_failures s + 1
    \<and> (\<forall>c. c \<in> set (at_maps s) \<and> at_failures s = 0 \<and> \<not> mc_waiting c \<and> \<not> mc_cancelled c
         \<longrightarrow> (\<exists>fs. at_cache s = Some fs \<and> mc_countries c = Some fs))"
  using atlas_machine.run [OF atlas_init_ok, of es] unfolding s_def atlas_ok_def by auto

lemma atlas_fetched_once_witness:
  "let s = fold atlas_step [MountMap, MountMap, Settle (Some [''US'']), MountMap] atlas_init in
   length (at_maps s) = 3 \<and> at_fetches s \<le> 0 + 1"
  using atlas_fetched_once [of "[MountMap, MountMap, Settle (Some [''US'']), MountMap]"]
  by (simp add: mount_map_def loadAtlas_def settle_def deliver_def atlas_init_def Let_def)

section \<open>The path cache\<close>

definition countryPath :: "('f \<Rightarrow> 'd option) \<Rightarrow> 'd \<Rightarrow> 'f \<Rightarrow> ('f \<rightharpoonup> 'd) \<Rightarrow> 'd \<times> ('f \<rightharpoonup> 'd)" where
  "countryPath factory nopath c cache = (case cache c of
     Some d \<Rightarrow> (d, cache)
   | None \<Rightarrow> let d = default (factory c) nopath in (d, cache(c \<mapsto> d)))"

definition path_cache_ok :: "('f \<Rightarrow> 'd option) \<Rightarrow> 'd \<Rightarrow> ('f \<rightharpoonup> 'd) \<Rightarrow> bool" where
  "path_cache_ok factory nopath cache \<longleftrightarrow> (\<forall>c d. cache c = Some d \<longrightarrow> d = default (factory c) nopath)"

lemma countryPath_correct:
  assumes "path_cache_ok factory nopath cache"
  shows "fst (countryPath factory nopath c cache) = default (factory c) nopath
    \<and> path_cache_ok factory nopath (snd (countryPath factory nopath c cache))
    \<and> dom (snd (countryPath factory nopath c cache)) = insert c (dom cache)"
  using assms by (auto simp: countryPath_def path_cache_ok_def Let_def split: option.split)

section \<open>Markers and arcs\<close>

definition sorted_threats :: "map_threat list \<Rightarrow> map_threat list" where
  "sorted_threats ts = sort_key mt_score ts"

record arc =
  a_id :: string
  a_from :: "rat \<times> rat"
  a_ctrl :: "rat \<times> rat"
  a_to :: "rat \<times> rat"
  a_delay :: rat
  a_critical :: bool

definition projectPoint :: "(rat \<times> rat \<Rightarrow> (rat \<times> rat) option) \<Rightarrow> map_threat \<Rightarrow> rat \<times> rat" where
  "projectPoint projection t = default (projection (mt_lon t, mt_lat t)) (0, 0)"

definition make_arc :: "(rat \<times> rat \<Rightarrow> (rat \<times> rat) option) \<Rightarrow> (rat \<Rightarrow> rat \<Rightarrow> rat) \<Rightarrow> map_threat
    \<Rightarrow> nat \<Rightarrow> map_threat \<Rightarrow> arc" where
  "make_arc projection hypot target i t =
     (let (tx, ty) = projectPoint projection target;
          (sx, sy) = projectPoint projection t;
          mx = fl (fl (sx + tx) / 2);
          my = fl (fl (fl (fl (sy + ty) / 2)
                 - fl (hypot (fl (tx - sx)) (fl (ty - sy)) * fl 0.22)) - 4)
      in \<lparr>a_id = ''arc-'' @ mt_id t, a_from = (sx, sy), a_ctrl = (mx, my), a_to = (tx, ty),
          a_delay = fl (of_nat i * fl 0.45), a_critical = (60 \<le> mt_score t)\<rparr>)"

text \<open>\<open>sorted.slice(-4, -1).reverse()\<close>, the sources of the arcs.\<close>

definition arc_sources :: "map_threat list \<Rightarrow> map_threat list" where
  "arc_sources ord = rev (butlast (take_last 4 ord))"

definition arcs :: "(rat \<times> rat \<Rightarrow> (rat \<times> rat) option) \<Rightarrow> (rat \<Rightarrow> rat \<Rightarrow> rat) \<Rightarrow> map_threat list
    \<Rightarrow> arc list" where
  "arcs projection hypot ord = (if length ord < 2 then [] else
     map (\<lambda>(i, t). make_arc projection hypot (last ord) i t) (enumerate 0 (arc_sources ord)))"

record marker_view =
  mv_id :: string
  mv_xy :: "rat \<times> rat"
  mv_color :: string
  mv_critical :: bool
  mv_selected :: bool
  mv_title :: string

definition marker_color :: "map_threat \<Rightarrow> string" where
  "marker_color t = (if mt_action t = ''BLOCK'' \<or> 80 \<le> mt_score t then ''#f43f5e''
     else if 60 \<le> mt_score t then ''#f97316'' else ''#eab308'')"

definition view_marker :: "(rat \<times> rat \<Rightarrow> (rat \<times> rat) option) \<Rightarrow> string option \<Rightarrow> map_threat
    \<Rightarrow> marker_view" where
  "view_marker projection selectedId t =
     \<lparr>mv_id = mt_id t, mv_xy = projectPoint projection t, mv_color = marker_color t,
      mv_critical = (mt_action t = ''BLOCK'' \<or> 80 \<le> mt_score t),
      mv_selected = (selectedId = Some (mt_id t)),
      mv_title = default (mt_label t) (mt_id t) @ '' '' @ middot @ '' '' @ mt_action t @ '' ''
        @ middot @ '' score '' @ toFixed 1 (mt_score t)\<rparr>"

definition arc_strokes :: "arc \<Rightarrow> string \<times> string" where
  "arc_strokes a = (if a_critical a then (''#f43f5e'', ''#fb7185'') else (''#818cf8'', ''#a5b4fc''))"

text \<open>
  The country under the pointer: \<open>null\<close>, or the name of the feature, which may be undefined. A country
  is drawn highlighted when its name is the one stored.
\<close>

type_synonym hovered = "string option option"

datatype hover_event = MouseEnter "string option" | MouseLeave

fun hover_step :: "hover_event \<Rightarrow> hovered \<Rightarrow> hovered" where
  "hover_step (MouseEnter name) h = Some name"
| "hover_step MouseLeave h = None"

definition land_style :: "hovered \<Rightarrow> string option \<Rightarrow> string \<times> string \<times> rat" where
  "land_style h name = (if h = Some name then (''#1e3a5f'', ''rgba(56,189,248,0.45)'', fl 0.5)
     else (''url(#landGrad)'', ''rgba(56,189,248,0.22)'', fl 0.3))"

text \<open>The view box from the bounds of the projected sphere, and the centre of the sweep.\<close>

record box =
  bx_x :: rat
  bx_y :: rat
  bx_w :: rat
  bx_h :: rat

definition size_of :: "(rat \<times> rat) \<times> (rat \<times> rat) \<Rightarrow> box" where
  "size_of b = \<lparr>bx_x = fst (fst b), bx_y = snd (fst b), bx_w = fl (fst (snd b) - fst (fst b)),
     bx_h = fl (snd (snd b) - snd (fst b))\<rparr>"

definition radarCenter :: "box \<Rightarrow> rat \<times> rat" where
  "radarCenter s = (fl (bx_x s + fl (bx_w s / 2)), fl (bx_y s + fl (bx_h s / 2)))"

text \<open>
  The props of the component; \<open>onSelect\<close> is the identity of a function object, absent or one of
  the closures the parent created.
\<close>

record map_props =
  mp_threats :: "map_threat list"
  mp_selectedId :: "string option"
  mp_onSelect :: "nat option"
  mp_className :: "string option"

definition map_view :: "(rat \<times> rat \<Rightarrow> (rat \<times> rat) option) \<Rightarrow> (rat \<Rightarrow> rat \<Rightarrow> rat) \<Rightarrow> map_props
    \<Rightarrow> string \<times> arc list \<times> marker_view list \<times> nat option" where
  "map_view projection hypot p =
     (let ord = sorted_threats (mp_threats p) in
      (default (mp_className p) '''', arcs projection hypot ord,
       map (view_marker projection (mp_selectedId p)) ord, mp_onSelect p))"

fun map_same_threats :: "map_threat list \<Rightarrow> map_threat list \<Rightarrow> bool" where
  "map_same_threats (a # as) (b # bs) \<longleftrightarrow>
     mt_id a = mt_id b \<and> mt_score a = mt_score b \<and> mt_action a = mt_action b \<and> map_same_threats as bs"
| "map_same_threats _ _ \<longleftrightarrow> True"

definition map_same :: "map_props \<Rightarrow> map_props \<Rightarrow> bool" where
  "map_same prev nxt \<longleftrightarrow> mp_selectedId prev = mp_selectedId nxt \<and> mp_onSelect prev = mp_onSelect nxt
     \<and> mp_className prev = mp_className nxt \<and> length (mp_threats prev) = length (mp_threats nxt)
     \<and> map_same_threats (mp_threats prev) (mp_threats nxt)"

section \<open>The strongest threats\<close>

lemma sorted_threats_laws:
  "mset (sorted_threats ts) = mset ts" "sorted (map mt_score (sorted_threats ts))"
  by (simp_all add: sorted_threats_def)

lemma map_enumerate: "map (\<lambda>x. f (snd x)) (enumerate n xs) = map f xs"
  by (induction xs arbitrary: n) auto

lemma butlast_take_last_split:
  assumes "2 \<le> length xs"
  shows "\<exists>rest. xs = rest @ butlast (take_last 4 xs) @ [last xs]"
proof -
  have "take_last 4 xs \<noteq> []" using assms by (auto simp: take_last_def)
  then have "butlast (take_last 4 xs) @ [last (take_last 4 xs)] = take_last 4 xs" by simp
  moreover have "last (take_last 4 xs) = last xs" using assms by (simp add: take_last_def last_drop)
  moreover have "xs = take (length xs - 4) xs @ take_last 4 xs" by (simp add: take_last_def)
  ultimately show ?thesis by metis
qed

text \<open>
  With at least two threats the arcs run from the strongest others, at most three of them and
  strongest first, to a threat of maximal score; every threat that gets no arc is at most as
  strong as each arc's source.
\<close>

lemma arcs_from_strongest:
  assumes "2 \<le> length ts"
  defines "sources \<equiv> arc_sources (sorted_threats ts)" and "target \<equiv> last (sorted_threats ts)"
  shows "\<exists>rest. mset ts = mset rest + mset sources + {#target#}
    \<and> length sources = min 3 (length ts - 1)
    \<and> (\<forall>t. t \<in> set ts \<longrightarrow> mt_score t \<le> mt_score target)
    \<and> (\<forall>r s. r \<in> set rest \<and> s \<in> set sources \<longrightarrow> mt_score r \<le> mt_score s)
    \<and> sorted (rev (map mt_score sources))
    \<and> map a_id (arcs projection hypot (sorted_threats ts)) = map (\<lambda>t. ''arc-'' @ mt_id t) sources"
proof -
  let ?xs = "sorted_threats ts"
  have len: "length ?xs = length ts" using sorted_threats_laws(1) by (metis size_mset)
  with assms(1) obtain rest where rest: "?xs = rest @ butlast (take_last 4 ?xs) @ [last ?xs]"
    using butlast_take_last_split [of ?xs] by auto
  then have m: "mset ts = mset rest + mset sources + {#target#}"
    unfolding sources_def target_def arc_sources_def
    using sorted_threats_laws(1) [of ts] by (metis (no_types) mset.simps mset_append mset_rev union_assoc
        add_mset_add_single union_mset_add_mset_right)
  have s: "sorted (map mt_score (rest @ butlast (take_last 4 ?xs) @ [last ?xs]))"
    using sorted_threats_laws(2) [of ts] rest by simp
  have "t \<in> set ts \<Longrightarrow> mt_score t \<le> mt_score target" for t
  proof -
    assume "t \<in> set ts"
    then have "t \<in> set (rest @ butlast (take_last 4 ?xs) @ [last ?xs])"
      using rest sorted_threats_laws(1) [of ts] by (metis set_mset_mset)
    with s show ?thesis by (auto simp: sorted_append target_def)
  qed
  moreover have "map a_id (arcs projection hypot ?xs) = map (\<lambda>t. ''arc-'' @ mt_id t) sources"
    using assms(1) len
    by (simp add: arcs_def make_arc_def Let_def sources_def split_def comp_def
        map_enumerate [of "\<lambda>t. ''arc-'' @ mt_id t", simplified])
  moreover have "sorted (rev (map mt_score sources))"
    using s by (simp add: sources_def arc_sources_def rev_map sorted_append)
  moreover have "length sources = min 3 (length ts - 1)"
    using len by (simp add: sources_def arc_sources_def)
  ultimately show ?thesis
    using m s by (intro exI [of _ rest]) (auto simp: sources_def arc_sources_def sorted_append)
qed

definition sample_threat :: "string \<Rightarrow> rat \<Rightarrow> map_threat" where
  "sample_threat i score = \<lparr>mt_id = i, mt_lat = 0, mt_lon = 0, mt_score = score,
     mt_action = ''ALLOW'', mt_label = None\<rparr>"

lemma arcs_from_strongest_witness:
  "\<exists>rest. mset [sample_threat ''a'' 3, sample_threat ''b'' 9] = mset rest
     + mset (arc_sources (sorted_threats [sample_threat ''a'' 3, sample_threat ''b'' 9]))
     + {#last (sorted_threats [sample_threat ''a'' 3, sample_threat ''b'' 9])#}"
proof -
  let ?ts = "[sample_threat ''a'' 3, sample_threat ''b'' 9]"
  have "2 \<le> length ?ts" by simp
  from arcs_from_strongest [OF this, of "\<lambda>_. None" "\<lambda>_ _. 0"] show ?thesis by blast
qed

text \<open>Exactly the countries with the entered name are highlighted, and none after leaving.\<close>

lemma hover_highlights:
  "(land_style (fold hover_step (es @ [MouseEnter n]) h) m = land_style (Some m) m \<longleftrightarrow> m = n)
   \<and> land_style (fold hover_step (es @ [MouseLeave]) h) m \<noteq> land_style (Some m) m"
  by (auto simp: land_style_def)

section \<open>The map's memo\<close>

text \<open>Markers that agree on id, score and decision are drawn alike.\<close>

definition same_markers :: "map_threat list \<Rightarrow> map_threat list \<Rightarrow> bool" where
  "same_markers ts us \<longleftrightarrow> (\<forall>a \<in> set ts. \<forall>b \<in> set us.
     mt_id a = mt_id b \<and> mt_score a = mt_score b \<and> mt_action a = mt_action b \<longrightarrow> a = b)"

lemma map_same_threats_eq:
  "map_same_threats ts us \<Longrightarrow> length ts = length us \<Longrightarrow> same_markers ts us \<Longrightarrow> ts = us"
  by (induction ts us rule: map_same_threats.induct) (auto simp: same_markers_def)

interpretation map_memo: memoized map_same "map_view projection hypot"
    "\<lambda>p q. same_markers (mp_threats p) (mp_threats q)" for projection hypot
proof unfold_locales
  fix p q :: map_props
  assume "map_same p q" "same_markers (mp_threats p) (mp_threats q)"
  then have "p = q" using map_same_threats_eq by (auto simp: map_same_def intro!: map_props.equality)
  then show "map_view projection hypot p = map_view projection hypot q" by simp
qed

text \<open>
  The markers of the command center, drawn from windows of immutable events with ids, are drawn
  alike.
\<close>

lemma placed_same:
  assumes "mt_id (placed a) = mt_id (placed b)" "event_key a \<noteq> None" "event_key b \<noteq> None"
  shows "event_key a = event_key b"
  using assms by (auto simp: placed_def marker_def Let_def)

lemma mapThreats_same_markers:
  assumes "\<forall>a \<in> set es. \<forall>b \<in> set fs. event_key a = event_key b \<longrightarrow> a = b"
    and "\<forall>a \<in> set es \<union> set fs. event_key a \<noteq> None"
  shows "same_markers (mapThreats es) (mapThreats fs)"
  unfolding same_markers_def
proof (intro ballI impI)
  fix t u
  assume t: "t \<in> set (mapThreats es)" and u: "u \<in> set (mapThreats fs)"
    and eq: "mt_id t = mt_id u \<and> mt_score t = mt_score u \<and> mt_action t = mt_action u"
  obtain a where a: "a \<in> set es" "t = map_threat.truncate (placed a)"
    using t by (auto simp: mapThreats_eq dest!: in_set_takeD)
  obtain b where b: "b \<in> set fs" "u = map_threat.truncate (placed b)"
    using u by (auto simp: mapThreats_eq dest!: in_set_takeD)
  have "mt_id (placed a) = mt_id (placed b)"
    using eq a(2) b(2) by (simp add: map_threat.defs)
  then have "event_key a = event_key b" using assms(2) a(1) b(1) by (intro placed_same) auto
  with assms(1) a b show "t = u" by blast
qed

text \<open>
  On the command center the memoized map is exact: fed with the markers of any sequence of
  windows over a stream of events with unique keys, it shows what a fresh rendering of the last
  window would show.
\<close>

lemma map_memo_exact:
  assumes "\<forall>a \<in> set (concat (w # ws)). \<forall>b \<in> set (concat (w # ws)). event_key a = event_key b \<longrightarrow> a = b"
    and "\<forall>a \<in> set (concat (w # ws)). event_key a \<noteq> None"
  defines "props \<equiv> \<lambda>es. \<lparr>mp_threats = mapThreats es, mp_selectedId = None, mp_onSelect = None,
      mp_className = None\<rparr>"
  shows "memo_run map_same (map_view projection hypot) (props w) (map props ws)
    = map_view projection hypot (props (last (w # ws)))"
proof -
  have "same_markers (mapThreats es) (mapThreats fs)" if "es \<in> set (w # ws)" "fs \<in> set (w # ws)" for es fs
    using that assms(1,2) by (intro mapThreats_same_markers) auto
  then have "memo_run map_same (map_view projection hypot) (props w) (map props ws)
      = map_view projection hypot (last (props w # map props ws))"
    by (intro map_memo.memo_transparent) (auto simp: props_def)
  then show ?thesis by (simp add: last_map)
qed

lemma map_memo_exact_witness:
  "memo_run map_same (map_view (\<lambda>_. None) (\<lambda>_ _. 0))
     \<lparr>mp_threats = mapThreats [], mp_selectedId = None, mp_onSelect = None, mp_className = None\<rparr>
     [\<lparr>mp_threats = mapThreats [blank_event\<lparr>ev_id := Some ''a''\<rparr>], mp_selectedId = None,
       mp_onSelect = None, mp_className = None\<rparr>]
   = map_view (\<lambda>_. None) (\<lambda>_ _. 0) \<lparr>mp_threats = mapThreats [blank_event\<lparr>ev_id := Some ''a''\<rparr>],
       mp_selectedId = None, mp_onSelect = None, mp_className = None\<rparr>"
  using map_memo_exact [of "[]" "[[blank_event\<lparr>ev_id := Some ''a''\<rparr>]]"]
  by (simp add: event_key_def)

text \<open>
  On the threats page the memo never takes effect: the page passes a new \<open>onSelect\<close> closure with
  every rendering, so the comparator refuses every update, equal threats or not.
\<close>

lemma new_onSelect_renders:
  "mp_onSelect p \<noteq> mp_onSelect q \<Longrightarrow> memo_step map_same render (p, out) q = (q, render q)"
  by (simp add: map_same_def)

end
