(* ===== verification/Session.thy ===== *)
theory Session
  imports JS_Number
begin

text \<open>
  The browser session: where requests go and how they are authenticated (\<open>lib/api.ts\<close>,
  \<open>hooks/useAnalytics.ts\<close>, \<open>app/login/page.tsx\<close>), the gate in front of the pages
  (\<open>components/layout/AuthGate.tsx\<close>) and signing out (\<open>UserMenu\<close> of \<open>TopBar.tsx\<close>).

  The network is a parameter: an \<open>endpoint\<close> answers a request from the state of the servers.
  Its answer type is the type the source casts the decoded body to; \<open>rs_json\<close> is what
  \<open>response.json()\<close> yields, which rejects when the body is not JSON. A rejected \<open>fetch\<close> is an
  exception. The log \<open>w_sent\<close> records every request.
\<close>

section \<open>Environment and requests\<close>

text \<open>
  \<open>NEXT_PUBLIC_API_URL\<close> and, in a browser, the protocol and host name of the page.
\<close>

record env =
  env_api :: "string option"
  env_window :: "(string \<times> string) option"

definition localhost_api :: string where
  "localhost_api = ''http://localhost:8080''"

text \<open>\<open>(... ?? "").replace(/\/$/, "")\<close>: one trailing slash is dropped.\<close>

definition configuredAPIURL :: "env \<Rightarrow> string" where
  "configuredAPIURL ev = (let s = default (env_api ev) '''' in
     if endsWith s ''/'' then butlast s else s)"

definition getAPIURL :: "env \<Rightarrow> string" where
  "getAPIURL ev =
     (let c = configuredAPIURL ev in
      if c \<noteq> [] \<and> c \<noteq> localhost_api then c
      else case env_window ev of
        None \<Rightarrow> if c \<noteq> [] then c else localhost_api
      | Some (protocol, hostname) \<Rightarrow>
          if str_includes hostname ''-3000.''
          then protocol @ ''//'' @ replace_first hostname ''-3000.'' ''-8080.''
          else protocol @ ''//'' @ hostname @ '':8080'')"

definition apiURL :: "env \<Rightarrow> string \<Rightarrow> string" where
  "apiURL ev path = getAPIURL ev @ path"

text \<open>\<open>RuleInput\<close>; optional properties are left out of the JSON text when absent.\<close>

record rule_input =
  ri_rule_id :: "string option"
  ri_name :: string
  ri_description :: "string option"
  ri_expression :: string
  ri_score_contribution :: rat
  ri_action :: string
  ri_is_enabled :: "bool option"
  ri_priority :: "rat option"

text \<open>The JSON bodies the program sends.\<close>

datatype req_body = NoBody | RefreshBody string | Credentials string string
  | Registration string string string | RuleBody rule_input

record request =
  rq_url :: string
  rq_method :: string
  rq_headers :: "string \<rightharpoonup> string"
  rq_body :: req_body

record 'b response =
  rs_status :: nat
  rs_json :: "exn + 'b"

definition ok :: "'b response \<Rightarrow> bool" where
  "ok r \<longleftrightarrow> 200 \<le> rs_status r \<and> rs_status r < 300"

type_synonym ('srv, 'b) endpoint = "request \<Rightarrow> 'srv \<Rightarrow> (exn + 'b response) \<times> 'srv"

record token_pair =
  access_token :: string
  refresh_token :: string

record 'srv world =
  w_storage :: "string \<rightharpoonup> string"
  w_server :: 'srv
  w_sent :: "request list"
  w_location :: "string list"

definition do_fetch :: "('srv, 'b) endpoint \<Rightarrow> request \<Rightarrow> ('srv world, 'b response) comp" where
  "do_fetch ep rq w = (case ep rq (w_server w) of
     (r, srv) \<Rightarrow> (r, w\<lparr>w_server := srv, w_sent := w_sent w @ [rq]\<rparr>))"

definition json_of :: "'b response \<Rightarrow> ('srv world, 'b) comp" where
  "json_of r = (case rs_json r of Inl e \<Rightarrow> throwE e | Inr b \<Rightarrow> returnE b)"

definition getItem :: "string \<Rightarrow> ('srv world, string option) comp" where
  "getItem k = readE (\<lambda>w. w_storage w k)"

definition setItem :: "string \<Rightarrow> string \<Rightarrow> ('srv world, unit) comp" where
  "setItem k v = modifyE (\<lambda>w. w\<lparr>w_storage := (w_storage w)(k \<mapsto> v)\<rparr>)"

definition removeItem :: "string \<Rightarrow> ('srv world, unit) comp" where
  "removeItem k = modifyE (\<lambda>w. w\<lparr>w_storage := (w_storage w)(k := None)\<rparr>)"

definition location_replace :: "string \<Rightarrow> ('srv world, unit) comp" where
  "location_replace url = modifyE (\<lambda>w. w\<lparr>w_location := w_location w @ [url]\<rparr>)"

abbreviation access_key :: string where "access_key \<equiv> ''sentinel_access_token''"
abbreviation refresh_key :: string where "refresh_key \<equiv> ''sentinel_refresh_token''"
abbreviation demo_key :: string where "demo_key \<equiv> ''sentinel_demo_user''"

section \<open>Authenticated requests\<close>

definition authHeaders :: "env \<Rightarrow> ('srv world, string \<rightharpoonup> string) comp" where
  "authHeaders ev = readE (\<lambda>w.
     let token = (if env_window ev = None then None else w_storage w access_key) in
     if truthy token then [''Authorization'' \<mapsto> ''Bearer '' @ the token] else Map.empty)"

definition json_content :: "string \<rightharpoonup> string" where
  "json_content = [''Content-Type'' \<mapsto> ''application/json'']"

definition refresh_request :: "env \<Rightarrow> string \<Rightarrow> request" where
  "refresh_request ev token = \<lparr>rq_url = getAPIURL ev @ ''/api/v1/auth/refresh'', rq_method = ''POST'',
     rq_headers = json_content, rq_body = RefreshBody token\<rparr>"

text \<open>\<open>fetch(input, {...init, headers: {...authHeaders(), ...(init.headers ?? {})}})\<close>.\<close>

definition send_auth :: "env \<Rightarrow> ('srv, 'b) endpoint \<Rightarrow> request \<Rightarrow> ('srv world, 'b response) comp" where
  "send_auth ev ep init = bindE (authHeaders ev)
     (\<lambda>hs. do_fetch ep (init\<lparr>rq_headers := hs ++ rq_headers init\<rparr>))"

definition apiFetch :: "env \<Rightarrow> ('srv, token_pair) endpoint \<Rightarrow> ('srv, 'b) endpoint \<Rightarrow> request
    \<Rightarrow> ('srv world, 'b response) comp" where
  "apiFetch ev refresh_ep ep init =
     bindE (send_auth ev ep init) (\<lambda>response.
       if rs_status response \<noteq> 401 \<or> env_window ev = None then returnE response
       else bindE (getItem refresh_key) (\<lambda>refreshToken.
         if \<not> truthy refreshToken then returnE response
         else bindE (do_fetch refresh_ep (refresh_request ev (the refreshToken))) (\<lambda>refresh.
           if \<not> ok refresh then returnE response
           else bindE (json_of refresh) (\<lambda>pair.
             bindE (setItem access_key (access_token pair)) (\<lambda>_.
             bindE (setItem refresh_key (refresh_token pair)) (\<lambda>_.
             send_auth ev ep init))))))"

text \<open>The copy of the same function in \<open>hooks/useAnalytics.ts\<close>, as written there.\<close>

definition fetchWithRefresh :: "env \<Rightarrow> ('srv, token_pair) endpoint \<Rightarrow> ('srv, 'b) endpoint \<Rightarrow> request
    \<Rightarrow> ('srv world, 'b response) comp" where
  "fetchWithRefresh ev refresh_ep ep init =
     bindE (bindE (authHeaders ev) (\<lambda>hs. do_fetch ep (init\<lparr>rq_headers := hs ++ rq_headers init\<rparr>)))
     (\<lambda>response.
       if rs_status response \<noteq> 401 \<or> env_window ev = None then returnE response
       else bindE (getItem refresh_key) (\<lambda>refreshToken.
         case refreshToken of None \<Rightarrow> returnE response
         | Some token \<Rightarrow> if token = [] then returnE response else
             bindE (do_fetch refresh_ep \<lparr>rq_url = getAPIURL ev @ ''/api/v1/auth/refresh'',
                 rq_method = ''POST'', rq_headers = json_content, rq_body = RefreshBody token\<rparr>)
             (\<lambda>refresh. if ok refresh
                then bindE (json_of refresh) (\<lambda>pair.
                  bindE (modifyE (\<lambda>w. w\<lparr>w_storage := (w_storage w)(access_key \<mapsto> access_token pair,
                      refresh_key \<mapsto> refresh_token pair)\<rparr>))
                  (\<lambda>_. bindE (authHeaders ev)
                    (\<lambda>hs. do_fetch ep (init\<lparr>rq_headers := hs ++ rq_headers init\<rparr>))))
                else returnE response)))"

text \<open>A plain GET with \<open>cache: "no-store"\<close>, and a request with a JSON body.\<close>

definition get_request :: "string \<Rightarrow> request" where
  "get_request url = \<lparr>rq_url = url, rq_method = ''GET'', rq_headers = Map.empty, rq_body = NoBody\<rparr>"

definition json_request :: "string \<Rightarrow> string \<Rightarrow> req_body \<Rightarrow> request" where
  "json_request meth url body =
     \<lparr>rq_url = url, rq_method = meth, rq_headers = json_content, rq_body = body\<rparr>"

section \<open>Percent encoding\<close>

definition unreserved :: "char \<Rightarrow> bool" where
  "unreserved c \<longleftrightarrow> (let n = char_code c in
     48 \<le> n \<and> n \<le> 57 \<or> 65 \<le> n \<and> n \<le> 90 \<or> 97 \<le> n \<and> n \<le> 122 \<or> c \<in> set ''-_.!~*()'' \<or> n = 39)"

definition hex_digit :: "nat \<Rightarrow> char" where
  "hex_digit d = (if d < 10 then char_of (48 + d) else char_of (55 + d))"

definition encode_char :: "char \<Rightarrow> string" where
  "encode_char c = (if unreserved c then [c]
     else [CHR ''%'', hex_digit (char_code c div 16), hex_digit (char_code c mod 16)])"

definition encodeURIComponent :: "string \<Rightarrow> string" where
  "encodeURIComponent s = concat (map encode_char s)"

definition hex_value :: "char \<Rightarrow> nat" where
  "hex_value c = (if char_code c < 58 then char_code c - 48 else char_code c - 55)"

text \<open>The decoder a server applies to a path segment.\<close>

fun decodeURIComponent :: "string \<Rightarrow> string" where
  "decodeURIComponent (c # h # l # s) =
     (if c = CHR ''%'' then char_of (16 * hex_value h + hex_value l) # decodeURIComponent s
      else c # decodeURIComponent (h # l # s))"
| "decodeURIComponent s = s"

section \<open>The WebSocket address\<close>

definition ws_base :: "string \<Rightarrow> string" where
  "ws_base s = (if startsWith s ''http'' then ''ws'' @ drop 4 s else s)"

definition websocketURL :: "env \<Rightarrow> ('srv world, string option) comp" where
  "websocketURL ev = readE (\<lambda>w.
     if env_window ev = None then None
     else let token = w_storage w access_key in
       if truthy token
       then Some (ws_base (getAPIURL ev) @ ''/api/v1/analytics/ws?access_token=''
         @ encodeURIComponent (the token))
       else None)"

section \<open>The gate and signing out\<close>

text \<open>
  The gate's state: \<open>ready\<close>, the pending zero-delay timer that sets it, and the pending
  three-second safety net. The first effect runs at mount and when the path changes (after its
  cleanup), the second at mount only.
\<close>

record gate =
  g_ready :: bool
  g_ready_timer :: bool
  g_safety_timer :: bool
  g_path :: string

definition gate_effect :: "gate \<Rightarrow> ('srv world, gate) comp" where
  "gate_effect g = bindE (getItem access_key) (\<lambda>token.
     if \<not> truthy token then bindE (location_replace ''/login/'') (\<lambda>_. returnE (g\<lparr>g_ready_timer := False\<rparr>))
     else returnE (g\<lparr>g_ready_timer := True\<rparr>))"

definition gate_mount :: "string \<Rightarrow> ('srv world, gate) comp" where
  "gate_mount path =
     bindE (gate_effect \<lparr>g_ready = False, g_ready_timer = False, g_safety_timer = False, g_path = path\<rparr>)
       (\<lambda>g. bindE (getItem access_key) (\<lambda>token. returnE (g\<lparr>g_safety_timer := \<not> truthy token\<rparr>)))"

datatype gate_event = ReadyTimer | SafetyTimer | Navigate string

fun gate_step :: "gate_event \<Rightarrow> gate \<Rightarrow> ('srv world, gate) comp" where
  "gate_step ReadyTimer g = returnE (if g_ready_timer g then g\<lparr>g_ready := True, g_ready_timer := False\<rparr> else g)"
| "gate_step SafetyTimer g = (if g_safety_timer g
     then bindE (location_replace ''/login/'') (\<lambda>_. returnE (g\<lparr>g_safety_timer := False\<rparr>)) else returnE g)"
| "gate_step (Navigate path) g = gate_effect (g\<lparr>g_path := path, g_ready_timer := False\<rparr>)"

text \<open>Whether the children are rendered rather than the redirect screen.\<close>

definition gate_open :: "gate \<Rightarrow> bool" where
  "gate_open g \<longleftrightarrow> g_ready g \<or> g_path g = ''/login'' \<or> g_path g = ''/login/''"

definition logout :: "('srv world, unit) comp" where
  "logout = bindE (removeItem access_key) (\<lambda>_. bindE (removeItem refresh_key) (\<lambda>_.
     bindE (removeItem demo_key) (\<lambda>_. location_replace ''/login/'')))"

lemmas session_defs = do_fetch_def json_of_def getItem_def setItem_def removeItem_def
  location_replace_def authHeaders_def send_auth_def comp_defs

section \<open>What an authenticated request does\<close>

text \<open>The request as it goes out with the token that is stored.\<close>

definition with_auth :: "env \<Rightarrow> (string \<rightharpoonup> string) \<Rightarrow> request \<Rightarrow> request" where
  "with_auth ev storage init = init\<lparr>rq_headers :=
     (if env_window ev \<noteq> None \<and> truthy (storage access_key)
      then [''Authorization'' \<mapsto> ''Bearer '' @ the (storage access_key)] else Map.empty) ++ rq_headers init\<rparr>"

lemma send_auth_eq: "send_auth ev ep init w = do_fetch ep (with_auth ev (w_storage w) init) w"
  by (auto simp: session_defs with_auth_def Let_def)

lemma do_fetch_world:
  "do_fetch ep rq w = (fst (ep rq (w_server w)),
     w\<lparr>w_server := snd (ep rq (w_server w)), w_sent := w_sent w @ [rq]\<rparr>)"
  by (simp add: do_fetch_def split: prod.split)

text \<open>The branch of the wrapper on which the refresh succeeds.\<close>

lemma apiFetch_refreshed:
  assumes "ep (with_auth ev (w_storage w) init) (w_server w) = (Inr resp, s1)"
    and "rs_status resp = 401" "env_window ev \<noteq> None"
    and "w_storage w refresh_key = Some token" "token \<noteq> []"
    and "refresh_ep (refresh_request ev token) s1 = (Inr fresh, s2)" "ok fresh" "rs_json fresh = Inr pair"
  defines "w1 \<equiv> w\<lparr>w_server := s2,
      w_sent := w_sent w @ [with_auth ev (w_storage w) init, refresh_request ev token],
      w_storage := (w_storage w)(access_key \<mapsto> access_token pair, refresh_key \<mapsto> refresh_token pair)\<rparr>"
  shows "apiFetch ev refresh_ep ep init w = do_fetch ep (with_auth ev (w_storage w1) init) w1"
  using assms(1-8) unfolding apiFetch_def bindE_def send_auth_eq do_fetch_world w1_def
  by (auto simp: json_of_def getItem_def setItem_def modifyE_def readE_def returnE_def)

text \<open>
  C1: an authenticated request sends one request, or, after a 401 with a stored refresh token, the
  refresh and at most one retry. The stored tokens change only when the refresh succeeded, and
  then both together, to the pair it returned, before the retry, which carries the new token. No
  other key of the storage changes.
\<close>

theorem apiFetch_trace:
  fixes w :: "'srv world" and ep :: "('srv, 'b) endpoint" and refresh_ep ev init
  defines "first \<equiv> with_auth ev (w_storage w) init"
    and "w' \<equiv> snd (apiFetch ev refresh_ep ep init w)"
  shows "w_sent w' = w_sent w @ [first] \<and> w_storage w' = w_storage w
    \<or> (\<exists>token. w_storage w refresh_key = Some token \<and> token \<noteq> []
         \<and> w_sent w' = w_sent w @ [first, refresh_request ev token] \<and> w_storage w' = w_storage w)
    \<or> (\<exists>token (pair :: token_pair). w_storage w refresh_key = Some token \<and> token \<noteq> []
         \<and> w_storage w' = (w_storage w)(access_key \<mapsto> access_token pair, refresh_key \<mapsto> refresh_token pair)
         \<and> w_sent w' = w_sent w @ [first, refresh_request ev token, with_auth ev (w_storage w') init])"
proof -
  obtain r1 s1 where 1: "ep first (w_server w) = (r1, s1)" by fastforce
  have "fst (ep first (w_server w)) = r1" "snd (ep first (w_server w)) = s1" by (simp_all add: 1)
  note one = this
  show ?thesis
  proof (cases "\<exists>resp token. r1 = Inr resp \<and> rs_status resp = 401 \<and> env_window ev \<noteq> None
      \<and> w_storage w refresh_key = Some token \<and> token \<noteq> []")
    case False
    then have "w_sent w' = w_sent w @ [first] \<and> w_storage w' = w_storage w"
      unfolding w'_def apiFetch_def bindE_def send_auth_eq do_fetch_world first_def [symmetric] one
      by (cases r1; cases "w_storage w refresh_key") (auto simp: session_defs)
    then show ?thesis ..
  next
    case True
    then obtain resp token where t: "r1 = Inr resp" "rs_status resp = 401" "env_window ev \<noteq> None"
      "w_storage w refresh_key = Some token" "token \<noteq> []" by blast
    let ?rr = "refresh_request ev token"
    obtain r2 s2 where 2: "refresh_ep ?rr s1 = (r2, s2)" by fastforce
    show ?thesis
    proof (cases "\<exists>fresh pair. r2 = Inr fresh \<and> ok fresh \<and> rs_json fresh = Inr pair")
      case False
      then have "w_sent w' = w_sent w @ [first, ?rr] \<and> w_storage w' = w_storage w"
        using t 2 unfolding w'_def apiFetch_def bindE_def send_auth_eq do_fetch_world first_def [symmetric] one
        by (cases r2) (auto simp: session_defs split: sum.split)
      with t show ?thesis by blast
    next
      case True
      then obtain fresh pair where f: "r2 = Inr fresh" "ok fresh" "rs_json fresh = Inr pair" by blast
      have "w_storage w' = (w_storage w)(access_key \<mapsto> access_token pair, refresh_key \<mapsto> refresh_token pair)
        \<and> w_sent w' = w_sent w @ [first, ?rr, with_auth ev (w_storage w') init]"
        using t 2 f unfolding w'_def apiFetch_def bindE_def send_auth_eq do_fetch_world first_def [symmetric] one
        by (simp add: session_defs with_auth_def split: prod.split)
      with t show ?thesis by blast
    qed
  qed
qed

lemma fetchWithRefresh_apiFetch: "fetchWithRefresh ev refresh_ep ep init = apiFetch ev refresh_ep ep init"
proof -
  have store: "bindE (setItem access_key a) (\<lambda>_. bindE (setItem refresh_key b) (\<lambda>_. k))
    = bindE (modifyE (\<lambda>w. w\<lparr>w_storage := (w_storage w)(access_key \<mapsto> a, refresh_key \<mapsto> b)\<rparr>)) (\<lambda>_. k)"
    for a b and k :: "('srv world, 'c) comp"
    by (rule ext) (simp add: session_defs)
  show ?thesis
    unfolding fetchWithRefresh_def apiFetch_def store send_auth_def [symmetric]
      refresh_request_def [symmetric]
    by (intro bindE_cong refl if_cong)
      (auto intro!: bindE_cong simp: truthy_def split: option.split)
qed

text \<open>
  The two copies of the fetch wrapper, in the API module and in the analytics hook, behave
  identically on every request, storage and server.
\<close>

lemma fetch_wrappers_agree: "fetchWithRefresh ev refresh_ep ep init w = apiFetch ev refresh_ep ep init w"
  by (simp add: fetchWithRefresh_apiFetch)

section \<open>Percent encoding round trip\<close>

lemma char_code_bound: "char_code c < 256"
  by (simp add: char_code_def)

lemma hex_digit_code:
  "d < 16 \<Longrightarrow> char_code (hex_digit d) = (if d < 10 then 48 + d else 55 + d)"
  by (simp add: char_code_def hex_digit_def of_char_of)

lemma hex_value_digit: "d < 16 \<Longrightarrow> hex_value (hex_digit d) = d"
  by (simp add: hex_value_def hex_digit_code)

lemma percent_reserved: "\<not> unreserved (CHR ''%'')"
  by code_simp

lemma encode_char_cases:
  "encode_char c = [c] \<and> c \<noteq> CHR ''%''
   \<or> (\<exists>h l. encode_char c = [CHR ''%'', h, l] \<and> 16 * hex_value h + hex_value l = char_code c
        \<and> unreserved h \<and> unreserved l)"
proof -
  have d: "char_code c div 16 < 16" "char_code c mod 16 < 16" using char_code_bound [of c] by auto
  have "unreserved (hex_digit n)" if "n < 16" for n
    using hex_digit_code [OF that] that by (auto simp: unreserved_def Let_def split: if_splits)
  then show ?thesis
    using d percent_reserved by (auto simp: encode_char_def hex_value_digit)
qed

lemma decode_plain: "c \<noteq> CHR ''%'' \<Longrightarrow> decodeURIComponent (c # s) = c # decodeURIComponent s"
  by (cases s rule: decodeURIComponent.cases) auto

lemma decode_encode: "decodeURIComponent (encodeURIComponent s) = s"
proof (induction s)
  case (Cons c s)
  then show ?case using encode_char_cases [of c]
    by (auto simp: encodeURIComponent_def decode_plain char_code_def)
qed (simp add: encodeURIComponent_def)

text \<open>
  A rule id survives its trip through a URL path: decoding what \<open>encodeURIComponent\<close> produced
  gives the id back, and the encoded text contains no character that could end the path segment or
  start a query.
\<close>

lemma encode_roundtrip:
  "decodeURIComponent (encodeURIComponent s) = s
   \<and> set (encodeURIComponent s) \<inter> {CHR ''/'', CHR ''?'', CHR ''#'', CHR ''&''} = {}"
proof
  show "decodeURIComponent (encodeURIComponent s) = s" by (rule decode_encode)
  have "\<not> unreserved (CHR ''/'')" "\<not> unreserved (CHR ''?'')" "\<not> unreserved (CHR ''#'')"
    "\<not> unreserved (CHR ''&'')" by code_simp+
  then have "set (encode_char c) \<inter> {CHR ''/'', CHR ''?'', CHR ''#'', CHR ''&''} = {}" for c
    using encode_char_cases [of c] by (cases "unreserved c") (auto simp: encode_char_def)
  then show "set (encodeURIComponent s) \<inter> {CHR ''/'', CHR ''?'', CHR ''#'', CHR ''&''} = {}"
    by (auto simp: encodeURIComponent_def)
qed

section \<open>Signing out\<close>

fun gate_run :: "gate_event list \<Rightarrow> gate \<Rightarrow> ('srv world, gate) comp" where
  "gate_run [] g = returnE g"
| "gate_run (e # es) g = bindE (gate_step e g) (gate_run es)"

text \<open>
  The redirects of a gate without a token: one when it mounts, one at each navigation, and one by the
  safety timer, which fires once.
\<close>

definition is_navigation :: "gate_event \<Rightarrow> bool" where
  "is_navigation e = (case e of Navigate path \<Rightarrow> True | _ \<Rightarrow> False)"

definition gate_redirects :: "gate_event list \<Rightarrow> nat" where
  "gate_redirects es = 1 + length (filter is_navigation es) + (if SafetyTimer \<in> set es then 1 else 0)"

lemma gate_step_signed_out:
  assumes "\<not> truthy (w_storage w access_key)" "\<not> g_ready g" "\<not> g_ready_timer g"
  shows "\<exists>g' w'. gate_step e g w = (Inr g', w') \<and> \<not> g_ready g' \<and> \<not> g_ready_timer g'
    \<and> w_storage w' = w_storage w \<and> (g_safety_timer g' \<longleftrightarrow> g_safety_timer g \<and> e \<noteq> SafetyTimer)
    \<and> w_location w' = w_location w @ (if is_navigation e \<or> e = SafetyTimer \<and> g_safety_timer g then [''/login/''] else [])"
  using assms by (cases e) (auto simp: gate_effect_def is_navigation_def session_defs)

lemma gate_run_signed_out:
  assumes "\<not> truthy (w_storage w access_key)" "\<not> g_ready g" "\<not> g_ready_timer g"
  shows "\<exists>g' w'. gate_run es g w = (Inr g', w') \<and> \<not> g_ready g'
    \<and> w_location w' = w_location w @ replicate (length (filter is_navigation es)
        + (if g_safety_timer g \<and> SafetyTimer \<in> set es then 1 else 0)) ''/login/''"
  using assms
proof (induction es arbitrary: g w)
  case (Cons e es)
  then obtain g1 w1 where 1: "gate_step e g w = (Inr g1, w1)" "\<not> g_ready g1" "\<not> g_ready_timer g1"
    "w_storage w1 = w_storage w" "g_safety_timer g1 \<longleftrightarrow> g_safety_timer g \<and> e \<noteq> SafetyTimer"
    "w_location w1 = w_location w @ (if is_navigation e \<or> e = SafetyTimer \<and> g_safety_timer g then [''/login/''] else [])"
    using gate_step_signed_out [of w g e] by blast
  have "\<not> is_navigation SafetyTimer" by (simp add: is_navigation_def)
  with Cons.IH [of w1 g1] Cons.prems 1 show ?case by (auto simp: bindE_def)
qed (simp add: returnE_def)

lemma gate_signed_out:
  assumes "\<not> truthy (w_storage w access_key)"
  shows "\<exists>g w'. (bindE (gate_mount path) (gate_run es)) w = (Inr g, w') \<and> \<not> g_ready g
    \<and> w_location w' = w_location w @ replicate (gate_redirects es) ''/login/''"
proof -
  obtain g1 w1 where m: "gate_mount path w = (Inr g1, w1)" "\<not> g_ready g1" "\<not> g_ready_timer g1" "g_safety_timer g1"
    "w_storage w1 = w_storage w" "w_location w1 = w_location w @ [''/login/'']"
    using assms by (simp add: gate_mount_def gate_effect_def session_defs)
  then have "\<not> truthy (w_storage w1 access_key)" using assms by simp
  from m gate_run_signed_out [OF this m(2,3), of es] show ?thesis by (auto simp: bindE_def gate_redirects_def)
qed

lemma logout_forgets: "\<not> truthy (w_storage (snd (logout w)) access_key)"
  by (simp add: logout_def session_defs)

text \<open>
  Signing out ends the session in this browser: no later request carries a token, no
  telemetry socket is opened, and a gate mounted afterwards sends the visitor to the sign-in page
  and never shows a protected page, whatever timers fire and wherever the visitor navigates.
\<close>

lemma logout_closes_gate:
  fixes w :: "'srv world"
  defines "w1 \<equiv> snd (logout w)"
  shows "with_auth ev (w_storage w1) init = init
    \<and> fst (websocketURL ev w1) = Inr None
    \<and> (\<exists>g w2. (bindE (gate_mount path) (gate_run es)) w1 = (Inr g, w2) \<and> \<not> g_ready g
         \<and> w_location w2 = w_location w1 @ replicate (gate_redirects es) ''/login/'')"
  using gate_signed_out [OF logout_forgets, of path es w] logout_forgets [of w]
  by (simp add: w1_def with_auth_def websocketURL_def readE_def Let_def)

text \<open>With a token the gate opens once its timer fires, and never redirects.\<close>

lemma gate_opens:
  assumes "w_storage w access_key = Some t" "t \<noteq> []"
  shows "\<exists>g. (bindE (gate_mount path) (gate_run [ReadyTimer])) w = (Inr g, w) \<and> gate_open g"
  using assms by (simp add: gate_mount_def gate_effect_def session_defs gate_open_def)

end
