(* ===== verification/Tokens.thy ===== *)
theory Tokens
  imports Session
begin

text \<open>
  The data and the token service of the Go auth service: users and roles
  (\<open>auth-service/internal/domain\<close>), access and refresh tokens
  (\<open>auth-service/internal/service/token_service.go\<close>) with the parts of Go's library they use
  (\<open>strings.Split\<close>, \<open>strings.TrimSpace\<close>, hexadecimal and raw URL base64).

  Signing and parsing of JWTs, UUIDs, bcrypt, SHA-256 and the random source are the fields of
  \<open>auth_params\<close>. Randomness is counted: the \<open>n\<close>-th draw of the process is \<open>ap_uuid n\<close> when a UUID is
  asked for and \<open>ap_random n\<close> when bytes are. Times are milliseconds.
\<close>

section \<open>Go strings and encodings\<close>

fun split_on :: "char \<Rightarrow> string \<Rightarrow> string list" where
  "split_on c [] = [[]]"
| "split_on c (x # xs) = (if x = c then [] # split_on c xs
     else case split_on c xs of [] \<Rightarrow> [[x]] | p # ps \<Rightarrow> (x # p) # ps)"

definition go_space :: "char \<Rightarrow> bool" where
  "go_space c \<longleftrightarrow> char_code c \<in> {9, 10, 11, 12, 13, 32}"

definition TrimSpace :: "string \<Rightarrow> string" where
  "TrimSpace s = rev (dropWhile go_space (rev (dropWhile go_space s)))"

text \<open>\<open>hex.EncodeToString\<close>: two lower-case digits for a byte.\<close>

definition hex_encode :: "nat list \<Rightarrow> string" where
  "hex_encode bs = concat (map (\<lambda>b. [digit_char (b div 16), digit_char (b mod 16)]) bs)"

text \<open>\<open>base64.RawURLEncoding\<close>: no padding; the decoder skips line breaks and ignores trailing bits.\<close>

definition b64_char :: "nat \<Rightarrow> char" where
  "b64_char d = (if d < 26 then char_of (65 + d) else if d < 52 then char_of (71 + d)
     else if d < 62 then char_of (d - 4) else if d = 62 then CHR ''-'' else CHR ''_'')"

definition b64_value :: "char \<Rightarrow> nat option" where
  "b64_value c = (let n = char_code c in
     if 65 \<le> n \<and> n \<le> 90 then Some (n - 65) else if 97 \<le> n \<and> n \<le> 122 then Some (n - 71)
     else if 48 \<le> n \<and> n \<le> 57 then Some (n + 4) else if n = 45 then Some 62
     else if n = 95 then Some 63 else None)"

fun sextets :: "nat list \<Rightarrow> nat list" where
  "sextets (a # b # c # r) = [a div 4, a mod 4 * 16 + b div 16, b mod 16 * 4 + c div 64, c mod 64] @ sextets r"
| "sextets [a, b] = [a div 4, a mod 4 * 16 + b div 16, b mod 16 * 4]"
| "sextets [a] = [a div 4, a mod 4 * 16]"
| "sextets [] = []"

fun octets :: "nat list \<Rightarrow> nat list option" where
  "octets (a # b # c # d # r) = map_option (\<lambda>bs. [a * 4 + b div 16, b mod 16 * 16 + c div 4, c mod 4 * 64 + d] @ bs) (octets r)"
| "octets [a, b, c] = Some [a * 4 + b div 16, b mod 16 * 16 + c div 4]"
| "octets [a, b] = Some [a * 4 + b div 16]"
| "octets [a] = None"
| "octets [] = Some []"

definition b64_encode :: "nat list \<Rightarrow> string" where
  "b64_encode bs = map b64_char (sextets bs)"

definition b64_decode :: "string \<Rightarrow> nat list option" where
  "b64_decode s = (let vs = map b64_value (filter (\<lambda>c. char_code c \<notin> {10, 13}) s) in
     if None \<in> set vs then None else octets (map the vs))"

section \<open>Users and claims\<close>

datatype role = RoleUser | RoleAdmin | RoleService

fun role_text :: "role \<Rightarrow> string" where
  "role_text RoleUser = ''user''"
| "role_text RoleAdmin = ''admin''"
| "role_text RoleService = ''service''"

record user =
  u_id :: string
  u_email :: string
  u_password_hash :: string
  u_full_name :: string
  u_role :: role
  u_is_active :: bool
  u_email_verified :: bool
  u_created_at :: int
  u_updated_at :: int
  u_last_login_at :: "int option"
  u_failed_login_count :: nat
  u_locked_until :: "int option"

record custom_claims =
  cl_email :: string
  cl_role :: string
  cl_session_id :: string
  cl_subject :: string
  cl_issuer :: string
  cl_audience :: "string list"
  cl_issued_at :: int
  cl_expires_at :: int
  cl_not_before :: int

text \<open>The reply of a login; the dashboard reads the first two fields of its JSON form.\<close>

record go_token_pair = token_pair +
  expires_in :: int

text \<open>
  What the service calls and what it is configured with. \<open>ap_parse_claims\<close> is
  \<open>jwt.ParseWithClaims\<close> with the service's key and the options of \<open>ValidateAccessToken\<close>: issuer,
  audience and time.
\<close>

record auth_params =
  ap_sha256 :: "string \<Rightarrow> nat list"
  ap_uuid :: "nat \<Rightarrow> string"
  ap_parse_uuid :: "string \<Rightarrow> string option"
  ap_random :: "nat \<Rightarrow> nat list option"
  ap_sign :: "custom_claims \<Rightarrow> string option"
  ap_parse_claims :: "string \<Rightarrow> string \<Rightarrow> int \<Rightarrow> string \<Rightarrow> custom_claims option"
  ap_bcrypt :: "nat \<Rightarrow> string \<Rightarrow> string option"
  ap_compare :: "string \<Rightarrow> string \<Rightarrow> bool"
  ap_parse_ip :: "string \<Rightarrow> string option"
  ap_user_json :: "user \<Rightarrow> string"
  ap_public_key :: "string option"
  ap_accessTTL :: int
  ap_refreshTTL :: int
  ap_issuer :: string
  ap_audience :: string

section \<open>The token service\<close>

text \<open>\<open>jwt.NewNumericDate\<close> keeps whole seconds.\<close>

definition numeric_date :: "int \<Rightarrow> int" where
  "numeric_date t = t - t mod 1000"

definition claims_of :: "auth_params \<Rightarrow> int \<Rightarrow> user \<Rightarrow> string \<Rightarrow> custom_claims" where
  "claims_of P now user sessionID = \<lparr>cl_email = u_email user, cl_role = role_text (u_role user),
     cl_session_id = sessionID, cl_subject = u_id user, cl_issuer = ap_issuer P, cl_audience = [ap_audience P],
     cl_issued_at = numeric_date now, cl_expires_at = numeric_date (now + ap_accessTTL P),
     cl_not_before = numeric_date now\<rparr>"

text \<open>With the number of the next draw, and the number after the call.\<close>

definition GenerateTokenPair :: "auth_params \<Rightarrow> int \<Rightarrow> user \<Rightarrow> string \<Rightarrow> nat \<Rightarrow> go_token_pair option \<times> nat" where
  "GenerateTokenPair P now user sessionID n =
     (case ap_sign P (claims_of P now user sessionID) of None \<Rightarrow> (None, n)
      | Some accessToken \<Rightarrow>
        (case ap_random P n of None \<Rightarrow> (None, n + 1)
         | Some secret \<Rightarrow> (Some \<lparr>access_token = accessToken, refresh_token = sessionID @ ''.'' @ b64_encode secret,
             expires_in = ap_accessTTL P div 1000\<rparr>, n + 1)))"

definition ValidateAccessToken :: "auth_params \<Rightarrow> int \<Rightarrow> string \<Rightarrow> custom_claims option" where
  "ValidateAccessToken P now token = ap_parse_claims P (ap_issuer P) (ap_audience P) now token"

definition ValidateRefreshToken :: "auth_params \<Rightarrow> string \<Rightarrow> string option" where
  "ValidateRefreshToken P token =
     (case split_on (CHR ''.'') token of
        [sid, sec] \<Rightarrow> (case ap_parse_uuid P sid of None \<Rightarrow> None
          | Some sessionID \<Rightarrow> (case b64_decode sec of None \<Rightarrow> None
            | Some secret \<Rightarrow> if length secret \<noteq> 32 then None else Some sessionID))
      | _ \<Rightarrow> None)"

section \<open>What is asked of the libraries\<close>

text \<open>A SHA-256 digest has 32 bytes.\<close>

definition sha_ok :: "auth_params \<Rightarrow> bool" where
  "sha_ok P \<longleftrightarrow> (\<forall>s. length (ap_sha256 P s) = 32)"

text \<open>
  Generated UUIDs print without a dot, parse to themselves, and are never drawn twice; the random
  source fills the 32 bytes it is given.
\<close>

definition uuid_ok :: "auth_params \<Rightarrow> bool" where
  "uuid_ok P \<longleftrightarrow> (\<forall>n. ap_parse_uuid P (ap_uuid P n) = Some (ap_uuid P n) \<and> CHR ''.'' \<notin> set (ap_uuid P n)
     \<and> ap_uuid P n \<noteq> [] \<and> (\<forall>c \<in> set (ap_uuid P n). \<not> go_space c)) \<and> (\<forall>m n. ap_uuid P m = ap_uuid P n \<longrightarrow> m = n)"

definition random_ok :: "auth_params \<Rightarrow> bool" where
  "random_ok P \<longleftrightarrow> (\<forall>n. \<exists>bs. ap_random P n = Some bs \<and> length bs = 32 \<and> (\<forall>b \<in> set bs. b < 256))"

text \<open>
  Signing succeeds and gives tokens without white space; a signed token parses to its claims from its
  start until it expires, when issuer and audience are the expected ones.
\<close>

definition word_token :: "string \<Rightarrow> bool" where
  "word_token t \<longleftrightarrow> t \<noteq> [] \<and> (\<forall>c \<in> set t. \<not> go_space c)"

definition jwt_ok :: "auth_params \<Rightarrow> bool" where
  "jwt_ok P \<longleftrightarrow> (\<forall>c. \<exists>t. ap_sign P c = Some t \<and> word_token t
     \<and> (\<forall>iss aud now. ap_parse_claims P iss aud now t =
          (if cl_issuer c = iss \<and> aud \<in> set (cl_audience c) \<and> cl_not_before c \<le> now \<and> now < cl_expires_at c
           then Some c else None)))"

text \<open>
  bcrypt refuses passwords of more than 72 bytes; otherwise its hash is printable text of at most
  255 characters that the password matches.
\<close>

definition pg_text :: "string \<Rightarrow> bool" where
  "pg_text s \<longleftrightarrow> length s \<le> 255 \<and> CHR 0x00 \<notin> set s"

definition bcrypt_ok :: "auth_params \<Rightarrow> bool" where
  "bcrypt_ok P \<longleftrightarrow> (\<forall>n s. (72 < length s \<longrightarrow> ap_bcrypt P n s = None)
     \<and> (length s \<le> 72 \<longrightarrow> (\<exists>h. ap_bcrypt P n s = Some h \<and> pg_text h \<and> ap_compare P h s)))"

section \<open>Round trips\<close>

lemma split_on_free: "c \<notin> set xs \<Longrightarrow> split_on c xs = [xs]"
  by (induction xs) auto

lemma split_on_append: "c \<notin> set xs \<Longrightarrow> split_on c (xs @ c # ys) = xs # split_on c ys"
  by (induction xs) auto

lemma b64_char_code: "d < 64 \<Longrightarrow> char_code (b64_char d) =
    (if d < 26 then 65 + d else if d < 52 then 71 + d else if d < 62 then d - 4 else if d = 62 then 45 else 95)"
  by (simp add: b64_char_def char_code_def of_char_of)

lemma b64_table:
  assumes "d < 64"
  shows "b64_value (b64_char d) = Some d" "b64_char d \<noteq> CHR ''.''" "char_code (b64_char d) \<notin> {10, 13}"
proof -
  note c = b64_char_code [OF assms]
  show "b64_value (b64_char d) = Some d"
    unfolding b64_value_def Let_def c using assms by auto
  have "char_code (b64_char d) \<noteq> 46" "char_code (b64_char d) \<notin> {10, 13}" unfolding c using assms by auto
  moreover have "char_code (CHR ''.'') = 46" by (simp add: char_code_def)
  ultimately show "b64_char d \<noteq> CHR ''.''" "char_code (b64_char d) \<notin> {10, 13}" by metis+
qed

lemma sextets_bound: "\<forall>b \<in> set bs. b < 256 \<Longrightarrow> \<forall>d \<in> set (sextets bs). d < 64"
  by (induction bs rule: sextets.induct) auto

lemma div_mod_merge: "y < (k::nat) \<Longrightarrow> (x * k + y) div k = x \<and> (x * k + y) mod k = y"
  by simp

lemma octets_sextets: "\<forall>b \<in> set bs. b < 256 \<Longrightarrow> octets (sextets bs) = Some bs"
proof (induction bs rule: sextets.induct)
  case (1 a b c r)
  have "a < 256" "b < 256" "c < 256" using 1 by auto
  then have "b div 16 < 16" "c div 64 < 4" by auto
  with 1 div_mod_merge [of "b div 16" 16 "a mod 4"] div_mod_merge [of "c div 64" 4 "b mod 16"]
  show ?case by simp
next
  case (2 a b)
  then have "b div 16 < 16" by auto
  with div_mod_merge [of "b div 16" 16 "a mod 4"] show ?case by simp
qed simp_all

lemma b64_roundtrip: "\<forall>b \<in> set bs. b < 256 \<Longrightarrow> b64_decode (b64_encode bs) = Some bs"
proof -
  assume bytes: "\<forall>b \<in> set bs. b < 256"
  note t = b64_table [OF bspec [OF sextets_bound [OF bytes]]]
  have "filter (\<lambda>c. char_code c \<notin> {10, 13}) (b64_encode bs) = b64_encode bs"
    unfolding filter_id_conv b64_encode_def using t(3) by auto
  moreover have "map b64_value (b64_encode bs) = map Some (sextets bs)"
    using t(1) by (simp add: b64_encode_def)
  ultimately show ?thesis
    using octets_sextets [OF bytes] by (auto simp: b64_decode_def comp_def)
qed

lemma b64_no_dot:
  assumes "\<forall>b \<in> set bs. b < 256"
  shows "CHR ''.'' \<notin> set (b64_encode bs)"
  using b64_table(2) [OF bspec [OF sextets_bound [OF assms]]]
  by (metis b64_encode_def imageE set_map)

lemma length_hex_encode: "length (hex_encode bs) = 2 * length bs"
  by (induction bs) (auto simp: hex_encode_def)

lemma refresh_token_validates:
  assumes "uuid_ok P" "\<forall>b \<in> set secret. b < 256" "length secret = 32"
  shows "ValidateRefreshToken P (ap_uuid P k @ ''.'' @ b64_encode secret) = Some (ap_uuid P k)"
  using assms split_on_append [of "CHR ''.''" "ap_uuid P k"] split_on_free [OF b64_no_dot [OF assms(2)]]
  by (simp add: ValidateRefreshToken_def uuid_ok_def b64_roundtrip)

section \<open>A library that meets the requirements\<close>

text \<open>
  A stand-in for the libraries, on which the hypotheses above hold: claims are signed as their
  fields in hexadecimal and decimal, separated by dots.
\<close>

definition digit_of :: "char \<Rightarrow> nat" where
  "digit_of c = (if char_code c < 58 then char_code c - 48 else char_code c - 87)"

definition undec :: "string \<Rightarrow> nat" where
  "undec s = digits_value 10 (map digit_of s)"

definition int_field :: "int \<Rightarrow> string" where
  "int_field i = (if i < 0 then ''n'' @ dec (nat (- i)) else ''p'' @ dec (nat i))"

definition un_int :: "string \<Rightarrow> int" where
  "un_int s = (if hd s = CHR ''n'' then - int (undec (tl s)) else int (undec (tl s)))"

definition text_field :: "string \<Rightarrow> string" where
  "text_field s = hex_encode (map char_code s)"

fun un_text :: "string \<Rightarrow> string" where
  "un_text (a # b # r) = char_of (16 * digit_of a + digit_of b) # un_text r"
| "un_text _ = []"

definition sample_sign :: "custom_claims \<Rightarrow> string" where
  "sample_sign c = concat (map (\<lambda>f. f @ ''.'')
     ([text_field (cl_email c), text_field (cl_role c), text_field (cl_session_id c), text_field (cl_subject c),
       text_field (cl_issuer c), int_field (cl_issued_at c), int_field (cl_expires_at c), int_field (cl_not_before c)]
      @ map text_field (cl_audience c)))"

fun sample_fields :: "string list \<Rightarrow> custom_claims option" where
  "sample_fields (e # r # s # u # i # a # x # n # aud) = Some \<lparr>cl_email = un_text e, cl_role = un_text r,
     cl_session_id = un_text s, cl_subject = un_text u, cl_issuer = un_text i, cl_audience = map un_text (butlast aud),
     cl_issued_at = un_int a, cl_expires_at = un_int x, cl_not_before = un_int n\<rparr>"
| "sample_fields _ = None"

definition sample_parse :: "string \<Rightarrow> string \<Rightarrow> int \<Rightarrow> string \<Rightarrow> custom_claims option" where
  "sample_parse iss aud now t = (case sample_fields (split_on (CHR ''.'') t) of None \<Rightarrow> None
     | Some c \<Rightarrow> if cl_issuer c = iss \<and> aud \<in> set (cl_audience c) \<and> cl_not_before c \<le> now \<and> now < cl_expires_at c
         then Some c else None)"

definition sample_params :: auth_params where
  "sample_params = \<lparr>ap_sha256 = (\<lambda>s. replicate 32 (length s mod 256)), ap_uuid = (\<lambda>n. ''u'' @ dec n),
     ap_parse_uuid = Some, ap_random = (\<lambda>n. Some (replicate 32 (n mod 256))), ap_sign = (\<lambda>c. Some (sample_sign c)),
     ap_parse_claims = sample_parse,
     ap_bcrypt = (\<lambda>n s. if length s \<le> 72 then Some (''$'' @ text_field s) else None),
     ap_compare = (\<lambda>h s. h = ''$'' @ text_field s),
     ap_parse_ip = Some, ap_user_json = u_email, ap_public_key = Some ''PEM'', ap_accessTTL = 900000,
     ap_refreshTTL = 604800000, ap_issuer = ''sentinel-auth-service'', ap_audience = ''sentinel-api''\<rparr>"

lemma digit_of_digit_char: "d < 36 \<Longrightarrow> digit_of (digit_char d) = d"
  by (simp add: digit_of_def digit_char_code)

lemma undec_dec: "undec (dec n) = n"
proof -
  have "digit_of (digit_char d) = d" if "d \<in> set (radix_digits 10 n)" for d
    using radix_digits_bound [OF _ that] by (simp add: digit_of_digit_char)
  then have "map digit_of (dec n) = radix_digits 10 n" by (simp add: dec_def radix_string_def map_idI)
  then show ?thesis by (simp add: undec_def digits_value_radix_digits)
qed

lemma un_int_field: "un_int (int_field i) = i"
  by (simp add: un_int_def int_field_def undec_dec)

lemma un_text_field: "un_text (text_field s) = s"
proof (induction s)
  case (Cons c s)
  have "char_code c div 16 < 36" "char_code c mod 16 < 36" using char_code_bound [of c] by auto
  moreover have "char_of (16 * (char_code c div 16) + char_code c mod 16) = c" by (simp add: char_code_def)
  ultimately show ?case using Cons by (simp add: text_field_def hex_encode_def digit_of_digit_char)
qed (simp add: text_field_def hex_encode_def)

lemma digit_char_plain: "d < 16 \<Longrightarrow> 48 \<le> char_code (digit_char d)"
  by (simp add: digit_char_code)

lemma text_field_plain: "\<forall>c \<in> set (text_field s). 48 \<le> char_code c"
proof (induction s)
  case (Cons c s)
  have "char_code c div 16 < 16" "char_code c mod 16 < 16" using char_code_bound [of c] by auto
  from digit_char_plain [OF this(1)] digit_char_plain [OF this(2)] Cons show ?case
    by (simp add: text_field_def hex_encode_def)
qed (simp add: text_field_def hex_encode_def)

lemma int_field_plain: "\<forall>c \<in> set (int_field i). 48 \<le> char_code c"
proof -
  have "48 \<le> char_code (CHR ''n'')" "48 \<le> char_code (CHR ''p'')" by (simp_all add: char_code_def)
  then show ?thesis using radix_string_code [of 10] by (auto simp: int_field_def dec_def)
qed

lemma plain_no_dot: "\<forall>c \<in> set s. 48 \<le> char_code c \<Longrightarrow> CHR ''.'' \<notin> set s \<and> CHR 0x00 \<notin> set s"
  by (auto simp: char_code_def)

lemma split_on_fields:
  "\<forall>f \<in> set fs. c \<notin> set f \<Longrightarrow> split_on c (concat (map (\<lambda>f. f @ [c]) fs)) = fs @ [[]]"
  by (induction fs) (auto simp: split_on_append)

lemma sample_fields_sign: "sample_fields (split_on (CHR ''.'') (sample_sign c)) = Some c"
proof -
  let ?fs = "[text_field (cl_email c), text_field (cl_role c), text_field (cl_session_id c), text_field (cl_subject c),
       text_field (cl_issuer c), int_field (cl_issued_at c), int_field (cl_expires_at c), int_field (cl_not_before c)]
      @ map text_field (cl_audience c)"
  have "\<forall>f \<in> set ?fs. CHR ''.'' \<notin> set f"
    using plain_no_dot [OF text_field_plain] plain_no_dot [OF int_field_plain] by auto
  from split_on_fields [OF this] show ?thesis
    by (simp add: sample_sign_def un_text_field un_int_field comp_def del: split_on.simps)
qed

lemma sample_sign_word: "word_token (sample_sign c)"
proof -
  have "\<not> go_space x" if "46 \<le> char_code x" for x using that by (auto simp: go_space_def)
  moreover have "46 \<le> char_code x" if "x \<in> set (text_field t) \<or> x \<in> set (int_field i)" for x t i
    using that text_field_plain int_field_plain by fastforce
  moreover have "46 \<le> char_code (CHR ''.'')" by (simp add: char_code_def)
  ultimately show ?thesis by (auto simp: word_token_def sample_sign_def)
qed

lemma text_field_pg: "length s \<le> 72 \<Longrightarrow> pg_text (''$'' @ text_field s)"
proof -
  assume "length s \<le> 72"
  moreover have "CHR 0x00 \<notin> set (text_field s)" using plain_no_dot [OF text_field_plain] by simp
  ultimately show ?thesis by (simp add: pg_text_def text_field_def length_hex_encode)
qed

lemma sample_params_ok:
  "sha_ok sample_params" "uuid_ok sample_params" "random_ok sample_params" "jwt_ok sample_params"
  "bcrypt_ok sample_params"
proof -
  show "bcrypt_ok sample_params" using text_field_pg by (simp add: bcrypt_ok_def sample_params_def)
  show "sha_ok sample_params" "random_ok sample_params" by (simp_all add: sha_ok_def random_ok_def sample_params_def)
  have "\<not> go_space x" if "x \<in> set (dec n)" for x n
    using radix_string_code [of 10 x n] that by (auto simp: dec_def go_space_def)
  moreover have "\<not> go_space (CHR ''u'')" by (simp add: go_space_def char_code_def)
  ultimately show "uuid_ok sample_params" using dec_no_dot dec_inj by (auto simp: uuid_ok_def sample_params_def)
  show "jwt_ok sample_params"
    using sample_sign_word by (simp add: jwt_ok_def sample_params_def sample_parse_def sample_fields_sign)
qed

section \<open>Issued tokens read back\<close>

text \<open>
  C14: a token pair issued for a session reads back: the service that generated it accepts the
  access token with the user's identity until the access time has passed and not after, and reads
  the session id out of the refresh token.
\<close>

theorem token_pair_roundtrip:
  assumes "jwt_ok P" "uuid_ok P" "random_ok P" and "sid = ap_uuid P k"
  shows "\<exists>pair. GenerateTokenPair P now user sid n = (Some pair, n + 1)
    \<and> ValidateRefreshToken P (refresh_token pair) = Some sid
    \<and> (\<forall>t \<ge> now. ValidateAccessToken P t (access_token pair)
        = (if t < numeric_date (now + ap_accessTTL P) then Some (claims_of P now user sid) else None))"
proof -
  obtain t where t: "ap_sign P (claims_of P now user sid) = Some t"
    "\<And>iss aud u. ap_parse_claims P iss aud u t =
       (if ap_issuer P = iss \<and> aud = ap_audience P \<and> numeric_date now \<le> u \<and> u < numeric_date (now + ap_accessTTL P)
        then Some (claims_of P now user sid) else None)"
    using assms(1) unfolding jwt_ok_def by (auto simp: claims_of_def dest!: spec [of _ "claims_of P now user sid"])
  obtain bs where b: "ap_random P n = Some bs" "length bs = 32" "\<forall>b \<in> set bs. b < 256"
    using assms(3) by (auto simp: random_ok_def)
  have "numeric_date now \<le> now" by (simp add: numeric_date_def)
  with t b refresh_token_validates [OF assms(2) b(3,2)] assms(4) show ?thesis
    by (simp add: GenerateTokenPair_def ValidateAccessToken_def)
qed

definition sample_user :: user where
  "sample_user = \<lparr>u_id = ''u7'', u_email = ''ann@example.org'', u_password_hash = ''$'' @ text_field ''Correct-Horse9'',
     u_full_name = ''Ann'', u_role = RoleAdmin, u_is_active = True, u_email_verified = False, u_created_at = 0,
     u_updated_at = 0, u_last_login_at = None, u_failed_login_count = 0, u_locked_until = None\<rparr>"

theorem token_pair_roundtrip_witness:
  "\<exists>pair. GenerateTokenPair sample_params 5000 sample_user (ap_uuid sample_params 3) 4 = (Some pair, 5)
    \<and> ValidateRefreshToken sample_params (refresh_token pair) = Some (ap_uuid sample_params 3)
    \<and> ValidateAccessToken sample_params 905000 (access_token pair) = None"
  using token_pair_roundtrip [OF sample_params_ok(4,2,3) refl, of 5000 sample_user 3 4]
  by (auto simp: sample_params_def numeric_date_def)

end
