(* ===== verification/Api.thy ===== *)
theory Api
  imports Session Demo Toasts
begin

text \<open>
  The typed client of \<open>lib/api.ts\<close>: one function per endpoint, with the error each status is
  turned into and the simulated data the analytics functions fall back to. The servers are the
  record \<open>api\<close> of endpoints.
\<close>

section \<open>Types\<close>

record fraud_rule =
  fr_id :: string
  fr_rule_id :: string
  fr_name :: string
  fr_description :: string
  fr_expression :: string
  fr_score_contribution :: rat
  fr_action :: string
  fr_is_enabled :: bool
  fr_priority :: rat
  fr_hit_count :: int
  fr_last_triggered_at :: "iso option"
  fr_created_at :: iso

record current_user =
  cu_user_id :: string
  cu_email :: string
  cu_role :: string

record overview =
  ov_total_events :: int
  ov_fraud_events :: int
  ov_fraud_rate :: rat

text \<open>What a write of a rule answers with: a rule, or an object with an optional \<open>detail\<close>.\<close>

datatype rule_reply = RuleReply fraud_rule | DetailReply "string option"

record 'srv api =
  ep_refresh :: "('srv, token_pair) endpoint"
  ep_login :: "('srv, token_pair) endpoint"
  ep_register :: "('srv, string) endpoint"
  ep_public_key :: "('srv, string) endpoint"
  ep_rules :: "('srv, fraud_rule list) endpoint"
  ep_features :: "('srv, string list) endpoint"
  ep_rule :: "('srv, rule_reply) endpoint"
  ep_me :: "('srv, current_user) endpoint"
  ep_fraud_rate :: "('srv, rate_point list) endpoint"
  ep_geo :: "('srv, (string \<times> int) list) endpoint"
  ep_top_threats :: "('srv, (string \<times> int) list) endpoint"
  ep_overview :: "('srv, overview) endpoint"
  ep_events :: "('srv, analytics_event list) endpoint"

section \<open>Rules\<close>

definition failed_with :: "string \<Rightarrow> nat \<Rightarrow> exn" where
  "failed_with what status = JsError (what @ '' ('' @ dec status @ '')'')"

definition listRules :: "env \<Rightarrow> 'srv api \<Rightarrow> ('srv world, fraud_rule list) comp" where
  "listRules ev api =
     bindE (apiFetch ev (ep_refresh api) (ep_rules api) (get_request (apiURL ev ''/api/v1/rules/''))) (\<lambda>res.
     if \<not> ok res then throwE (failed_with ''Failed to load rules'' (rs_status res)) else json_of res)"

definition listFeatures :: "env \<Rightarrow> 'srv api \<Rightarrow> ('srv world, string list) comp" where
  "listFeatures ev api =
     bindE (apiFetch ev (ep_refresh api) (ep_features api)
       (get_request (apiURL ev ''/api/v1/rules/features''))) (\<lambda>res.
     if \<not> ok res then throwE (failed_with ''Failed to load features'' (rs_status res)) else json_of res)"

text \<open>\<open>body.detail ?? "Invalid rule expression"\<close>; a rule object has no \<open>detail\<close>.\<close>

fun detail_of :: "rule_reply \<Rightarrow> string" where
  "detail_of (DetailReply d) = default d ''Invalid rule expression''"
| "detail_of (RuleReply r) = ''Invalid rule expression''"

definition createRule :: "env \<Rightarrow> 'srv api \<Rightarrow> rule_input \<Rightarrow> ('srv world, rule_reply) comp" where
  "createRule ev api rule =
     bindE (apiFetch ev (ep_refresh api) (ep_rule api)
       (json_request ''POST'' (apiURL ev ''/api/v1/rules/'') (RuleBody rule))) (\<lambda>res.
     if rs_status res = 403 then throwE (JsError ''Admin role required to create rules'')
     else if rs_status res = 422 then bindE (json_of res) (\<lambda>body. throwE (JsError (detail_of body)))
     else if \<not> ok res then throwE (failed_with ''Failed to create rule'' (rs_status res))
     else json_of res)"

definition rule_url :: "env \<Rightarrow> string \<Rightarrow> string" where
  "rule_url ev ruleId = apiURL ev (''/api/v1/rules/'' @ encodeURIComponent ruleId)"

definition updateRule :: "env \<Rightarrow> 'srv api \<Rightarrow> string \<Rightarrow> rule_input \<Rightarrow> ('srv world, rule_reply) comp" where
  "updateRule ev api ruleId rule =
     bindE (apiFetch ev (ep_refresh api) (ep_rule api)
       (json_request ''PUT'' (rule_url ev ruleId) (RuleBody rule))) (\<lambda>res.
     if rs_status res = 403 then throwE (JsError ''Admin role required to update rules'')
     else if rs_status res = 422 then bindE (json_of res) (\<lambda>body. throwE (JsError (detail_of body)))
     else if \<not> ok res then throwE (failed_with ''Failed to update rule'' (rs_status res))
     else json_of res)"

definition deleteRule :: "env \<Rightarrow> 'srv api \<Rightarrow> string \<Rightarrow> ('srv world, unit) comp" where
  "deleteRule ev api ruleId =
     bindE (apiFetch ev (ep_refresh api) (ep_rule api)
       ((get_request (rule_url ev ruleId))\<lparr>rq_method := ''DELETE''\<rparr>)) (\<lambda>res.
     if rs_status res = 403 then throwE (JsError ''Admin role required to delete rules'')
     else if \<not> ok res \<and> rs_status res \<noteq> 204
     then throwE (failed_with ''Failed to delete rule'' (rs_status res)) else returnE ())"

section \<open>The current user and the rollups\<close>

definition fetchMe :: "env \<Rightarrow> 'srv api \<Rightarrow> ('srv world, current_user option) comp" where
  "fetchMe ev api = catchE
     (bindE (apiFetch ev (ep_refresh api) (ep_me api) (get_request (apiURL ev ''/api/v1/auth/me''))) (\<lambda>res.
        if \<not> ok res then returnE None else bindE (json_of res) (\<lambda>u. returnE (Some u))))
     (\<lambda>_. returnE None)"

text \<open>The common shape: an empty rollup on an HTTP error, simulated data when anything throws.\<close>

definition fetch_rollup :: "env \<Rightarrow> 'srv api \<Rightarrow> ('srv, 'a list) endpoint \<Rightarrow> string \<Rightarrow> 'a list
    \<Rightarrow> ('srv world, 'a list) comp" where
  "fetch_rollup ev api ep path fallback = catchE
     (bindE (apiFetch ev (ep_refresh api) ep (get_request (apiURL ev path))) (\<lambda>res.
        if \<not> ok res then returnE [] else json_of res))
     (\<lambda>_. returnE fallback)"

definition fetchFraudRate :: "(int \<Rightarrow> nat) \<Rightarrow> int \<Rightarrow> env \<Rightarrow> 'srv api \<Rightarrow> ('srv world, rate_point list) comp" where
  "fetchFraudRate hours now ev api =
     fetch_rollup ev api (ep_fraud_rate api) ''/api/v1/analytics/fraud-rate'' (demoFraudRate hours now)"

definition fetchGeo :: "env \<Rightarrow> 'srv api \<Rightarrow> ('srv world, (string \<times> int) list) comp" where
  "fetchGeo ev api = fetch_rollup ev api (ep_geo api) ''/api/v1/analytics/geo'' demoGeo"

definition fetchTopThreats :: "env \<Rightarrow> 'srv api \<Rightarrow> ('srv world, (string \<times> int) list) comp" where
  "fetchTopThreats ev api =
     fetch_rollup ev api (ep_top_threats api) ''/api/v1/analytics/top-threats'' demoTopThreats"

section \<open>Pages: a world, notifications, and state of their own\<close>

record 'srv page =
  pg_world :: "'srv world"
  pg_toasts :: toast_state

definition on_world :: "('srv world, 'a) comp \<Rightarrow> (('srv, 'm) page_scheme, 'a) comp" where
  "on_world m s = (case m (pg_world s) of (r, w) \<Rightarrow> (r, s\<lparr>pg_world := w\<rparr>))"

definition show_toast :: "toast_kind \<Rightarrow> string \<Rightarrow> string \<Rightarrow> (('srv, 'm) page_scheme, unit) comp" where
  "show_toast kind title msg = modifyE (\<lambda>s. s\<lparr>pg_toasts := push_toast
     \<lparr>ti_kind = kind, ti_title = title, ti_message = Some msg, ti_duration = None\<rparr> (pg_toasts s)\<rparr>)"

text \<open>\<open>try ... finally\<close> with an infallible final part.\<close>

definition finallyE :: "('s, 'a) comp \<Rightarrow> ('s \<Rightarrow> 's) \<Rightarrow> ('s, 'a) comp" where
  "finallyE m f s = (case m s of (r, s') \<Rightarrow> (r, f s'))"

section \<open>What the functions return\<close>

text \<open>
  The rollup functions never throw: an HTTP error gives an empty rollup, and the simulated one
  is used exactly when a request was rejected or a body did not decode.
\<close>

lemma fetch_rollup_total:
  "\<exists>rows. fst (fetch_rollup ev api ep path fallback w) = Inr rows
    \<and> (case fst (apiFetch ev (ep_refresh api) ep (get_request (apiURL ev path)) w) of
         Inl e \<Rightarrow> rows = fallback
       | Inr res \<Rightarrow> if \<not> ok res then rows = []
           else (case rs_json res of Inl e \<Rightarrow> rows = fallback | Inr body \<Rightarrow> rows = body))"
  by (cases "apiFetch ev (ep_refresh api) ep (get_request (apiURL ev path)) w")
    (auto simp: fetch_rollup_def comp_defs json_of_def split: sum.splits)

text \<open>
  The outcome of creating a rule, on every status: missing rights and rejected expressions get
  their own message, other failures name the status, and a rule is reported as created only for a
  2xx answer.
\<close>

lemma createRule_outcome:
  assumes "fst (apiFetch ev (ep_refresh api) (ep_rule api)
      (json_request ''POST'' (apiURL ev ''/api/v1/rules/'') (RuleBody rule)) w) = Inr res"
  shows "case fst (createRule ev api rule w) of
      Inr reply \<Rightarrow> 200 \<le> rs_status res \<and> rs_status res < 300 \<and> rs_json res = Inr reply
    | Inl e \<Rightarrow> (rs_status res = 403 \<and> e = JsError ''Admin role required to create rules'')
        \<or> (rs_status res = 422 \<and> (\<exists>d. rs_json res = Inr (DetailReply (Some d)) \<and> e = JsError d))
        \<or> (rs_status res = 422 \<and> e = JsError ''Invalid rule expression'')
        \<or> rs_json res = Inl e
        \<or> (\<not> ok res \<and> e = JsError (''Failed to create rule ('' @ dec (rs_status res) @ '')''))"
proof -
  obtain w' where "apiFetch ev (ep_refresh api) (ep_rule api)
      (json_request ''POST'' (apiURL ev ''/api/v1/rules/'') (RuleBody rule)) w = (Inr res, w')"
    using assms by (metis prod.collapse)
  then have *: "createRule ev api rule w = (if rs_status res = 403
      then throwE (JsError ''Admin role required to create rules'')
      else if rs_status res = 422 then bindE (json_of res) (\<lambda>body. throwE (JsError (detail_of body)))
      else if \<not> ok res then throwE (failed_with ''Failed to create rule'' (rs_status res))
      else json_of res) w'"
    by (simp add: createRule_def bindE_def)
  show ?thesis
  proof (cases "rs_json res")
    case (Inl e)
    then show ?thesis unfolding * by (auto simp: comp_defs json_of_def failed_with_def)
  next
    case (Inr reply)
    have "detail_of reply = ''Invalid rule expression'' \<or> (\<exists>d. reply = DetailReply (Some d) \<and> detail_of reply = d)"
      by (cases reply rule: detail_of.cases) (auto simp: default_def split: option.split)
    with Inr show ?thesis unfolding * by (auto simp: comp_defs json_of_def failed_with_def ok_def)
  qed
qed

text \<open>Servers that answer 404 to everything, for examples.\<close>

definition not_found :: "('srv, 'b) endpoint" where
  "not_found rq st = (Inr \<lparr>rs_status = 404, rs_json = Inl JsOther\<rparr>, st)"

definition empty_api :: "unit api" where
  "empty_api = \<lparr>ep_refresh = not_found, ep_login = not_found, ep_register = not_found,
     ep_public_key = not_found, ep_rules = not_found, ep_features = not_found, ep_rule = not_found,
     ep_me = not_found, ep_fraud_rate = not_found, ep_geo = not_found, ep_top_threats = not_found,
     ep_overview = not_found, ep_events = not_found\<rparr>"

definition blank_world :: "unit world" where
  "blank_world = \<lparr>w_storage = Map.empty, w_server = (), w_sent = [], w_location = []\<rparr>"

definition local_env :: env where
  "local_env = \<lparr>env_api = None, env_window = Some (''http:'', ''localhost'')\<rparr>"

definition blank_rule_input :: rule_input where
  "blank_rule_input = \<lparr>ri_rule_id = None, ri_name = ''n'', ri_description = None, ri_expression = ''e'',
     ri_score_contribution = 60, ri_action = ''BLOCK'', ri_is_enabled = None, ri_priority = None\<rparr>"

lemma createRule_outcome_witness:
  "fst (createRule local_env (empty_api\<lparr>ep_rule := \<lambda>rq st. (Inr \<lparr>rs_status = 422,
      rs_json = Inr (DetailReply (Some ''bad''))\<rparr>, st)\<rparr>) blank_rule_input blank_world)
    = Inl (JsError ''bad'')
   \<and> (422::nat) \<noteq> 403"
proof -
  let ?res = "\<lparr>rs_status = 422, rs_json = Inr (DetailReply (Some ''bad''))\<rparr>"
  let ?api = "empty_api\<lparr>ep_rule := \<lambda>rq st. (Inr ?res, st)\<rparr>"
  have "fst (apiFetch local_env (ep_refresh ?api) (ep_rule ?api)
      (json_request ''POST'' (apiURL local_env ''/api/v1/rules/'') (RuleBody blank_rule_input)) blank_world) = Inr ?res"
    by (simp add: apiFetch_def bindE_def send_auth_eq do_fetch_world returnE_def)
  from createRule_outcome [OF this] show ?thesis
    by (simp add: createRule_def bindE_def apiFetch_def send_auth_eq do_fetch_world returnE_def
        json_of_def throwE_def)
qed

end
