(* ===== verification/Login.thy ===== *)
theory Login
  imports Api
begin

text \<open>
  \<open>app/login/page.tsx\<close>: the probe that decides between real and demo sign-in, the password policy
  meter and the submission of the form; with the policy the auth service enforces
  (\<open>auth-service/internal/domain/user.go\<close>).
\<close>

section \<open>Where the probe looks\<close>

text \<open>The page's own copy of \<open>getAPIURL\<close> and the base address the probe computes by itself.\<close>

definition login_getAPIURL :: "env \<Rightarrow> string" where
  "login_getAPIURL ev = (let c = configuredAPIURL ev in
     if c \<noteq> [] \<and> c \<noteq> localhost_api then c
     else case env_window ev of
       None \<Rightarrow> if c \<noteq> [] then c else localhost_api
     | Some (protocol, hostname) \<Rightarrow>
         if str_includes hostname ''-3000.'' then protocol @ ''//'' @ replace_first hostname ''-3000.'' ''-8080.''
         else protocol @ ''//'' @ hostname @ '':8080'')"

definition probe_base :: "env \<Rightarrow> string" where
  "probe_base ev = (let api = configuredAPIURL ev in
     if api \<noteq> [] \<and> api \<noteq> localhost_api then api
     else case env_window ev of
       Some (protocol, hostname) \<Rightarrow> protocol @ ''//'' @ hostname @ '':8080''
     | None \<Rightarrow> localhost_api)"

section \<open>The policy\<close>

definition has_upper :: "string \<Rightarrow> bool" where
  "has_upper s \<longleftrightarrow> list_ex (\<lambda>c. 65 \<le> char_code c \<and> char_code c \<le> 90) s"

definition has_lower :: "string \<Rightarrow> bool" where
  "has_lower s \<longleftrightarrow> list_ex (\<lambda>c. 97 \<le> char_code c \<and> char_code c \<le> 122) s"

definition has_digit :: "string \<Rightarrow> bool" where
  "has_digit s \<longleftrightarrow> list_ex (\<lambda>c. 48 \<le> char_code c \<and> char_code c \<le> 57) s"

text \<open>The character class of the page: punctuation between ! and ~ (quote 34, backslash 92, backquote 96).\<close>

definition special_chars :: "nat list" where
  "special_chars = [33, 64, 35, 36, 37, 94, 38, 42, 40, 41, 95, 43, 45, 61, 91, 93, 123, 125, 59, 39,
     58, 34, 44, 46, 60, 62, 47, 63, 126, 96, 124, 92]"

definition has_special :: "string \<Rightarrow> bool" where
  "has_special s \<longleftrightarrow> list_ex (\<lambda>c. char_code c \<in> set special_chars) s"

record policy =
  po_length :: bool
  po_upper :: bool
  po_lower :: bool
  po_digit :: bool
  po_special :: bool

definition policy_of :: "string \<Rightarrow> policy" where
  "policy_of password = \<lparr>po_length = (12 \<le> length password), po_upper = has_upper password,
     po_lower = has_lower password, po_digit = has_digit password, po_special = has_special password\<rparr>"

definition policyMet :: "policy \<Rightarrow> nat" where
  "policyMet p = length (filter id [po_length p, po_upper p, po_lower p, po_digit p, po_special p])"

datatype login_mode = LoginMode | RegisterMode

definition canSubmit :: "login_mode \<Rightarrow> string \<Rightarrow> bool" where
  "canSubmit mode password \<longleftrightarrow> mode = LoginMode \<or> policyMet (policy_of password) = 5"

text \<open>\<open>ValidatePassword\<close> of the auth service.\<close>

definition server_special :: "string \<Rightarrow> bool" where
  "server_special s \<longleftrightarrow> list_ex (\<lambda>c. \<not> (48 \<le> char_code c \<and> char_code c \<le> 57)
     \<and> \<not> (65 \<le> char_code c \<and> char_code c \<le> 90) \<and> \<not> (97 \<le> char_code c \<and> char_code c \<le> 122)) s"

definition ValidatePassword :: "string \<Rightarrow> bool" where
  "ValidatePassword s \<longleftrightarrow> \<not> length s < 12 \<and> has_upper s \<and> has_lower s \<and> has_digit s \<and> server_special s"

section \<open>The page\<close>

record 'srv login_page = "'srv page" +
  lp_demo :: bool
  lp_mode :: login_mode
  lp_email :: string
  lp_password :: string
  lp_name :: string
  lp_error :: "string option"
  lp_loading :: bool
  lp_cancelled :: bool

definition login_probe :: "env \<Rightarrow> 'srv api \<Rightarrow> ('srv login_page, unit) comp" where
  "login_probe ev api = catchE
     (bindE (on_world (do_fetch (ep_public_key api) (get_request (probe_base ev @ ''/api/v1/auth/public-key'')))) (\<lambda>_.
        modifyE (\<lambda>s. if lp_cancelled s then s else s\<lparr>lp_demo := False\<rparr>)))
     (\<lambda>_. modifyE (\<lambda>s. if lp_cancelled s then s else s\<lparr>lp_demo := True\<rparr>))"

text \<open>
  The demo branch mints local tokens. \<open>reg.text()\<close> is the answer type of the register endpoint,
  empty when it rejects.
\<close>

definition demo_signin :: "nat \<Rightarrow> ('srv login_page, unit) comp" where
  "demo_signin now = bindE (readE lp_email) (\<lambda>email.
     bindE (on_world (setItem access_key (''demo-'' @ dec now))) (\<lambda>_.
     bindE (on_world (setItem refresh_key (''demo-'' @ dec now))) (\<lambda>_.
     bindE (on_world (setItem demo_key (if email \<noteq> [] then email else ''demo@sentinel.io''))) (\<lambda>_.
     bindE (show_toast Info ''Demo mode'' (''Backend offline '' @ emdash @ '' exploring with simulated live telemetry.'')) (\<lambda>_.
     on_world (location_replace ''/''))))))"

definition reg_text :: "string response \<Rightarrow> string" where
  "reg_text r = (case rs_json r of Inl e \<Rightarrow> '''' | Inr t \<Rightarrow> t)"

definition register_step :: "env \<Rightarrow> 'srv api \<Rightarrow> ('srv login_page, unit) comp" where
  "register_step ev api = bindE (readE id) (\<lambda>s.
     bindE (on_world (do_fetch (ep_register api) (json_request ''POST'' (login_getAPIURL ev @ ''/api/v1/auth/register'')
       (Registration (lp_email s) (lp_password s) (lp_name s))))) (\<lambda>reg.
     if ok reg then returnE ()
     else throwE (JsError (if reg_text reg \<noteq> [] then reg_text reg
       else ''Registration failed '' @ emdash @ '' password must be 12+ chars with upper/lower/digit/special''))))"

definition login_step :: "env \<Rightarrow> 'srv api \<Rightarrow> ('srv login_page, unit) comp" where
  "login_step ev api = bindE (readE id) (\<lambda>s.
     bindE (on_world (do_fetch (ep_login api) (json_request ''POST'' (login_getAPIURL ev @ ''/api/v1/auth/login'')
       (Credentials (lp_email s) (lp_password s))))) (\<lambda>res.
     if \<not> ok res then throwE (JsError ''Invalid credentials or unavailable auth service'')
     else bindE (on_world (json_of res)) (\<lambda>pair.
       bindE (on_world (setItem access_key (access_token pair))) (\<lambda>_.
       bindE (on_world (setItem refresh_key (refresh_token pair))) (\<lambda>_.
       bindE (show_toast Success (if lp_mode s = LoginMode then ''Welcome back'' else ''Account created'')
         (''Establishing secure telemetry uplink'' @ ellipsis)) (\<lambda>_.
       on_world (location_replace ''/'')))))))"

definition submit :: "nat \<Rightarrow> env \<Rightarrow> 'srv api \<Rightarrow> ('srv login_page, unit) comp" where
  "submit now ev api =
     bindE (modifyE (\<lambda>s. s\<lparr>lp_loading := True, lp_error := None\<rparr>)) (\<lambda>_.
     finallyE (catchE
       (bindE (readE lp_demo) (\<lambda>demo. if demo then demo_signin now
         else bindE (readE lp_mode) (\<lambda>mode.
           bindE (if mode = RegisterMode then register_step ev api else returnE ()) (\<lambda>_.
           login_step ev api))))
       (\<lambda>cause. let msg = message_or cause ''Authentication failed'' in
          bindE (modifyE (\<lambda>s. s\<lparr>lp_error := Some msg\<rparr>)) (\<lambda>_.
          show_toast Danger ''Authentication failed'' msg)))
       (\<lambda>s. s\<lparr>lp_loading := False\<rparr>))"

definition submit_disabled :: "'srv login_page \<Rightarrow> bool" where
  "submit_disabled s \<longleftrightarrow> lp_loading s \<or> \<not> canSubmit (lp_mode s) (lp_password s)"

definition button_label :: "'srv login_page \<Rightarrow> string" where
  "button_label s = (if lp_loading s
     then (if lp_mode s = LoginMode then ''Authenticating'' else ''Creating account'') @ ellipsis
     else if lp_mode s = LoginMode then ''Sign in'' else ''Create account & sign in'')"

text \<open>The inputs of the form. Switching between sign-in and registration clears the error.\<close>

datatype login_input = SetMode login_mode | SetEmail string | SetPassword string | SetFullName string

fun login_edit :: "login_input \<Rightarrow> 'srv login_page \<Rightarrow> 'srv login_page" where
  "login_edit (SetMode m) s = s\<lparr>lp_mode := m, lp_error := None\<rparr>"
| "login_edit (SetEmail v) s = s\<lparr>lp_email := v\<rparr>"
| "login_edit (SetPassword v) s = s\<lparr>lp_password := v\<rparr>"
| "login_edit (SetFullName v) s = s\<lparr>lp_name := v\<rparr>"

text \<open>The policy meter, shown while registering: the five marks, and the width and colour of the bar.\<close>

definition policy_marks :: "policy \<Rightarrow> (string \<times> bool) list" where
  "policy_marks p = [(''12+ chars'', po_length p), (''Uppercase'', po_upper p), (''Lowercase'', po_lower p),
     (''Digit'', po_digit p), (''Special'', po_special p)]"

definition strength_color :: "nat \<Rightarrow> string" where
  "strength_color met = (if met = 5 then ''emerald'' else if met \<ge> 3 then ''amber'' else ''rose'')"

definition strength_width :: "nat \<Rightarrow> rat" where
  "strength_width met = fl (fl (of_nat met / 5) * 100)"

definition policy_meter :: "'srv login_page \<Rightarrow> ((string \<times> bool) list \<times> string \<times> rat) option" where
  "policy_meter s = (if lp_mode s = RegisterMode
     then let p = policy_of (lp_password s) in Some (policy_marks p, strength_color (policyMet p), strength_width (policyMet p))
     else None)"

definition login_heading :: "'srv login_page \<Rightarrow> string \<times> string" where
  "login_heading s = (if lp_mode s = LoginMode then (''Welcome back'', ''Sign in to the command center'')
     else (''Create your account'', ''The first account created becomes the platform admin''))"

section \<open>The policy and the server\<close>

lemma policyMet_5: "policyMet p = 5 \<longleftrightarrow> po_length p \<and> po_upper p \<and> po_lower p \<and> po_digit p \<and> po_special p"
  by (simp add: policyMet_def)

lemma special_not_alnum:
  "n \<in> set special_chars \<Longrightarrow> \<not> (48 \<le> n \<and> n \<le> 57) \<and> \<not> (65 \<le> n \<and> n \<le> 90) \<and> \<not> (97 \<le> n \<and> n \<le> 122)"
proof -
  have "list_all (\<lambda>n. \<not> (48 \<le> n \<and> n \<le> 57) \<and> \<not> (65 \<le> n \<and> n \<le> 90) \<and> \<not> (97 \<le> n \<and> n \<le> 122)) special_chars"
    by (simp add: special_chars_def)
  then show "n \<in> set special_chars \<Longrightarrow> ?thesis" unfolding list_all_iff by blast
qed

lemma form_password_valid: "canSubmit RegisterMode password \<Longrightarrow> ValidatePassword password"
proof -
  have "server_special password" if "has_special password"
    using that special_not_alnum by (auto simp: has_special_def server_special_def list_ex_iff)
  then show "canSubmit RegisterMode password \<Longrightarrow> ValidatePassword password"
    by (auto simp: canSubmit_def policyMet_5 policy_of_def ValidatePassword_def)
qed

text \<open>
  C22: a password the registration form accepts is never refused as weak by the auth service; the
  converse fails, the page also refuses passwords the service takes, such as one whose only
  special character is a space.
\<close>

theorem policy_implies_server_policy:
  "(canSubmit RegisterMode password \<longrightarrow> ValidatePassword password)
   \<and> ValidatePassword ''Correct Horse 9'' \<and> \<not> canSubmit RegisterMode ''Correct Horse 9''"
proof -
  have "canSubmit RegisterMode password \<longrightarrow> ValidatePassword password" using form_password_valid by blast
  moreover have "ValidatePassword ''Correct Horse 9'' \<and> \<not> canSubmit RegisterMode ''Correct Horse 9''" by code_simp
  ultimately show ?thesis by blast
qed

theorem policy_implies_server_policy_witness: "ValidatePassword ''Correct-Horse9''"
proof -
  have "canSubmit RegisterMode ''Correct-Horse9''" by code_simp
  with policy_implies_server_policy [of "''Correct-Horse9''"] show ?thesis by blast
qed

lemma policyMet_le: "policyMet p \<le> 5"
  unfolding policyMet_def using length_filter_le [of id "[po_length p, po_upper p, po_lower p, po_digit p, po_special p]"] by simp

text \<open>The meter is full exactly when the form can be submitted.\<close>

lemma policy_meter_full:
  assumes "lp_mode s = RegisterMode"
  shows "canSubmit (lp_mode s) (lp_password s) \<longleftrightarrow> (\<exists>marks width. policy_meter s = Some (marks, ''emerald'', width))"
  using assms by (auto simp: canSubmit_def policy_meter_def strength_color_def Let_def)

lemma strength_width_range: "0 \<le> strength_width (policyMet p) \<and> strength_width (policyMet p) \<le> 100"
  using dbl.percent_bounds [of "policyMet p" 5] policyMet_le [of p] by (simp add: strength_width_def)

section \<open>Signing in\<close>

text \<open>What the two requests leave alone: the session and the location, until the login succeeds.\<close>

definition same_session :: "'srv login_page \<Rightarrow> 'srv login_page \<Rightarrow> bool" where
  "same_session s s' \<longleftrightarrow> w_storage (pg_world s') = w_storage (pg_world s)
     \<and> w_location (pg_world s') = w_location (pg_world s) \<and> lp_error s' = lp_error s"

definition granted :: "'srv api \<Rightarrow> token_pair \<Rightarrow> bool" where
  "granted api pair \<longleftrightarrow> (\<exists>rq srv res. fst (ep_login api rq srv) = Inr res \<and> ok res \<and> rs_json res = Inr pair)"

definition signed_in :: "'srv api \<Rightarrow> 'srv login_page \<Rightarrow> 'srv login_page \<Rightarrow> bool" where
  "signed_in api s s' \<longleftrightarrow> w_location (pg_world s') = w_location (pg_world s) @ [''/''] \<and> lp_error s' = lp_error s
     \<and> (\<exists>pair. granted api pair \<and> w_storage (pg_world s') = (w_storage (pg_world s))
          (access_key \<mapsto> access_token pair, refresh_key \<mapsto> refresh_token pair))"

lemma register_step_session: "same_session s (snd (register_step ev api s))"
  by (auto simp: register_step_def same_session_def comp_defs on_world_def do_fetch_world split: sum.split)

lemma login_step_session:
  "case fst (login_step ev api s) of Inl e \<Rightarrow> same_session s (snd (login_step ev api s))
     | Inr u \<Rightarrow> signed_in api s (snd (login_step ev api s))"
proof -
  let ?rq = "json_request ''POST'' (login_getAPIURL ev @ ''/api/v1/auth/login'') (Credentials (lp_email s) (lp_password s))"
  obtain r srv where e: "ep_login api ?rq (w_server (pg_world s)) = (r, srv)" by fastforce
  show ?thesis
  proof (cases "\<exists>res pair. r = Inr res \<and> ok res \<and> rs_json res = Inr pair")
    case True
    then obtain res pair where r: "r = Inr res" "ok res" "rs_json res = Inr pair" by blast
    with e have "granted api pair" unfolding granted_def by (metis fst_conv)
    with e r show ?thesis
      by (auto simp: login_step_def signed_in_def comp_defs on_world_def do_fetch_world json_of_def
          setItem_def show_toast_def location_replace_def)
  next
    case False
    with e show ?thesis
      by (cases r) (auto simp: login_step_def same_session_def comp_defs on_world_def do_fetch_world json_of_def
          split: sum.split)
  qed
qed

text \<open>The requests of a submission outside demo mode.\<close>

definition submit_requests :: "env \<Rightarrow> 'srv api \<Rightarrow> ('srv login_page, unit) comp" where
  "submit_requests ev api = bindE (readE lp_mode) (\<lambda>mode.
     bindE (if mode = RegisterMode then register_step ev api else returnE ()) (\<lambda>_. login_step ev api))"

lemma submit_requests_session:
  "case fst (submit_requests ev api s) of Inl e \<Rightarrow> same_session s (snd (submit_requests ev api s))
     | Inr u \<Rightarrow> signed_in api s (snd (submit_requests ev api s))"
proof (cases "lp_mode s = RegisterMode")
  case True
  obtain r s1 where e: "register_step ev api s = (r, s1)" by fastforce
  then have "same_session s s1" using register_step_session by (metis snd_conv)
  with e True login_step_session [of s1 ev api] show ?thesis
    by (cases r) (auto simp: submit_requests_def bindE_def readE_def same_session_def signed_in_def split: sum.splits)
next
  case False
  then have "submit_requests ev api s = login_step ev api s"
    by (cases "login_step ev api s")
      (simp add: submit_requests_def bindE_def readE_def returnE_def login_mode.exhaust)
  then show ?thesis using login_step_session [of s ev api] by (simp only:)
qed

text \<open>A submission in demo mode, and one that goes to the servers.\<close>

lemma submit_demo:
  fixes s :: "'srv login_page" and api :: "'srv api" and ev now
  assumes "lp_demo s"
  defines "s' \<equiv> snd (submit now ev api s)"
  shows "fst (submit now ev api s) = Inr () \<and> \<not> lp_loading s' \<and> lp_error s' = None
    \<and> w_location (pg_world s') = w_location (pg_world s) @ [''/''] \<and> w_sent (pg_world s') = w_sent (pg_world s)
    \<and> w_storage (pg_world s') access_key = Some (''demo-'' @ dec now)
    \<and> w_storage (pg_world s') refresh_key = Some (''demo-'' @ dec now)"
  using assms(1) unfolding s'_def by (simp add: submit_def demo_signin_def comp_defs finallyE_def on_world_def
      setItem_def show_toast_def location_replace_def)

lemma submit_live:
  fixes s :: "'srv login_page" and api :: "'srv api" and ev now
  assumes "\<not> lp_demo s"
  defines "s' \<equiv> snd (submit now ev api s)" and "s1 \<equiv> s\<lparr>lp_loading := True, lp_error := None\<rparr>"
  shows "fst (submit now ev api s) = Inr () \<and> \<not> lp_loading s'
    \<and> (if lp_error s' = None then signed_in api s1 s'
       else same_session s1 (s'\<lparr>lp_error := None\<rparr>))"
proof -
  obtain r s2 where e: "submit_requests ev api s1 = (r, s2)" by fastforce
  have sub: "submit now ev api s = finallyE (catchE (submit_requests ev api)
       (\<lambda>cause. let msg = message_or cause ''Authentication failed'' in
          bindE (modifyE (\<lambda>s. s\<lparr>lp_error := Some msg\<rparr>)) (\<lambda>_. show_toast Danger ''Authentication failed'' msg)))
       (\<lambda>s. s\<lparr>lp_loading := False\<rparr>) s1"
    using assms(1) by (simp add: s1_def submit_def submit_requests_def bindE_def modifyE_def readE_def
        finallyE_def catchE_def)
  have "lp_error s1 = None" by (simp add: s1_def)
  then show ?thesis
    unfolding s'_def sub using submit_requests_session [of s1 ev api] e
    by (cases r) (auto simp: finallyE_def catchE_def bindE_def modifyE_def show_toast_def Let_def
        same_session_def signed_in_def)
qed

lemma submit_stores:
  "lp_error (snd (submit now ev api s)) = None
   \<Longrightarrow> w_storage (pg_world (snd (submit now ev api s))) access_key \<noteq> None"
  using submit_demo [of s now ev api] submit_live [of s now ev api]
  by (cases "lp_demo s") (auto simp: signed_in_def)

text \<open>
  C21: submitting the form never throws and always re-enables it. It ends with both tokens stored
  and a navigation to the start page, or with an error that is shown and stored tokens and
  location unchanged. Outside demo mode tokens come only from a 2xx answer of the login endpoint.
\<close>

theorem submit_outcome:
  fixes s :: "'srv login_page" and api :: "'srv api" and ev now
  defines "s' \<equiv> snd (submit now ev api s)"
  shows "fst (submit now ev api s) = Inr () \<and> \<not> lp_loading s'
    \<and> (if lp_error s' = None
       then w_location (pg_world s') = w_location (pg_world s) @ [''/'']
         \<and> w_storage (pg_world s') access_key \<noteq> None \<and> w_storage (pg_world s') refresh_key \<noteq> None
         \<and> (if lp_demo s then w_storage (pg_world s') access_key = Some (''demo-'' @ dec now)
               \<and> w_sent (pg_world s') = w_sent (pg_world s)
             else \<exists>pair. granted api pair \<and> w_storage (pg_world s') = (w_storage (pg_world s))
               (access_key \<mapsto> access_token pair, refresh_key \<mapsto> refresh_token pair))
       else \<not> lp_demo s \<and> w_location (pg_world s') = w_location (pg_world s)
         \<and> w_storage (pg_world s') = w_storage (pg_world s))"
  using submit_demo [of s now ev api] submit_live [of s now ev api] unfolding s'_def
  by (cases "lp_demo s") (auto simp: signed_in_def same_session_def split: if_splits)

definition blank_login :: "unit login_page" where
  "blank_login = \<lparr>pg_world = blank_world, pg_toasts = toast_init, lp_demo = False, lp_mode = LoginMode,
     lp_email = ''a@b.c'', lp_password = ''p'', lp_name = ''n'', lp_error = None, lp_loading = False, lp_cancelled = False\<rparr>"

theorem submit_outcome_witness:
  "w_storage (pg_world (snd (submit 7 local_env empty_api (blank_login\<lparr>lp_demo := True\<rparr>)))) access_key = Some ''demo-7''"
proof -
  let ?s = "blank_login\<lparr>lp_demo := True\<rparr>"
  have "lp_demo ?s" and "dec 7 = ''7''" by (simp, code_simp)
  then show ?thesis using submit_outcome [of 7 local_env empty_api ?s] by (auto split: if_splits)
qed

section \<open>Detecting the backend\<close>

lemma login_getAPIURL_eq: "login_getAPIURL ev = getAPIURL ev"
  by (simp add: login_getAPIURL_def getAPIURL_def)

text \<open>The probe and the rest of the page agree on the address exactly when no port is forwarded.\<close>

lemma probe_base_agrees:
  assumes "env_window ev = Some (protocol, hostname)" and "configuredAPIURL ev \<in> {[], localhost_api}"
  shows "probe_base ev = getAPIURL ev \<longleftrightarrow> \<not> str_includes hostname ''-3000.''"
proof (cases "str_includes hostname ''-3000.''")
  case True
  then have "length (replace_first hostname ''-3000.'' ''-8080.'') = length hostname"
    using replace_first_present [of "''-3000.''" hostname "''-8080.''"] by (auto simp: str_includes_def)
  then have "replace_first hostname ''-3000.'' ''-8080.'' \<noteq> hostname @ '':8080''"
    by (metis length_append length_Cons list.size(3) add_cancel_right_right nat.distinct(1))
  with True assms show ?thesis by (auto simp: probe_base_def getAPIURL_def)
next
  case False
  with assms show ?thesis by (auto simp: probe_base_def getAPIURL_def)
qed

text \<open>
  Behind a port-forwarding host name (\<open><name>-3000.<domain>\<close>) the probe asks another address
  than the one sign-in uses: although the backend answers at the address of \<open>getAPIURL\<close>, the page
  goes to demo mode, and a submission sends nothing and stores a simulated token.
\<close>

lemma login_probe_misses_forwarded_backend:
  fixes s :: "'srv login_page" and api :: "'srv api"
  assumes "env_window ev = Some (protocol, hostname)" and "configuredAPIURL ev \<in> {[], localhost_api}"
    and "str_includes hostname ''-3000.''" and "\<not> lp_cancelled s"
    and elsewhere: "\<And>rq srv. rq_url rq \<noteq> getAPIURL ev @ ''/api/v1/auth/public-key''
      \<Longrightarrow> \<exists>e. fst (ep_public_key api rq srv) = Inl e"
  defines "s' \<equiv> snd (login_probe ev api s)"
  shows "lp_demo s' \<and> w_sent (pg_world (snd (submit now ev api s'))) = w_sent (pg_world s')
    \<and> w_storage (pg_world (snd (submit now ev api s'))) access_key = Some (''demo-'' @ dec now)"
proof -
  have "probe_base ev \<noteq> getAPIURL ev" using probe_base_agrees assms(1-3) by blast
  then obtain e where "fst (ep_public_key api (get_request (probe_base ev @ ''/api/v1/auth/public-key''))
      (w_server (pg_world s))) = Inl e"
    using elsewhere [of "get_request (probe_base ev @ ''/api/v1/auth/public-key'')"] by (auto simp: get_request_def)
  then have "lp_demo s'" using assms(4)
    unfolding s'_def by (simp add: login_probe_def comp_defs on_world_def do_fetch_world)
  then show ?thesis
    by (simp add: submit_def demo_signin_def comp_defs finallyE_def on_world_def
        setItem_def show_toast_def location_replace_def)
qed

definition codespace_env :: env where
  "codespace_env = \<lparr>env_api = None, env_window = Some (''https:'', ''demo-3000.app.github.dev'')\<rparr>"

definition forwarded_api :: "unit api" where
  "forwarded_api = empty_api\<lparr>ep_public_key := \<lambda>rq st.
     (if rq_url rq = getAPIURL codespace_env @ ''/api/v1/auth/public-key''
      then Inr \<lparr>rs_status = 200, rs_json = Inr ''key''\<rparr> else Inl (JsError ''Failed to fetch''), st)\<rparr>"

lemma login_probe_misses_forwarded_backend_witness:
  "getAPIURL codespace_env = ''https://demo-8080.app.github.dev''
   \<and> lp_demo (snd (login_probe codespace_env forwarded_api blank_login))"
proof -
  have e: "env_window codespace_env = Some (''https:'', ''demo-3000.app.github.dev'')"
    by (simp add: codespace_env_def)
  have c: "configuredAPIURL codespace_env \<in> {[], localhost_api}" by code_simp
  have i: "str_includes ''demo-3000.app.github.dev'' ''-3000.''" by code_simp
  have n: "\<not> lp_cancelled blank_login" by (simp add: blank_login_def)
  have a: "\<exists>e. fst (ep_public_key forwarded_api rq srv) = Inl e"
    if "rq_url rq \<noteq> getAPIURL codespace_env @ ''/api/v1/auth/public-key''" for rq srv
    using that by (simp add: forwarded_api_def)
  have u: "getAPIURL codespace_env = ''https://demo-8080.app.github.dev''" by code_simp
  from u login_probe_misses_forwarded_backend [OF e c i n a] show ?thesis by blast
qed

end
