(* ===== verification/Accounts.thy ===== *)
theory Accounts
  imports Tokens Login
begin

text \<open>
  Accounts and sessions of the auth service: the users table
  (\<open>repository/user_postgres.go\<close>, \<open>migrations/000002_users.up.sql\<close>), the session store in Redis
  (\<open>repository/session_redis.go\<close>), the event producer (\<open>kafka/producer.go\<close>), and registration,
  login, refresh and logout of \<open>service/auth_service.go\<close>.

  The database, Redis and Kafka are up or down for the duration of a request; when one is down its
  operations return an error and change nothing. \<open>time.Now()\<close> is one value during a request.
\<close>

section \<open>State\<close>

text \<open>
  A session and the part of it that \<open>json.Marshal\<close> writes: the field of the refresh token digest
  carries the tag \<open>json:"-"\<close>.
\<close>

record session_json =
  s_id :: string
  s_user_id :: string
  s_token_family :: string
  s_device_info :: "(string \<times> string) list"
  s_ip_address :: string
  s_user_agent :: string
  s_is_revoked :: bool
  s_expires_at :: int
  s_created_at :: int
  s_last_used_at :: int

record session = session_json +
  s_refresh_token_hash :: string

text \<open>\<open>json.Marshal\<close>, and \<open>json.Unmarshal\<close> into a zero \<open>Session\<close>.\<close>

definition marshal_session :: "session \<Rightarrow> session_json" where
  "marshal_session s = session_json.truncate s"

definition unmarshal_session :: "session_json \<Rightarrow> session" where
  "unmarshal_session j = session_json.extend j (session.fields '''')"

record auth_event =
  ae_event_id :: string
  ae_event_type :: string
  ae_schema_version :: int
  ae_timestamp :: int
  ae_producer :: string
  ae_user_id :: string
  ae_email :: string
  ae_ip_address :: string
  ae_occurred_at :: int
  ae_source :: "(string \<times> string) list"

text \<open>
  Redis keys expire: a session key at the expiry of its session, a family key at the time kept
  beside its set.
\<close>

record auth_state =
  as_users :: "user list"
  as_sessions :: "string \<rightharpoonup> session_json"
  as_families :: "string \<rightharpoonup> string set \<times> int"
  as_published :: "auth_event list"
  as_db :: bool
  as_redis :: bool
  as_kafka :: bool
  as_draws :: nat
  as_now :: int

definition draw_uuid :: "auth_params \<Rightarrow> auth_state \<Rightarrow> string \<times> auth_state" where
  "draw_uuid P st = (ap_uuid P (as_draws st), st\<lparr>as_draws := as_draws st + 1\<rparr>)"

section \<open>The users table\<close>

text \<open>Columns not inserted have their defaults. \<open>None\<close> is an error of the statement.\<close>

definition CreateUser :: "user \<Rightarrow> auth_state \<Rightarrow> (user \<times> auth_state) option" where
  "CreateUser user st =
     (if \<not> as_db st \<or> list_ex (\<lambda>u. u_id u = u_id user \<or> u_email u = u_email user) (as_users st)
         \<or> \<not> pg_text (u_email user) \<or> \<not> pg_text (u_password_hash user) \<or> \<not> pg_text (u_full_name user) then None
      else let row = user\<lparr>u_is_active := True, u_email_verified := False, u_created_at := as_now st,
             u_updated_at := as_now st, u_last_login_at := None, u_failed_login_count := 0, u_locked_until := None\<rparr>
        in Some (user\<lparr>u_created_at := as_now st, u_updated_at := as_now st\<rparr>, st\<lparr>as_users := as_users st @ [row]\<rparr>))"

definition GetByEmail :: "string \<Rightarrow> auth_state \<Rightarrow> user option" where
  "GetByEmail email st = (if \<not> as_db st \<or> CHR 0x00 \<in> set email then None
     else find (\<lambda>u. u_email u = email) (as_users st))"

definition GetUserByID :: "string \<Rightarrow> auth_state \<Rightarrow> user option" where
  "GetUserByID i st = (if \<not> as_db st then None else find (\<lambda>u. u_id u = i) (as_users st))"

definition CountUsers :: "auth_state \<Rightarrow> nat option" where
  "CountUsers st = (if as_db st then Some (length (as_users st)) else None)"

text \<open>An \<open>UPDATE\<close> of the rows that satisfy its condition; the counter is a 32-bit column.\<close>

definition update_users :: "(user \<Rightarrow> bool) \<Rightarrow> (user \<Rightarrow> user) \<Rightarrow> auth_state \<Rightarrow> auth_state" where
  "update_users C f st = (if as_db st then st\<lparr>as_users := map (\<lambda>u. if C u then f u else u) (as_users st)\<rparr> else st)"

definition fail_login :: "nat \<Rightarrow> int \<Rightarrow> int \<Rightarrow> user \<Rightarrow> user" where
  "fail_login maxAttempts lockDurationMinutes now u = u\<lparr>u_failed_login_count := u_failed_login_count u + 1,
     u_locked_until := (if u_failed_login_count u + 1 \<ge> maxAttempts
       then Some (now + lockDurationMinutes * 60000) else u_locked_until u)\<rparr>"

definition IncrementFailedLogin :: "string \<Rightarrow> nat \<Rightarrow> int \<Rightarrow> auth_state \<Rightarrow> auth_state" where
  "IncrementFailedLogin email maxAttempts lockDurationMinutes st =
     (if list_ex (\<lambda>u. u_email u = email \<and> u_failed_login_count u + 1 > 2147483647) (as_users st) then st
      else update_users (\<lambda>u. u_email u = email) (fail_login maxAttempts lockDurationMinutes (as_now st)) st)"

definition ResetFailedLogin :: "string \<Rightarrow> auth_state \<Rightarrow> auth_state" where
  "ResetFailedLogin i st = update_users (\<lambda>u. u_id u = i) (\<lambda>u. u\<lparr>u_failed_login_count := 0, u_locked_until := None\<rparr>) st"

definition UpdateLastLogin :: "string \<Rightarrow> auth_state \<Rightarrow> auth_state" where
  "UpdateLastLogin i st = update_users (\<lambda>u. u_id u = i) (\<lambda>u. u\<lparr>u_last_login_at := Some (as_now st)\<rparr>) st"

definition IsLocked :: "int \<Rightarrow> user \<Rightarrow> bool" where
  "IsLocked now u \<longleftrightarrow> (case u_locked_until u of None \<Rightarrow> False | Some t \<Rightarrow> now < t)"

section \<open>Sessions in Redis\<close>

definition live_family :: "string \<Rightarrow> auth_state \<Rightarrow> string set" where
  "live_family fam st = (case as_families st fam of None \<Rightarrow> {} | Some (ids, t) \<Rightarrow> if as_now st < t then ids else {})"

definition Create :: "session \<Rightarrow> auth_state \<Rightarrow> auth_state option" where
  "Create s st = (if s_expires_at s - as_now st \<le> 0 \<or> \<not> as_redis st then None
     else Some (st\<lparr>as_sessions := (as_sessions st)(s_id s \<mapsto> marshal_session s),
        as_families := (as_families st)(s_token_family s \<mapsto>
          (insert (s_id s) (live_family (s_token_family s) st), s_expires_at s))\<rparr>))"

definition GetByID :: "string \<Rightarrow> auth_state \<Rightarrow> session option" where
  "GetByID i st = (if \<not> as_redis st then None else case as_sessions st i of
     None \<Rightarrow> None | Some j \<Rightarrow> if as_now st < s_expires_at j then Some (unmarshal_session j) else None)"

text \<open>Writing a session back under its own key and expiry.\<close>

definition put_back :: "string \<Rightarrow> session \<Rightarrow> auth_state \<Rightarrow> auth_state" where
  "put_back i s st = (if s_expires_at s - as_now st \<le> 0 then st\<lparr>as_sessions := (as_sessions st)(i := None)\<rparr>
     else st\<lparr>as_sessions := (as_sessions st)(i \<mapsto> marshal_session s)\<rparr>)"

definition RevokeByID :: "string \<Rightarrow> auth_state \<Rightarrow> auth_state option" where
  "RevokeByID i st = (case GetByID i st of None \<Rightarrow> None
     | Some s \<Rightarrow> Some (put_back i (s\<lparr>s_is_revoked := True\<rparr>) st))"

definition UpdateLastUsed :: "string \<Rightarrow> auth_state \<Rightarrow> auth_state option" where
  "UpdateLastUsed i st = (case GetByID i st of None \<Rightarrow> None
     | Some s \<Rightarrow> Some (put_back i (s\<lparr>s_last_used_at := as_now st\<rparr>) st))"

definition RevokeFamily :: "string \<Rightarrow> auth_state \<Rightarrow> auth_state" where
  "RevokeFamily fam st = (let ids = live_family fam st in
     if \<not> as_redis st \<or> ids = {} then st
     else st\<lparr>as_sessions := (\<lambda>i. if i \<in> ids then None else as_sessions st i),
       as_families := (as_families st)(fam := None)\<rparr>)"

section \<open>Events\<close>

text \<open>The defaults \<open>PublishEvent\<close> fills in, and the message, lost when Kafka is down.\<close>

definition auth_event_of :: "string \<Rightarrow> string \<Rightarrow> int \<Rightarrow> user \<Rightarrow> string \<Rightarrow> auth_event" where
  "auth_event_of i ty now user ip = \<lparr>ae_event_id = i, ae_event_type = ty, ae_schema_version = 1, ae_timestamp = now,
     ae_producer = ''auth-service'', ae_user_id = u_id user, ae_email = u_email user, ae_ip_address = ip,
     ae_occurred_at = now, ae_source = [(''ip_address'', ip)]\<rparr>"

definition PublishEvent :: "auth_params \<Rightarrow> string \<Rightarrow> user \<Rightarrow> string \<Rightarrow> auth_state \<Rightarrow> auth_state" where
  "PublishEvent P ty user ip st = (case draw_uuid P st of (i, st') \<Rightarrow>
     if as_kafka st' then st'\<lparr>as_published := as_published st' @ [auth_event_of i ty (as_now st') user ip]\<rparr> else st')"

section \<open>The service\<close>

datatype auth_error = ErrInvalidEmail | ErrWeakPassword | ErrAccountLocked | ErrAccountInactive
  | ErrInvalidPassword | ErrInvalidRefresh | ErrRefreshReuse | ErrOther

fun err_text :: "auth_error \<Rightarrow> string" where
  "err_text ErrInvalidEmail = ''invalid email format''"
| "err_text ErrWeakPassword = ''password must be at least 12 characters, with 1 uppercase, 1 lowercase, 1 digit, and 1 special character''"
| "err_text ErrAccountLocked = ''account is locked due to multiple failed login attempts''"
| "err_text ErrAccountInactive = ''account is inactive''"
| "err_text ErrInvalidPassword = ''invalid email or password''"
| "err_text ErrInvalidRefresh = ''invalid or expired refresh token''"
| "err_text ErrRefreshReuse = ''refresh token reuse detected''"
| "err_text ErrOther = ''''"

definition normal_email :: "string \<Rightarrow> string" where
  "normal_email email = toLowerCase (TrimSpace email)"

text \<open>Registration up to the count of users, and from there on: the bootstrap reads, then writes.\<close>

definition register_check :: "auth_params \<Rightarrow> string \<Rightarrow> string \<Rightarrow> auth_state \<Rightarrow> (auth_error + string) \<times> auth_state" where
  "register_check P email password st =
     (if \<not> str_includes email ''@'' \<or> length email > 255 then (Inl ErrInvalidEmail, st)
      else if \<not> ValidatePassword password then (Inl ErrWeakPassword, st)
      else case ap_bcrypt P (as_draws st) password of None \<Rightarrow> (Inl ErrOther, st)
        | Some hash \<Rightarrow> (Inr hash, st\<lparr>as_draws := as_draws st + 1\<rparr>))"

definition bootstrap_role :: "nat \<Rightarrow> role" where
  "bootstrap_role n = (if n = 0 then RoleAdmin else RoleUser)"

definition register_insert :: "auth_params \<Rightarrow> string \<Rightarrow> string \<Rightarrow> string \<Rightarrow> string \<Rightarrow> role \<Rightarrow> auth_state
    \<Rightarrow> (auth_error + user) \<times> auth_state" where
  "register_insert P email hash fullName ip role st =
     (case draw_uuid P st of (i, st1) \<Rightarrow>
        let user = \<lparr>u_id = i, u_email = email, u_password_hash = hash, u_full_name = fullName, u_role = role,
          u_is_active = True, u_email_verified = False, u_created_at = 0, u_updated_at = 0,
          u_last_login_at = None, u_failed_login_count = 0, u_locked_until = None\<rparr>
        in case CreateUser user st1 of None \<Rightarrow> (Inl ErrOther, st1)
          | Some (user', st2) \<Rightarrow> (Inr user', PublishEvent P ''auth.user.registered'' user' ip st2))"

definition RegisterUser :: "auth_params \<Rightarrow> string \<Rightarrow> string \<Rightarrow> string \<Rightarrow> string \<Rightarrow> auth_state
    \<Rightarrow> (auth_error + user) \<times> auth_state" where
  "RegisterUser P email password fullName ip st =
     (let email = normal_email email in
      case register_check P email password st of (Inl e, st1) \<Rightarrow> (Inl e, st1)
      | (Inr hash, st1) \<Rightarrow>
        (case CountUsers st1 of None \<Rightarrow> (Inl ErrOther, st1)
         | Some n \<Rightarrow> register_insert P email hash fullName ip (bootstrap_role n) st1))"

text \<open>A login after the password matched.\<close>

definition open_session :: "auth_params \<Rightarrow> user \<Rightarrow> string \<Rightarrow> string \<Rightarrow> (string \<times> string) list \<Rightarrow> auth_state
    \<Rightarrow> (auth_error + go_token_pair) \<times> auth_state" where
  "open_session P user ip userAgent deviceInfo st =
     (case draw_uuid P st of (sessionID, st1) \<Rightarrow> case draw_uuid P st1 of (tokenFamily, st2) \<Rightarrow>
      case GenerateTokenPair P (as_now st2) user sessionID (as_draws st2) of
        (None, n) \<Rightarrow> (Inl ErrOther, st2\<lparr>as_draws := n\<rparr>)
      | (Some pair, n) \<Rightarrow>
        let st3 = st2\<lparr>as_draws := n\<rparr>; now = as_now st3;
          session = \<lparr>s_id = sessionID, s_user_id = u_id user, s_token_family = tokenFamily, s_device_info = deviceInfo,
            s_ip_address = ip, s_user_agent = userAgent, s_is_revoked = False, s_expires_at = now + ap_refreshTTL P,
            s_created_at = now, s_last_used_at = now,
            s_refresh_token_hash = hex_encode (ap_sha256 P (refresh_token pair))\<rparr>
        in case Create session st3 of None \<Rightarrow> (Inl ErrOther, st3)
          | Some st4 \<Rightarrow> (Inr pair, PublishEvent P ''auth.user.logged_in'' user ip st4))"

definition LoginUser :: "auth_params \<Rightarrow> string \<Rightarrow> string \<Rightarrow> string \<Rightarrow> string \<Rightarrow> (string \<times> string) list \<Rightarrow> auth_state
    \<Rightarrow> (auth_error + go_token_pair) \<times> auth_state" where
  "LoginUser P email password ip userAgent deviceInfo st =
     (let email = normal_email email in
      case GetByEmail email st of None \<Rightarrow> (Inl ErrInvalidPassword, st)
      | Some user \<Rightarrow>
        if IsLocked (as_now st) user then (Inl ErrAccountLocked, st)
        else if \<not> u_is_active user then (Inl ErrAccountInactive, st)
        else if \<not> ap_compare P (u_password_hash user) password
        then (Inl ErrInvalidPassword, PublishEvent P ''auth.user.login_failed'' user ip (IncrementFailedLogin email 5 15 st))
        else let st1 = (if u_failed_login_count user > 0 then ResetFailedLogin (u_id user) st else st)
          in open_session P user ip userAgent deviceInfo (UpdateLastLogin (u_id user) st1))"

definition Refresh :: "auth_params \<Rightarrow> string \<Rightarrow> auth_state \<Rightarrow> (auth_error + go_token_pair) \<times> auth_state" where
  "Refresh P token st =
     (case ValidateRefreshToken P token of None \<Rightarrow> (Inl ErrInvalidRefresh, st)
      | Some i \<Rightarrow> case GetByID i st of None \<Rightarrow> (Inl ErrInvalidRefresh, st)
      | Some s \<Rightarrow>
        if s_is_revoked s \<or> s_expires_at s < as_now st then (Inl ErrInvalidRefresh, st)
        else if hex_encode (ap_sha256 P token) \<noteq> s_refresh_token_hash s
        then (Inl ErrRefreshReuse, RevokeFamily (s_token_family s) st)
        else case GetUserByID (s_user_id s) st of None \<Rightarrow> (Inl ErrInvalidRefresh, st)
        | Some user \<Rightarrow> if \<not> u_is_active user then (Inl ErrInvalidRefresh, st)
          else case GenerateTokenPair P (as_now st) user (s_id s) (as_draws st) of
            (None, n) \<Rightarrow> (Inl ErrOther, st\<lparr>as_draws := n\<rparr>)
          | (Some pair, n) \<Rightarrow> let st1 = st\<lparr>as_draws := n\<rparr> in
              case Create (s\<lparr>s_refresh_token_hash := hex_encode (ap_sha256 P (refresh_token pair)),
                  s_last_used_at := as_now st\<rparr>) st1 of
                None \<Rightarrow> (Inl ErrOther, st1) | Some st2 \<Rightarrow> (Inr pair, st2))"

definition Logout :: "string \<Rightarrow> auth_state \<Rightarrow> auth_state option" where
  "Logout sessionID st = RevokeByID sessionID st"

section \<open>The digest is not stored\<close>

lemma unmarshal_simps [simp]:
  "s_id (unmarshal_session j) = s_id j" "s_token_family (unmarshal_session j) = s_token_family j"
  "s_is_revoked (unmarshal_session j) = s_is_revoked j" "s_expires_at (unmarshal_session j) = s_expires_at j"
  "s_user_id (unmarshal_session j) = s_user_id j" "s_refresh_token_hash (unmarshal_session j) = []"
  by (simp_all add: unmarshal_session_def session_json.defs session.defs)

lemma marshal_simps [simp]:
  "s_id (marshal_session s) = s_id s" "s_token_family (marshal_session s) = s_token_family s"
  "s_is_revoked (marshal_session s) = s_is_revoked s" "s_expires_at (marshal_session s) = s_expires_at s"
  "s_user_id (marshal_session s) = s_user_id s"
  by (simp_all add: marshal_session_def session_json.defs)

text \<open>A session read back from the store is the one that was written, without its digest.\<close>

lemma session_reads_back: "unmarshal_session (marshal_session s) = s\<lparr>s_refresh_token_hash := []\<rparr>"
  by (simp add: unmarshal_session_def marshal_session_def session_json.defs session.defs)

lemma GetByID_SomeD:
  "GetByID i st = Some s \<Longrightarrow> \<exists>j. as_sessions st i = Some j \<and> s = unmarshal_session j \<and> as_now st < s_expires_at j \<and> as_redis st"
  by (auto simp: GetByID_def split: option.splits if_splits)

text \<open>So what the refresh operation does is this.\<close>

lemma Refresh_eq:
  assumes "sha_ok P"
  shows "Refresh P token st =
    (case ValidateRefreshToken P token of None \<Rightarrow> (Inl ErrInvalidRefresh, st)
     | Some i \<Rightarrow> (case GetByID i st of None \<Rightarrow> (Inl ErrInvalidRefresh, st)
       | Some s \<Rightarrow> if s_is_revoked s then (Inl ErrInvalidRefresh, st)
           else (Inl ErrRefreshReuse, RevokeFamily (s_token_family s) st)))"
proof -
  have "length (hex_encode (ap_sha256 P token)) = 64" using assms by (simp add: sha_ok_def length_hex_encode)
  then have "hex_encode (ap_sha256 P token) \<noteq> []" by auto
  then show ?thesis
    by (auto simp: Refresh_def dest!: GetByID_SomeD split: option.split)
qed

section \<open>Invariants\<close>

text \<open>Ids and addresses are unique, and only the first account is an administrator.\<close>

definition users_ok :: "auth_state \<Rightarrow> bool" where
  "users_ok st \<longleftrightarrow> distinct (map u_email (as_users st)) \<and> distinct (map u_id (as_users st))
     \<and> map u_role (as_users st) = map bootstrap_role [0..<length (as_users st)]"

text \<open>
  Every session is stored under its own id, for at most the refresh time, and as long as it lasts
  its family is stored and names it.
\<close>

definition store_ok :: "auth_params \<Rightarrow> auth_state \<Rightarrow> bool" where
  "store_ok P st \<longleftrightarrow> (\<forall>i j. as_sessions st i = Some j \<longrightarrow> s_id j = i \<and> s_expires_at j \<le> as_now st + ap_refreshTTL P
     \<and> (as_now st < s_expires_at j \<longrightarrow> (\<exists>ids t. as_families st (s_token_family j) = Some (ids, t) \<and> i \<in> ids \<and> s_expires_at j \<le> t)))"

definition auth_ok :: "auth_params \<Rightarrow> auth_state \<Rightarrow> bool" where
  "auth_ok P st \<longleftrightarrow> users_ok st \<and> store_ok P st"

text \<open>What the operations leave alone.\<close>

lemma update_users_frame [simp]:
  "as_sessions (update_users C f st) = as_sessions st" "as_families (update_users C f st) = as_families st"
  "as_now (update_users C f st) = as_now st" "as_redis (update_users C f st) = as_redis st"
  "as_db (update_users C f st) = as_db st" "as_draws (update_users C f st) = as_draws st"
  by (simp_all add: update_users_def)

lemma PublishEvent_frame [simp]:
  "as_sessions (PublishEvent P ty u ip st) = as_sessions st" "as_families (PublishEvent P ty u ip st) = as_families st"
  "as_users (PublishEvent P ty u ip st) = as_users st" "as_now (PublishEvent P ty u ip st) = as_now st"
  "as_redis (PublishEvent P ty u ip st) = as_redis st" "as_db (PublishEvent P ty u ip st) = as_db st"
  "as_draws (PublishEvent P ty u ip st) = as_draws st + 1"
  by (simp_all add: PublishEvent_def draw_uuid_def)

lemma IncrementFailedLogin_frame [simp]:
  "as_sessions (IncrementFailedLogin e m d st) = as_sessions st" "as_families (IncrementFailedLogin e m d st) = as_families st"
  "as_now (IncrementFailedLogin e m d st) = as_now st" "as_redis (IncrementFailedLogin e m d st) = as_redis st"
  "as_db (IncrementFailedLogin e m d st) = as_db st" "as_draws (IncrementFailedLogin e m d st) = as_draws st"
  by (simp_all add: IncrementFailedLogin_def)

lemma store_ok_frame:
  "as_sessions st' = as_sessions st \<Longrightarrow> as_families st' = as_families st \<Longrightarrow> as_now st' = as_now st
    \<Longrightarrow> store_ok P st' = store_ok P st"
  by (simp add: store_ok_def)

lemma users_ok_frame: "as_users st' = as_users st \<Longrightarrow> users_ok st' = users_ok st"
  by (simp add: users_ok_def)

lemma users_ok_update:
  assumes "users_ok st" "\<And>u. u_email (f u) = u_email u \<and> u_id (f u) = u_id u \<and> u_role (f u) = u_role u"
  shows "users_ok (update_users C f st)"
proof -
  let ?f = "\<lambda>u. if C u then f u else u"
  have "u_email \<circ> ?f = u_email" "u_id \<circ> ?f = u_id" "u_role \<circ> ?f = u_role" using assms(2) by auto
  with assms(1) show ?thesis by (simp add: users_ok_def update_users_def)
qed

lemma users_ok_fail: "users_ok st \<Longrightarrow> users_ok (IncrementFailedLogin e m d st)"
  by (auto simp: IncrementFailedLogin_def fail_login_def intro: users_ok_update)

section \<open>The session store\<close>

lemma store_ok_member:
  assumes "store_ok P st" "as_sessions st i = Some j" "as_now st < s_expires_at j"
  shows "i \<in> live_family (s_token_family j) st"
proof -
  obtain ids t where "as_families st (s_token_family j) = Some (ids, t)" "i \<in> ids" "s_expires_at j \<le> t"
    using assms unfolding store_ok_def by blast
  with assms(3) show ?thesis by (simp add: live_family_def)
qed

lemma store_ok_Create:
  assumes "store_ok P st" "Create s st = Some st'" "s_expires_at s = as_now st + ap_refreshTTL P"
  shows "store_ok P st'"
proof -
  have st': "st' = st\<lparr>as_sessions := (as_sessions st)(s_id s \<mapsto> marshal_session s),
      as_families := (as_families st)(s_token_family s \<mapsto>
        (insert (s_id s) (live_family (s_token_family s) st), s_expires_at s))\<rparr>"
    using assms(2) by (auto simp: Create_def split: if_splits)
  show ?thesis unfolding store_ok_def
  proof (intro allI impI)
    fix i j
    assume new: "as_sessions st' i = Some j"
    show "s_id j = i \<and> s_expires_at j \<le> as_now st' + ap_refreshTTL P
      \<and> (as_now st' < s_expires_at j \<longrightarrow> (\<exists>ids t. as_families st' (s_token_family j) = Some (ids, t) \<and> i \<in> ids \<and> s_expires_at j \<le> t))"
    proof (cases "i = s_id s")
      case True
      with new assms(3) show ?thesis by (auto simp: st')
    next
      case False
      with new have old: "as_sessions st i = Some j" by (simp add: st')
      with assms(1) have "s_id j = i" "s_expires_at j \<le> as_now st + ap_refreshTTL P"
        "as_now st < s_expires_at j \<Longrightarrow> \<exists>ids t. as_families st (s_token_family j) = Some (ids, t) \<and> i \<in> ids \<and> s_expires_at j \<le> t"
        by (auto simp: store_ok_def)
      with store_ok_member [OF assms(1) old] assms(3) show ?thesis by (auto simp: st')
    qed
  qed
qed

lemma store_ok_put_back:
  assumes "store_ok P st" "as_sessions st i = Some j" "s_id s = s_id j" "s_token_family s = s_token_family j"
    "s_expires_at s = s_expires_at j"
  shows "store_ok P (put_back i s st)"
  using assms by (auto simp: store_ok_def put_back_def)

lemma store_ok_RevokeByID: "store_ok P st \<Longrightarrow> RevokeByID i st = Some st' \<Longrightarrow> store_ok P st'"
  by (auto simp: RevokeByID_def dest!: GetByID_SomeD intro!: store_ok_put_back split: option.splits)

lemma store_ok_UpdateLastUsed: "store_ok P st \<Longrightarrow> UpdateLastUsed i st = Some st' \<Longrightarrow> store_ok P st'"
  by (auto simp: UpdateLastUsed_def dest!: GetByID_SomeD intro!: store_ok_put_back split: option.splits)

text \<open>Revoking the family of a live session removes that session, and none outside the family's set.\<close>

lemma RevokeFamily_frame [simp]:
  "as_users (RevokeFamily fam st) = as_users st" "as_now (RevokeFamily fam st) = as_now st"
  "as_redis (RevokeFamily fam st) = as_redis st" "as_db (RevokeFamily fam st) = as_db st"
  by (simp_all add: RevokeFamily_def Let_def)

lemma store_ok_RevokeFamily:
  assumes "store_ok P st"
  shows "store_ok P (RevokeFamily fam st)"
proof (cases "as_redis st \<and> live_family fam st \<noteq> {}")
  case True
  let ?st = "RevokeFamily fam st"
  have st': "as_families ?st = (as_families st)(fam := None)" "as_now ?st = as_now st"
    using True by (simp_all add: RevokeFamily_def Let_def)
  have old: "as_sessions st i = Some j \<and> i \<notin> live_family fam st" if "as_sessions ?st i = Some j" for i j
    using that True by (simp add: RevokeFamily_def Let_def split: if_splits)
  show ?thesis unfolding store_ok_def st'
  proof (intro allI impI conjI)
    fix i j
    assume new: "as_sessions ?st i = Some j"
    note o = conjunct1 [OF old [OF new]]
    with assms show "s_id j = i" "s_expires_at j \<le> as_now st + ap_refreshTTL P" by (auto simp: store_ok_def)
    assume "as_now st < s_expires_at j"
    with store_ok_member [OF assms o] old [OF new] assms o
    show "\<exists>ids t. ((as_families st)(fam := None)) (s_token_family j) = Some (ids, t) \<and> i \<in> ids \<and> s_expires_at j \<le> t"
      unfolding store_ok_def by auto
  qed
qed (simp add: RevokeFamily_def assms Let_def)

lemma RevokeFamily_kills:
  assumes "store_ok P st" "GetByID i st = Some s"
  shows "GetByID i (RevokeFamily (s_token_family s) st) = None"
proof -
  obtain j where j: "as_sessions st i = Some j" "s = unmarshal_session j" "as_now st < s_expires_at j" "as_redis st"
    using GetByID_SomeD [OF assms(2)] by blast
  have "i \<in> live_family (s_token_family j) st" by (rule store_ok_member [OF assms(1) j(1,3)])
  with j show ?thesis by (auto simp: GetByID_def RevokeFamily_def Let_def)
qed

section \<open>Every operation keeps the invariants\<close>

lemma auth_ok_frame:
  "auth_ok P st \<Longrightarrow> as_users st' = as_users st \<Longrightarrow> as_sessions st' = as_sessions st
    \<Longrightarrow> as_families st' = as_families st \<Longrightarrow> as_now st' = as_now st \<Longrightarrow> auth_ok P st'"
  by (simp add: auth_ok_def store_ok_frame [of st' st] users_ok_frame [of st' st])

lemma PublishEvent_keeps: "auth_ok P st \<Longrightarrow> auth_ok P (PublishEvent P' ty u ip st)"
  by (erule auth_ok_frame) simp_all

lemma CreateUser_keeps:
  assumes "auth_ok P st" "CreateUser user st = Some (user', st')" "u_role user = bootstrap_role (length (as_users st))"
  shows "auth_ok P st'"
proof -
  have "\<not> list_ex (\<lambda>u. u_id u = u_id user \<or> u_email u = u_email user) (as_users st)"
    and st': "as_users st' = as_users st @ [user\<lparr>u_is_active := True, u_email_verified := False, u_created_at := as_now st,
      u_updated_at := as_now st, u_last_login_at := None, u_failed_login_count := 0, u_locked_until := None\<rparr>]"
    "as_sessions st' = as_sessions st" "as_families st' = as_families st" "as_now st' = as_now st"
    using assms(2) by (auto simp: CreateUser_def Let_def split: if_splits)
  then have "u_email user \<notin> u_email ` set (as_users st)" "u_id user \<notin> u_id ` set (as_users st)"
    by (auto simp: list_ex_iff)
  with assms(1,3) st' show ?thesis by (simp add: auth_ok_def users_ok_def store_ok_frame [of st' st])
qed

lemma RegisterUser_keeps: "auth_ok P st \<Longrightarrow> auth_ok P (snd (RegisterUser P email password name ip st))"
proof -
  assume ok: "auth_ok P st"
  obtain r st1 where c: "register_check P (normal_email email) password st = (r, st1)" by fastforce
  then have f: "as_users st1 = as_users st" "as_sessions st1 = as_sessions st" "as_families st1 = as_families st"
    "as_now st1 = as_now st" by (auto simp: register_check_def split: if_splits option.splits)
  note ok1 = auth_ok_frame [OF ok f]
  have "auth_ok P (snd (register_insert P e hash name ip (bootstrap_role (length (as_users st1))) st1))" for e hash
  proof -
    let ?st = "st1\<lparr>as_draws := as_draws st1 + 1\<rparr>"
    have "auth_ok P ?st" using ok1 by (rule auth_ok_frame) simp_all
    from CreateUser_keeps [OF this] this show ?thesis
      by (auto simp: register_insert_def draw_uuid_def Let_def split: option.split intro!: PublishEvent_keeps)
  qed
  then show ?thesis using ok1 c
    by (auto simp: RegisterUser_def Let_def CountUsers_def split: sum.split option.split)
qed

lemma open_session_keeps: "auth_ok P st \<Longrightarrow> auth_ok P (snd (open_session P user ip ua dev st))"
proof -
  assume ok: "auth_ok P st"
  have "auth_ok P (st\<lparr>as_draws := n\<rparr>)" for n using ok by (rule auth_ok_frame) simp_all
  moreover have "auth_ok P st'"
    if "Create s (st\<lparr>as_draws := n\<rparr>) = Some st'" "s_expires_at s = as_now st + ap_refreshTTL P" for s n st'
  proof -
    have "store_ok P st'" using ok that by (intro store_ok_Create [OF _ that(1)]) (auto simp: auth_ok_def store_ok_def)
    moreover have "as_users st' = as_users st" using that(1) by (auto simp: Create_def split: if_splits)
    ultimately show ?thesis using ok by (simp add: auth_ok_def users_ok_frame [of st' st])
  qed
  ultimately show ?thesis
    by (auto simp: open_session_def draw_uuid_def Let_def split: prod.split option.split intro!: PublishEvent_keeps)
qed

lemma auth_ok_update:
  assumes "auth_ok P st" "\<And>u. u_email (f u) = u_email u \<and> u_id (f u) = u_id u \<and> u_role (f u) = u_role u"
  shows "auth_ok P (update_users C f st)"
  using assms users_ok_update [of st f C] by (simp add: auth_ok_def store_ok_frame [of "update_users C f st" st])

lemma auth_ok_fail: "auth_ok P st \<Longrightarrow> auth_ok P (IncrementFailedLogin e m d st)"
  using users_ok_fail [of st e m d] by (simp add: auth_ok_def store_ok_frame [of "IncrementFailedLogin e m d st" st])

lemma LoginUser_keeps: "auth_ok P st \<Longrightarrow> auth_ok P (snd (LoginUser P email password ip ua dev st))"
  by (auto simp: LoginUser_def Let_def ResetFailedLogin_def UpdateLastLogin_def split: option.split
      intro!: PublishEvent_keeps open_session_keeps auth_ok_update auth_ok_fail)

lemma Refresh_keeps: "sha_ok P \<Longrightarrow> auth_ok P st \<Longrightarrow> auth_ok P (snd (Refresh P token st))"
  by (auto simp: Refresh_eq auth_ok_def users_ok_def intro: store_ok_RevokeFamily split: option.split)

lemma Logout_keeps: "auth_ok P st \<Longrightarrow> Logout i st = Some st' \<Longrightarrow> auth_ok P st'"
  using store_ok_RevokeByID [of P st i st']
  by (auto simp: Logout_def auth_ok_def RevokeByID_def put_back_def users_ok_def split: option.splits if_splits)

section \<open>Locking an account\<close>

text \<open>What a login with a wrong password does to the account.\<close>

definition wrong_for :: "auth_params \<Rightarrow> user \<Rightarrow> string \<Rightarrow> bool" where
  "wrong_for P u password \<longleftrightarrow> \<not> ap_compare P (u_password_hash u) password"

lemma GetByEmail_update:
  assumes "\<And>u. u_email (f u) = u_email u" "GetByEmail email st = Some u" "C u"
  shows "GetByEmail email (update_users C f st) = Some (f u)"
proof -
  have "find (\<lambda>u. u_email u = email) (map (\<lambda>u. if C u then f u else u) us)
      = map_option (\<lambda>u. if C u then f u else u) (find (\<lambda>u. u_email u = email) us)" for us
    using assms(1) by (induction us) auto
  with assms(2,3) show ?thesis by (auto simp: GetByEmail_def update_users_def split: if_splits)
qed

lemma GetByEmail_email: "GetByEmail email st = Some u \<Longrightarrow> u_email u = email \<and> u \<in> set (as_users st)"
  by (auto simp: GetByEmail_def find_Some_iff split: if_splits)

lemma GetByEmail_frame: "as_users st' = as_users st \<Longrightarrow> as_db st' = as_db st \<Longrightarrow> GetByEmail email st' = GetByEmail email st"
  by (simp add: GetByEmail_def)

lemma LoginUser_wrong:
  assumes "auth_ok P st" "as_db st" "GetByEmail (normal_email email) st = Some u" "u_is_active u"
    "\<not> IsLocked (as_now st) u" "wrong_for P u password" "u_failed_login_count u < 2147483647"
  shows "fst (LoginUser P email password ip ua dev st) = Inl ErrInvalidPassword
    \<and> GetByEmail (normal_email email) (snd (LoginUser P email password ip ua dev st)) = Some (fail_login 5 15 (as_now st) u)
    \<and> as_db (snd (LoginUser P email password ip ua dev st)) \<and> as_now (snd (LoginUser P email password ip ua dev st)) = as_now st"
proof -
  let ?e = "normal_email email"
  note u = GetByEmail_email [OF assms(3)]
  have "v = u" if "v \<in> set (as_users st)" "u_email v = ?e" for v
    using assms(1) u that by (auto simp: auth_ok_def users_ok_def distinct_map inj_on_def)
  then have "\<not> list_ex (\<lambda>v. u_email v = ?e \<and> u_failed_login_count v + 1 > 2147483647) (as_users st)"
    using assms(7) by (fastforce simp: list_ex_iff)
  then have i: "IncrementFailedLogin ?e 5 15 st = update_users (\<lambda>v. u_email v = ?e) (fail_login 5 15 (as_now st)) st"
    by (simp add: IncrementFailedLogin_def)
  have "GetByEmail ?e (IncrementFailedLogin ?e 5 15 st) = Some (fail_login 5 15 (as_now st) u)"
    unfolding i by (rule GetByEmail_update [OF _ assms(3)]) (simp_all add: fail_login_def u)
  then have "GetByEmail ?e (PublishEvent P ty v ip (IncrementFailedLogin ?e 5 15 st)) = Some (fail_login 5 15 (as_now st) u)"
    for ty v by (simp add: GetByEmail_frame [of "PublishEvent P ty v ip (IncrementFailedLogin ?e 5 15 st)"])
  with assms show ?thesis by (simp add: LoginUser_def wrong_for_def)
qed

lemma LoginUser_locked:
  "GetByEmail (normal_email email) st = Some u \<Longrightarrow> IsLocked (as_now st) u
    \<Longrightarrow> LoginUser P email password ip ua dev st = (Inl ErrAccountLocked, st)"
  by (simp add: LoginUser_def)

text \<open>Wrong passwords one after the other, and waiting.\<close>

definition failed_logins :: "auth_params \<Rightarrow> string \<Rightarrow> string list \<Rightarrow> auth_state \<Rightarrow> auth_state" where
  "failed_logins P email pws st = fold (\<lambda>p. snd \<circ> LoginUser P email p [] [] []) pws st"

definition elapse :: "int \<Rightarrow> auth_state \<Rightarrow> auth_state" where
  "elapse d st = st\<lparr>as_now := as_now st + d\<rparr>"

lemma elapse_simps [simp]: "as_now (elapse d st) = as_now st + d" "as_db (elapse d st) = as_db st"
  "GetByEmail email (elapse d st) = GetByEmail email st"
  by (simp_all add: elapse_def GetByEmail_def)

lemma elapse_keeps: "0 \<le> d \<Longrightarrow> auth_ok P st \<Longrightarrow> auth_ok P (elapse d st)"
  by (fastforce simp: auth_ok_def users_ok_def store_ok_def elapse_def)

lemma failed_logins_count:
  assumes "auth_ok P st" "as_db st" "GetByEmail (normal_email email) st = Some u" "u_is_active u"
    "u_locked_until u = None" "u_failed_login_count u = 0"
  shows "\<forall>p \<in> set pws. wrong_for P u p \<Longrightarrow> length pws \<le> 5 \<Longrightarrow>
    auth_ok P (failed_logins P email pws st) \<and> as_db (failed_logins P email pws st)
    \<and> as_now (failed_logins P email pws st) = as_now st
    \<and> GetByEmail (normal_email email) (failed_logins P email pws st) = Some (u\<lparr>u_failed_login_count := length pws,
         u_locked_until := (if length pws = 5 then Some (as_now st + 900000) else None)\<rparr>)"
proof (induction pws rule: rev_induct)
  case Nil
  with assms show ?case by (simp add: failed_logins_def)
next
  case (snoc p pws)
  let ?st = "failed_logins P email pws st"
  let ?u = "u\<lparr>u_failed_login_count := length pws, u_locked_until := None\<rparr>"
  have step: "failed_logins P email (pws @ [p]) st = snd (LoginUser P email p [] [] [] ?st)"
    by (simp add: failed_logins_def)
  have IH: "auth_ok P ?st" "as_db ?st" "as_now ?st = as_now st" "GetByEmail (normal_email email) ?st = Some ?u"
    using snoc by auto
  have "fail_login 5 15 (as_now st) ?u = u\<lparr>u_failed_login_count := length (pws @ [p]),
      u_locked_until := (if length (pws @ [p]) = 5 then Some (as_now st + 900000) else None)\<rparr>"
    using snoc.prems(2) by (simp add: fail_login_def)
  moreover have "wrong_for P ?u p" using snoc.prems(1) by (simp add: wrong_for_def)
  moreover have "length pws < 2147483647" using snoc.prems(2) by simp
  ultimately show ?case
    using LoginUser_wrong [OF IH(1,2,4), of p "[]" "[]" "[]"] LoginUser_keeps [OF IH(1), of email p "[]" "[]" "[]"]
      IH(3) assms(4) by (simp add: step IsLocked_def)
qed

text \<open>
  C11: five wrong passwords lock an account: each is answered as an invalid password; for the
  fifteen minutes after the fifth every login to the account, with the right password too, is
  refused as locked and changes nothing. The counter survives the lock: after it has run out, a
  single wrong password locks the account for another fifteen minutes.
\<close>

theorem account_lockout:
  fixes st u pws email P
  assumes "auth_ok P st" "as_db st" "GetByEmail (normal_email email) st = Some u" "u_is_active u"
    "u_locked_until u = None" "u_failed_login_count u = 0" "\<forall>p \<in> set pws. wrong_for P u p" "length pws = 5"
  defines "st5 \<equiv> failed_logins P email pws st"
  shows "(\<forall>k < 5. fst (LoginUser P email (pws ! k) [] [] [] (failed_logins P email (take k pws) st)) = Inl ErrInvalidPassword)
    \<and> (\<forall>d password. 0 \<le> d \<and> d < 900000 \<longrightarrow>
         LoginUser P email password ip ua dev (elapse d st5) = (Inl ErrAccountLocked, elapse d st5))
    \<and> (\<forall>d wrong. 900000 \<le> d \<and> wrong_for P u wrong \<longrightarrow>
         (\<forall>d' password. 0 \<le> d' \<and> d' < 900000 \<longrightarrow>
            fst (LoginUser P email password ip ua dev (elapse d' (snd (LoginUser P email wrong ip ua dev (elapse d st5)))))
              = Inl ErrAccountLocked))"
proof -
  let ?e = "normal_email email"
  note run = failed_logins_count [OF assms(1-6)]
  define u5 where "u5 = u\<lparr>u_failed_login_count := 5, u_locked_until := Some (as_now st + 900000)\<rparr>"
  have st5: "auth_ok P st5" "as_db st5" "as_now st5 = as_now st" "GetByEmail ?e st5 = Some u5"
    using run [OF assms(7)] assms(8) by (auto simp: st5_def u5_def)
  have "fst (LoginUser P email (pws ! k) [] [] [] (failed_logins P email (take k pws) st)) = Inl ErrInvalidPassword"
    if k: "k < 5" for k
  proof -
    let ?u = "u\<lparr>u_failed_login_count := k, u_locked_until := None\<rparr>" and ?st = "failed_logins P email (take k pws) st"
    have "auth_ok P ?st" "as_db ?st" "GetByEmail ?e ?st = Some ?u"
      using run [of "take k pws"] k assms(7,8) by (auto dest: in_set_takeD)
    from LoginUser_wrong [OF this, of "pws ! k"] k assms(4,7,8) show ?thesis by (simp add: IsLocked_def wrong_for_def)
  qed
  moreover have "LoginUser P email password ip ua dev (elapse d st5) = (Inl ErrAccountLocked, elapse d st5)"
    if "0 \<le> d" "d < 900000" for d password
    using that st5 by (intro LoginUser_locked [of _ _ u5]) (simp_all add: IsLocked_def u5_def)
  moreover have "fst (LoginUser P email password ip ua dev (elapse d' (snd (LoginUser P email wrong ip ua dev (elapse d st5)))))
      = Inl ErrAccountLocked" if "900000 \<le> d" "wrong_for P u wrong" "0 \<le> d'" "d' < 900000" for d d' wrong password
  proof -
    let ?st = "snd (LoginUser P email wrong ip ua dev (elapse d st5))"
    have "auth_ok P (elapse d st5)" using that(1) st5(1) by (simp add: elapse_keeps)
    from LoginUser_wrong [OF this, of email u5 wrong ip ua dev] st5 that(1,2) assms(4)
    have "GetByEmail ?e ?st = Some (fail_login 5 15 (as_now st + d) u5)" "as_now ?st = as_now st + d"
      by (simp_all add: IsLocked_def u5_def wrong_for_def)
    moreover have "IsLocked (as_now st + d + d') (fail_login 5 15 (as_now st + d) u5)"
      using that(3,4) by (simp add: IsLocked_def fail_login_def u5_def)
    ultimately show ?thesis
      using LoginUser_locked [of email "elapse d' ?st" "fail_login 5 15 (as_now st + d) u5"] by simp
  qed
  ultimately show ?thesis by blast
qed

definition sample_auth :: auth_state where
  "sample_auth = \<lparr>as_users = [sample_user], as_sessions = Map.empty, as_families = Map.empty, as_published = [],
     as_db = True, as_redis = True, as_kafka = True, as_draws = 10, as_now = 0\<rparr>"

lemma sample_auth_ok: "auth_ok P sample_auth"
  by (simp add: auth_ok_def users_ok_def store_ok_def sample_auth_def sample_user_def bootstrap_role_def)

lemma sample_email: "normal_email '' Ann@example.org'' = ''ann@example.org''"
  by code_simp

theorem account_lockout_witness:
  "fst (LoginUser sample_params '' Ann@example.org'' ''Correct-Horse9'' [] [] []
     (elapse 899999 (failed_logins sample_params '' Ann@example.org'' [''a'', ''b'', ''c'', ''d'', ''e''] sample_auth)))
   = Inl ErrAccountLocked"
proof -
  have "GetByEmail (normal_email '' Ann@example.org'') sample_auth = Some sample_user"
    unfolding sample_email by (simp add: GetByEmail_def sample_auth_def sample_user_def)
  moreover have "wrong_for sample_params sample_user p" if "p \<noteq> ''Correct-Horse9''" for p
    using that by (auto simp: wrong_for_def sample_params_def sample_user_def) (metis un_text_field)
  ultimately show ?thesis
    using account_lockout [OF sample_auth_ok, of "'' Ann@example.org''" sample_user "[''a'', ''b'', ''c'', ''d'', ''e'']" sample_params]
    by (simp add: sample_auth_def sample_user_def)
qed

end
