(* ===== verification/Auth_Service.thy ===== *)
theory Auth_Service
  imports Accounts
begin

text \<open>
  The auth service behind its router (\<open>handlers/auth_handler.go\<close>, \<open>handlers/router.go\<close>,
  \<open>middleware/auth.go\<close>), the gateway's check of access tokens, and the dashboard's requests against
  them: a whole session, and two requests at a time as \<open>Promise.all\<close> in \<open>useAnalytics\<close> runs them.

  The gateway forwards the paths of the service unchanged. Bodies are below the size limits of the
  handlers.
\<close>

section \<open>Replies\<close>

datatype reply_body = PlainText string | PairJson go_token_pair | UserJson user | MeJson current_user
  | HealthJson bool bool | EmptyBody

record reply =
  rp_status :: nat
  rp_body :: reply_body

text \<open>\<open>http.Error\<close> ends the text with a line break.\<close>

definition http_error :: "string \<Rightarrow> nat \<Rightarrow> reply" where
  "http_error text status = \<lparr>rp_status = status, rp_body = PlainText (text @ [CHR 0x0A])\<rparr>"

section \<open>Requests\<close>

text \<open>Decoding a JSON body into the struct of a handler: missing fields are empty, no body is an error.\<close>

fun decode_register :: "req_body \<Rightarrow> (string \<times> string \<times> string) option" where
  "decode_register (Registration email password name) = Some (email, password, name)"
| "decode_register (Credentials email password) = Some (email, password, [])"
| "decode_register NoBody = None"
| "decode_register _ = Some ([], [], [])"

fun decode_login :: "req_body \<Rightarrow> (string \<times> string) option" where
  "decode_login (Registration email password name) = Some (email, password)"
| "decode_login (Credentials email password) = Some (email, password)"
| "decode_login NoBody = None"
| "decode_login _ = Some ([], [])"

fun decode_refresh :: "req_body \<Rightarrow> string option" where
  "decode_refresh (RefreshBody token) = Some token"
| "decode_refresh NoBody = None"
| "decode_refresh _ = Some []"

definition header :: "request \<Rightarrow> string \<Rightarrow> string" where
  "header rq k = default (rq_headers rq k) []"

definition normalizeIP :: "auth_params \<Rightarrow> string \<Rightarrow> string" where
  "normalizeIP P ip = default (ap_parse_ip P ip) ''0.0.0.0''"

text \<open>\<open>peer\<close> is the host of the connection.\<close>

definition clientIP :: "auth_params \<Rightarrow> string \<Rightarrow> request \<Rightarrow> string" where
  "clientIP P peer rq =
     (let xff = header rq ''X-Forwarded-For''; first = TrimSpace (hd (split_on (CHR '','') xff));
          real = TrimSpace (header rq ''X-Real-IP'') in
      if xff \<noteq> [] \<and> first \<noteq> [] then normalizeIP P first
      else if real \<noteq> [] then normalizeIP P real else normalizeIP P peer)"

section \<open>Handlers\<close>

definition register_handler :: "auth_params \<Rightarrow> string \<Rightarrow> request \<Rightarrow> auth_state \<Rightarrow> reply \<times> auth_state" where
  "register_handler P peer rq st =
     (case decode_register (rq_body rq) of None \<Rightarrow> (http_error ''EOF'' 400, st)
      | Some (email, password, name) \<Rightarrow>
        (case RegisterUser P email password name (clientIP P peer rq) st of
           (Inl e, st') \<Rightarrow> (if e = ErrWeakPassword \<or> e = ErrInvalidEmail then http_error (err_text e) 400
             else http_error ''registration failed'' 500, st')
         | (Inr user, st') \<Rightarrow> (\<lparr>rp_status = 201, rp_body = UserJson user\<rparr>, st')))"

definition login_handler :: "auth_params \<Rightarrow> string \<Rightarrow> request \<Rightarrow> auth_state \<Rightarrow> reply \<times> auth_state" where
  "login_handler P peer rq st =
     (case decode_login (rq_body rq) of None \<Rightarrow> (http_error ''EOF'' 400, st)
      | Some (email, password) \<Rightarrow>
        let agent = header rq ''User-Agent'' in
        (case LoginUser P email password (clientIP P peer rq) agent [(''user_agent'', agent)] st of
           (Inl e, st') \<Rightarrow> (if e = ErrInvalidPassword \<or> e = ErrAccountLocked \<or> e = ErrAccountInactive
             then http_error (err_text e) 401 else http_error ''login failed'' 500, st')
         | (Inr pair, st') \<Rightarrow> (\<lparr>rp_status = 200, rp_body = PairJson pair\<rparr>, st')))"

definition refresh_handler :: "auth_params \<Rightarrow> request \<Rightarrow> auth_state \<Rightarrow> reply \<times> auth_state" where
  "refresh_handler P rq st =
     (case decode_refresh (rq_body rq) of None \<Rightarrow> (http_error ''invalid refresh request'' 400, st)
      | Some token \<Rightarrow>
        if TrimSpace token = [] then (http_error ''invalid refresh request'' 400, st)
        else (case Refresh P token st of
            (Inl e, st') \<Rightarrow> (http_error ''invalid or expired refresh token'' 401, st')
          | (Inr pair, st') \<Rightarrow> (\<lparr>rp_status = 200, rp_body = PairJson pair\<rparr>, st')))"

definition logout_handler :: "auth_params \<Rightarrow> custom_claims \<Rightarrow> auth_state \<Rightarrow> reply \<times> auth_state" where
  "logout_handler P claims st =
     (case ap_parse_uuid P (cl_session_id claims) of None \<Rightarrow> (http_error ''logout failed'' 500, st)
      | Some sessionID \<Rightarrow>
        (case Logout sessionID st of None \<Rightarrow> (http_error ''logout failed'' 500, st)
         | Some st' \<Rightarrow> (\<lparr>rp_status = 204, rp_body = EmptyBody\<rparr>, st')))"

definition me_handler :: "custom_claims \<Rightarrow> reply" where
  "me_handler claims = \<lparr>rp_status = 200, rp_body = MeJson \<lparr>cu_user_id = cl_subject claims, cu_email = cl_email claims,
     cu_role = cl_role claims\<rparr>\<rparr>"

definition public_key_handler :: "auth_params \<Rightarrow> reply" where
  "public_key_handler P = (case ap_public_key P of None \<Rightarrow> http_error ''internal error'' 500
     | Some pem \<Rightarrow> \<lparr>rp_status = 200, rp_body = PlainText pem\<rparr>)"

definition auth_health :: "auth_state \<Rightarrow> reply" where
  "auth_health st = \<lparr>rp_status = (if as_db st \<and> as_redis st then 200 else 503), rp_body = HealthJson (as_db st) (as_redis st)\<rparr>"

section \<open>Middleware and router\<close>

definition RequireAuth :: "auth_params \<Rightarrow> request \<Rightarrow> auth_state \<Rightarrow> reply + custom_claims" where
  "RequireAuth P rq st =
     (let authHeader = header rq ''Authorization'' in
      if authHeader = [] then Inl (http_error ''missing authorization header'' 401)
      else case split_on (CHR '' '') authHeader of
        [scheme, token] \<Rightarrow>
          if scheme \<noteq> ''Bearer'' then Inl (http_error ''invalid authorization header format'' 401)
          else (case ValidateAccessToken P (as_now st) token of
              None \<Rightarrow> Inl (http_error ''invalid or expired token'' 401) | Some claims \<Rightarrow> Inr claims)
      | _ \<Rightarrow> Inl (http_error ''invalid authorization header format'' 401))"

definition RequireRole :: "string list \<Rightarrow> custom_claims \<Rightarrow> reply + custom_claims" where
  "RequireRole allowedRoles claims =
     (if list_ex (\<lambda>role. cl_role claims = role) allowedRoles then Inr claims else Inl (http_error ''forbidden'' 403))"

datatype route = R_health | R_register | R_login | R_refresh | R_public_key | R_me | R_logout | R_admin_stats

definition routes :: "((string \<times> string) \<times> route) list" where
  "routes = [((''GET'', ''/health''), R_health), ((''POST'', ''/api/v1/auth/register''), R_register),
     ((''POST'', ''/api/v1/auth/login''), R_login), ((''POST'', ''/api/v1/auth/refresh''), R_refresh),
     ((''GET'', ''/api/v1/auth/public-key''), R_public_key), ((''GET'', ''/api/v1/auth/me''), R_me),
     ((''POST'', ''/api/v1/auth/logout''), R_logout), ((''GET'', ''/api/v1/auth/admin-stats''), R_admin_stats)]"

fun serve_route :: "auth_params \<Rightarrow> string \<Rightarrow> route \<Rightarrow> request \<Rightarrow> auth_state \<Rightarrow> reply \<times> auth_state" where
  "serve_route P peer R_health rq st = (auth_health st, st)"
| "serve_route P peer R_register rq st = register_handler P peer rq st"
| "serve_route P peer R_login rq st = login_handler P peer rq st"
| "serve_route P peer R_refresh rq st = refresh_handler P rq st"
| "serve_route P peer R_public_key rq st = (public_key_handler P, st)"
| "serve_route P peer R_me rq st = (case RequireAuth P rq st of Inl r \<Rightarrow> (r, st) | Inr claims \<Rightarrow> (me_handler claims, st))"
| "serve_route P peer R_logout rq st =
     (case RequireAuth P rq st of Inl r \<Rightarrow> (r, st) | Inr claims \<Rightarrow> logout_handler P claims st)"
| "serve_route P peer R_admin_stats rq st = (case RequireAuth P rq st of Inl r \<Rightarrow> (r, st)
     | Inr claims \<Rightarrow> (case RequireRole [''admin''] claims of Inl r \<Rightarrow> (r, st)
         | Inr _ \<Rightarrow> (\<lparr>rp_status = 200, rp_body = PlainText ''super secret admin stats''\<rparr>, st)))"

definition auth_serve :: "auth_params \<Rightarrow> string \<Rightarrow> string \<Rightarrow> request \<Rightarrow> auth_state \<Rightarrow> reply \<times> auth_state" where
  "auth_serve P peer path rq st = (case map_of routes (rq_method rq, path) of
     Some r \<Rightarrow> serve_route P peer r rq st
   | None \<Rightarrow> if list_ex (\<lambda>((m, p), r). p = path) routes then (\<lparr>rp_status = 405, rp_body = EmptyBody\<rparr>, st)
       else (http_error ''404 page not found'' 404, st))"

section \<open>The service over time\<close>

text \<open>Requests, time passing, and stores going down and up between requests.\<close>

datatype auth_input = Http string string request | Elapse nat | Outage bool bool bool

fun auth_step :: "auth_params \<Rightarrow> auth_input \<Rightarrow> auth_state \<Rightarrow> auth_state" where
  "auth_step P (Http peer path rq) st = snd (auth_serve P peer path rq st)"
| "auth_step P (Elapse d) st = elapse (int d) st"
| "auth_step P (Outage db redis kafka) st = st\<lparr>as_db := db, as_redis := redis, as_kafka := kafka\<rparr>"

definition auth_init :: auth_state where
  "auth_init = \<lparr>as_users = [], as_sessions = Map.empty, as_families = Map.empty, as_published = [],
     as_db = True, as_redis = True, as_kafka = True, as_draws = 0, as_now = 0\<rparr>"

lemma serve_keeps:
  assumes "sha_ok P" "auth_ok P st"
  shows "auth_ok P (snd (auth_serve P peer path rq st))"
proof -
  have "auth_ok P (snd (serve_route P peer r rq st))" for r
  proof (cases r)
    case R_register
    then show ?thesis using RegisterUser_keeps [OF assms(2)]
      by (auto simp: register_handler_def assms split: option.split prod.split sum.split) (metis snd_conv)+
  next
    case R_login
    then show ?thesis using LoginUser_keeps [OF assms(2)]
      by (auto simp: login_handler_def Let_def assms split: option.split prod.split sum.split) (metis snd_conv)+
  next
    case R_refresh
    then show ?thesis using Refresh_keeps [OF assms]
      by (auto simp: refresh_handler_def assms split: option.split prod.split sum.split) (metis snd_conv)+
  next
    case R_logout
    then show ?thesis using Logout_keeps [OF assms(2)]
      by (auto simp: logout_handler_def assms split: option.split sum.split)
  qed (auto simp: assms split: sum.split)
  then show ?thesis by (simp add: auth_serve_def assms split: option.split)
qed

interpretation auth: machine "auth_step P" "\<lambda>st. sha_ok P \<and> auth_ok P st" for P
proof
  fix st i
  assume "sha_ok P \<and> auth_ok P st"
  then show "sha_ok P \<and> auth_ok P (auth_step P i st)"
    by (cases i) (auto simp: serve_keeps elapse_keeps intro: auth_ok_frame)
qed

lemma auth_init_ok: "auth_ok P auth_init"
  by (simp add: auth_ok_def users_ok_def store_ok_def auth_init_def)

section \<open>No refresh succeeds\<close>

definition live_session :: "string \<Rightarrow> auth_state \<Rightarrow> bool" where
  "live_session i st \<longleftrightarrow> (\<exists>s. GetByID i st = Some s \<and> \<not> s_is_revoked s)"

lemma Refresh_ends_session:
  assumes "sha_ok P" "store_ok P st" "ValidateRefreshToken P token = Some i"
  shows "\<not> live_session i (snd (Refresh P token st))
    \<and> (live_session i st \<longrightarrow> fst (Refresh P token st) = Inl ErrRefreshReuse)"
  using RevokeFamily_kills [OF assms(2), of i] assms(3)
  by (auto simp: Refresh_eq [OF assms(1)] live_session_def split: option.split)

text \<open>
  C2: the refresh operation of the auth service never renews a session. Because the digest of the
  refresh token is left out when a session is stored, in every state the service can reach, through
  any requests, waiting times and outages, every refresh is refused; a token that names a live
  session is refused as stolen, and the session it names is gone afterwards.
\<close>

theorem refresh_always_refused:
  fixes P inputs token
  assumes "sha_ok P"
  defines "st \<equiv> fold (auth_step P) inputs auth_init"
  shows "(\<exists>e \<in> {ErrInvalidRefresh, ErrRefreshReuse}. fst (Refresh P token st) = Inl e)
    \<and> (\<forall>i. ValidateRefreshToken P token = Some i \<longrightarrow>
         \<not> live_session i (snd (Refresh P token st))
         \<and> (live_session i st \<longrightarrow> fst (Refresh P token st) = Inl ErrRefreshReuse))"
proof -
  have "auth_ok P st" unfolding st_def using auth.run [of P auth_init inputs] assms(1) auth_init_ok by blast
  then have "store_ok P st" by (simp add: auth_ok_def)
  with Refresh_ends_session [OF assms(1) this] show ?thesis
    by (auto simp: Refresh_eq [OF assms(1)] split: option.split)
qed

text \<open>
  Only the first account is an administrator, in every state the service can reach by requests that
  run one after the other.
\<close>

lemma one_admin:
  assumes "sha_ok P" "u \<in> set (as_users (fold (auth_step P) inputs auth_init))" "u_role u = RoleAdmin"
  shows "u = hd (as_users (fold (auth_step P) inputs auth_init))"
proof -
  let ?us = "as_users (fold (auth_step P) inputs auth_init)"
  have "users_ok (fold (auth_step P) inputs auth_init)"
    using auth.run [of P auth_init inputs] assms(1) auth_init_ok by (simp add: auth_ok_def)
  moreover obtain k where k: "k < length ?us" "u = ?us ! k" using assms(2) by (auto simp: in_set_conv_nth)
  ultimately have "bootstrap_role k = RoleAdmin"
    using assms(3) nth_map [OF k(1), of u_role] by (simp add: users_ok_def)
  with k show ?thesis by (auto simp: bootstrap_role_def hd_conv_nth split: if_splits)
qed

section \<open>A session from login to its end\<close>

lemma open_session_opens:
  assumes "open_session P user ip ua dev st = (Inr pair, st')"
  shows "\<exists>k n s. GenerateTokenPair P (as_now st) user (ap_uuid P k) n = (Some pair, n + 1) \<and> as_now st' = as_now st
    \<and> GetByID (ap_uuid P k) st' = Some s \<and> \<not> s_is_revoked s \<and> s_expires_at s = as_now st + ap_refreshTTL P"
proof -
  let ?i = "ap_uuid P (as_draws st)" and ?n = "Suc (Suc (as_draws st))"
  obtain g n where g: "GenerateTokenPair P (as_now st) user ?i ?n = (g, n)" by fastforce
  then have "n = ?n + 1 \<or> g = None" by (auto simp: GenerateTokenPair_def split: option.splits)
  moreover have p: "g = Some pair"
    using assms g by (auto simp: open_session_def draw_uuid_def Let_def split: option.splits)
  ultimately have "GenerateTokenPair P (as_now st) user ?i ?n = (Some pair, ?n + 1)" using g by simp
  moreover have "as_now st' = as_now st \<and> (\<exists>s. GetByID ?i st' = Some s \<and> \<not> s_is_revoked s
      \<and> s_expires_at s = as_now st + ap_refreshTTL P)"
    using assms g p
    by (auto simp: open_session_def draw_uuid_def Let_def Create_def GetByID_def split: option.splits if_splits)
  ultimately show ?thesis by blast
qed

lemma LoginUser_opens:
  assumes "LoginUser P email password ip ua dev st = (Inr pair, st')"
  shows "\<exists>user k n s. GenerateTokenPair P (as_now st) user (ap_uuid P k) n = (Some pair, n + 1)
    \<and> GetByEmail (normal_email email) st = Some user \<and> as_now st' = as_now st
    \<and> GetByID (ap_uuid P k) st' = Some s \<and> \<not> s_is_revoked s \<and> s_expires_at s = as_now st + ap_refreshTTL P"
proof -
  obtain user where u: "GetByEmail (normal_email email) st = Some user"
    using assms by (auto simp: LoginUser_def Let_def split: option.splits)
  let ?st = "UpdateLastLogin (u_id user) (if u_failed_login_count user > 0 then ResetFailedLogin (u_id user) st else st)"
  have now: "as_now ?st = as_now st" by (simp add: UpdateLastLogin_def ResetFailedLogin_def)
  have "open_session P user ip ua dev ?st = (Inr pair, st')"
    using assms u by (auto simp: LoginUser_def Let_def split: if_splits)
  from open_session_opens [OF this] show ?thesis unfolding now
    using u by blast
qed

text \<open>With its stores up and a matching password the login of an open account succeeds.\<close>

lemma open_session_succeeds:
  assumes "jwt_ok P" "random_ok P" "as_redis st" "0 < ap_refreshTTL P"
  shows "\<exists>pair st'. open_session P user ip ua dev st = (Inr pair, st')"
proof -
  obtain t where t: "ap_sign P (claims_of P (as_now st) user (ap_uuid P (as_draws st))) = Some t"
    using assms(1) unfolding jwt_ok_def by metis
  obtain bs where b: "ap_random P (Suc (Suc (as_draws st))) = Some bs" using assms(2) by (auto simp: random_ok_def)
  from assms(3,4) t b show ?thesis
    by (simp add: open_session_def draw_uuid_def GenerateTokenPair_def Create_def Let_def)
qed

lemma LoginUser_succeeds:
  assumes "jwt_ok P" "random_ok P" "as_redis st" "0 < ap_refreshTTL P"
    and "GetByEmail (normal_email email) st = Some user" "\<not> IsLocked (as_now st) user" "u_is_active user"
    and "ap_compare P (u_password_hash user) password"
  shows "\<exists>pair st'. LoginUser P email password ip ua dev st = (Inr pair, st')"
  using assms by (simp add: LoginUser_def Let_def UpdateLastLogin_def ResetFailedLogin_def open_session_succeeds)

section \<open>The dashboard's requests against the service\<close>

text \<open>
  What the dashboard reads from a reply: a token pair or a user from its JSON, the text of any
  reply; reading JSON from a plain text rejects. \<open>base\<close> is the address of the gateway.
\<close>

definition pair_of :: "reply \<Rightarrow> token_pair response" where
  "pair_of r = \<lparr>rs_status = rp_status r, rs_json = (case rp_body r of
     PairJson pair \<Rightarrow> Inr (token_pair.truncate pair) | _ \<Rightarrow> Inl JsOther)\<rparr>"

definition me_of :: "reply \<Rightarrow> current_user response" where
  "me_of r = \<lparr>rs_status = rp_status r, rs_json = (case rp_body r of MeJson u \<Rightarrow> Inr u | _ \<Rightarrow> Inl JsOther)\<rparr>"

definition text_of :: "auth_params \<Rightarrow> reply \<Rightarrow> string response" where
  "text_of P r = \<lparr>rs_status = rp_status r, rs_json = (case rp_body r of
     PlainText t \<Rightarrow> Inr t | UserJson u \<Rightarrow> Inr (ap_user_json P u) | _ \<Rightarrow> Inr [])\<rparr>"

definition auth_endpoint :: "auth_params \<Rightarrow> string \<Rightarrow> string \<Rightarrow> (reply \<Rightarrow> 'b response) \<Rightarrow> (auth_state, 'b) endpoint" where
  "auth_endpoint P peer base conv rq st =
     (case auth_serve P peer (drop (length base) (rq_url rq)) rq st of (r, st') \<Rightarrow> (Inr (conv r), st'))"

definition auth_api :: "auth_params \<Rightarrow> string \<Rightarrow> string \<Rightarrow> auth_state api \<Rightarrow> auth_state api" where
  "auth_api P peer base api = api\<lparr>ep_refresh := auth_endpoint P peer base pair_of,
     ep_login := auth_endpoint P peer base pair_of, ep_register := auth_endpoint P peer base (text_of P),
     ep_public_key := auth_endpoint P peer base (text_of P), ep_me := auth_endpoint P peer base me_of\<rparr>"

text \<open>
  A protected route behind the gateway: 401 unless the check accepts the Authorization header.
  \<open>VerifyJWT\<close> is the check of the gateway once it holds the service's key, configured with the same
  issuer and audience.
\<close>

definition protected_ep :: "(string option \<Rightarrow> auth_state \<Rightarrow> bool) \<Rightarrow> 'b \<Rightarrow> (auth_state, 'b) endpoint" where
  "protected_ep accepts body rq st =
     (Inr \<lparr>rs_status = (if accepts (rq_headers rq ''Authorization'') st then 200 else 401),
        rs_json = Inr body\<rparr>, st)"

definition go_fields :: "string \<Rightarrow> string list" where
  "go_fields s = filter (\<lambda>w. w \<noteq> []) (split_on (CHR '' '') (map (\<lambda>c. if go_space c then CHR '' '' else c) s))"

definition VerifyJWT :: "auth_params \<Rightarrow> string option \<Rightarrow> auth_state \<Rightarrow> bool" where
  "VerifyJWT P authHeader st = (case go_fields (default authHeader []) of
     [scheme, token] \<Rightarrow> scheme = ''Bearer''
       \<and> ap_parse_claims P (ap_issuer P) (ap_audience P) (as_now st) token \<noteq> None
   | _ \<Rightarrow> False)"

lemma auth_endpoint_refresh:
  "auth_endpoint P peer (getAPIURL ev) pair_of (refresh_request ev token) st =
     (case refresh_handler P (refresh_request ev token) st of (r, st') \<Rightarrow> (Inr (pair_of r), st'))"
  by (simp add: auth_endpoint_def auth_serve_def refresh_request_def routes_def)

lemma refresh_endpoint_refuses:
  assumes "sha_ok P"
  shows "\<exists>resp. auth_endpoint P peer (getAPIURL ev) pair_of (refresh_request ev token) st
      = (Inr resp, if TrimSpace token = [] then st else snd (Refresh P token st)) \<and> \<not> ok resp"
  unfolding auth_endpoint_refresh
  by (auto simp: refresh_handler_def refresh_request_def Refresh_eq [OF assms] http_error_def pair_of_def ok_def
      split: option.split)

lemma TrimSpace_nonempty: "c \<in> set s \<Longrightarrow> \<not> go_space c \<Longrightarrow> TrimSpace s \<noteq> []"
proof
  assume c: "c \<in> set s" "\<not> go_space c" "TrimSpace s = []"
  then have "\<forall>x \<in> set (dropWhile go_space s). go_space x" by (simp add: TrimSpace_def)
  moreover have "c \<in> set (dropWhile go_space s)"
    using c(1,2) by (metis set_takeWhileD takeWhile_dropWhile_id Un_iff set_append)
  ultimately show False using c(2) by blast
qed

lemma go_space_blank: "go_space (CHR '' '')"
  by (simp add: go_space_def char_code_def)

lemma go_fields_bearer:
  assumes "word_token t"
  shows "go_fields (''Bearer '' @ t) = [''Bearer'', t]"
proof -
  have "map (\<lambda>c. if go_space c then CHR '' '' else c) t = t"
    using assms by (simp add: word_token_def map_idI)
  moreover have "CHR '' '' \<notin> set t" using assms go_space_blank by (auto simp: word_token_def)
  moreover have "map (\<lambda>c. if go_space c then CHR '' '' else c) ''Bearer '' = ''Bearer ''" by code_simp
  ultimately have "go_fields (''Bearer '' @ t) = filter (\<lambda>w. w \<noteq> []) (split_on (CHR '' '') (''Bearer'' @ CHR '' '' # t))"
    by (simp only: go_fields_def map_append) simp
  moreover have "CHR '' '' \<notin> set ''Bearer''" by code_simp
  ultimately show ?thesis
    using assms split_on_free [OF \<open>CHR '' '' \<notin> set t\<close>]
    by (simp only: split_on_append) (simp add: word_token_def)
qed

lemma VerifyJWT_bearer:
  "word_token t \<Longrightarrow> VerifyJWT P (Some (''Bearer '' @ t)) st
    \<longleftrightarrow> ap_parse_claims P (ap_issuer P) (ap_audience P) (as_now st) t \<noteq> None"
  unfolding VerifyJWT_def default_simps by (subst go_fields_bearer) simp_all

section \<open>The life of a sign-in\<close>

text \<open>The branch of the wrapper on which the refresh is refused.\<close>

lemma apiFetch_refused:
  assumes "ep (with_auth ev (w_storage w) init) (w_server w) = (Inr resp, s1)"
    and "rs_status resp = 401" "env_window ev \<noteq> None"
    and "w_storage w refresh_key = Some token" "token \<noteq> []"
    and "refresh_ep (refresh_request ev token) s1 = (Inr refused, s2)" "\<not> ok refused"
  shows "apiFetch ev refresh_ep ep init w = (Inr resp, w\<lparr>w_server := s2,
      w_sent := w_sent w @ [with_auth ev (w_storage w) init, refresh_request ev token]\<rparr>)"
  using assms unfolding apiFetch_def bindE_def send_auth_eq do_fetch_world
  by (auto simp: getItem_def readE_def returnE_def)

definition bearer :: "(string \<rightharpoonup> string) \<Rightarrow> string option" where
  "bearer storage = (case storage access_key of
     None \<Rightarrow> None | Some t \<Rightarrow> if t = [] then None else Some (''Bearer '' @ t))"

lemma bearer_header:
  "env_window ev \<noteq> None \<Longrightarrow> rq_headers init = Map.empty
    \<Longrightarrow> rq_headers (with_auth ev m init) ''Authorization'' = bearer m"
  by (auto simp: with_auth_def bearer_def split: option.split)

lemma issued_tokens:
  assumes "jwt_ok P" "uuid_ok P" "random_ok P"
    and "GenerateTokenPair P now user (ap_uuid P k) n = (Some pair, m)"
  shows "ValidateRefreshToken P (refresh_token pair) = Some (ap_uuid P k)"
    and "TrimSpace (refresh_token pair) \<noteq> []" "word_token (access_token pair)"
    and "ap_parse_claims P iss aud t (access_token pair) =
      (if iss = ap_issuer P \<and> aud = ap_audience P \<and> numeric_date now \<le> t \<and> t < numeric_date (now + ap_accessTTL P)
       then Some (claims_of P now user (ap_uuid P k)) else None)"
proof -
  obtain a where a: "ap_sign P (claims_of P now user (ap_uuid P k)) = Some a" "word_token a"
    "\<And>iss aud t. ap_parse_claims P iss aud t a = (if ap_issuer P = iss \<and> aud = ap_audience P \<and> numeric_date now \<le> t
       \<and> t < numeric_date (now + ap_accessTTL P) then Some (claims_of P now user (ap_uuid P k)) else None)"
    using assms(1) unfolding jwt_ok_def by (auto simp: claims_of_def dest!: spec [of _ "claims_of P now user (ap_uuid P k)"])
  obtain bs where b: "ap_random P n = Some bs" "length bs = 32" "\<forall>b \<in> set bs. b < 256"
    using assms(3) by (auto simp: random_ok_def)
  have pair: "access_token pair = a" "refresh_token pair = ap_uuid P k @ ''.'' @ b64_encode bs"
    using assms(4) a(1) b(1) by (auto simp: GenerateTokenPair_def)
  show "ValidateRefreshToken P (refresh_token pair) = Some (ap_uuid P k)"
    using refresh_token_validates [OF assms(2) b(3,2)] by (simp add: pair)
  have "\<not> go_space (CHR ''.'')" by (simp add: go_space_def char_code_def)
  moreover have "CHR ''.'' \<in> set (refresh_token pair)" by (simp add: pair)
  ultimately show "TrimSpace (refresh_token pair) \<noteq> []" using TrimSpace_nonempty by blast
  show "word_token (access_token pair)" using a(2) by (simp add: pair)
  show "ap_parse_claims P iss aud t (access_token pair) =
      (if iss = ap_issuer P \<and> aud = ap_audience P \<and> numeric_date now \<le> t \<and> t < numeric_date (now + ap_accessTTL P)
       then Some (claims_of P now user (ap_uuid P k)) else None)" using a(3) by (auto simp: pair)
qed

lemma live_session_elapse: "0 \<le> d \<Longrightarrow> live_session i (elapse d st) \<Longrightarrow> live_session i st"
  by (auto simp: live_session_def GetByID_def elapse_def split: option.splits if_splits)

text \<open>
  C5: a sign-in cannot outlive its first access token. With the tokens of a successful login stored,
  the first authenticated request after the access time has passed is answered 401 and not retried:
  the service takes the untouched refresh token for a stolen one and deletes the session the login
  opened. The dead tokens stay in the browser, so the gate still lets the visitor in.
\<close>

theorem signin_ends_with_access_token:
  fixes w :: "auth_state world" and body :: 'b
  assumes lib: "sha_ok P" "uuid_ok P" "random_ok P" "jwt_ok P"
    and login: "LoginUser P email password ip ua dev st = (Inr pair, st')" "auth_ok P st"
    and stored: "w_storage w access_key = Some (access_token pair)" "w_storage w refresh_key = Some (refresh_token pair)"
    and later: "w_server w = elapse d st'" "0 \<le> d" "ap_accessTTL P \<le> d"
    and request: "env_window ev \<noteq> None" "rq_headers init = Map.empty"
  shows "\<exists>resp w' i. apiFetch ev (auth_endpoint P peer (getAPIURL ev) pair_of) (protected_ep (VerifyJWT P) body) init w
      = (Inr resp, w') \<and> rs_status resp = 401 \<and> w_storage w' = w_storage w
    \<and> length (w_sent w') = length (w_sent w) + 2
    \<and> live_session i st' \<and> \<not> live_session i (w_server w')
    \<and> (\<exists>g. (bindE (gate_mount path) (gate_run [ReadyTimer])) w' = (Inr g, w') \<and> gate_open g)"
proof -
  obtain user k n s where g: "GenerateTokenPair P (as_now st) user (ap_uuid P k) n = (Some pair, n + 1)"
    and now: "as_now st' = as_now st" and s: "GetByID (ap_uuid P k) st' = Some s" "\<not> s_is_revoked s"
    using LoginUser_opens [OF login(1)] by blast
  note tok = issued_tokens [OF lib(4,2,3) g]
  let ?t = "refresh_token pair" and ?ep = "protected_ep (VerifyJWT P) body :: (auth_state, 'b) endpoint"
  have "auth_ok P st'" using LoginUser_keeps [OF login(2), of email password ip ua dev] login(1) by simp
  then have store: "store_ok P (w_server w)" using later elapse_keeps by (simp add: auth_ok_def)
  have "bearer (w_storage w) = Some (''Bearer '' @ access_token pair)"
    using stored(1) tok(3) by (simp add: bearer_def word_token_def)
  moreover have "\<not> as_now (w_server w) < numeric_date (as_now st + ap_accessTTL P)"
    using later now by (simp add: numeric_date_def)
  ultimately have first: "?ep (with_auth ev (w_storage w) init) (w_server w)
      = (Inr \<lparr>rs_status = 401, rs_json = Inr body\<rparr>, w_server w)"
    by (simp only: protected_ep_def bearer_header [OF request] VerifyJWT_bearer [OF tok(3)] tok(4)) simp
  obtain refused where refused: "auth_endpoint P peer (getAPIURL ev) pair_of (refresh_request ev ?t) (w_server w)
      = (Inr refused, snd (Refresh P ?t (w_server w)))" "\<not> ok refused"
    using refresh_endpoint_refuses [OF lib(1), of peer ev ?t "w_server w"] tok(2) by auto
  have "?t \<noteq> []" using tok(2) by (auto simp: TrimSpace_def)
  define w' where "w' = w\<lparr>w_server := snd (Refresh P ?t (w_server w)),
      w_sent := w_sent w @ [with_auth ev (w_storage w) init, refresh_request ev ?t]\<rparr>"
  have run: "apiFetch ev (auth_endpoint P peer (getAPIURL ev) pair_of) ?ep init w
      = (Inr \<lparr>rs_status = 401, rs_json = Inr body\<rparr>, w')"
    unfolding w'_def by (rule apiFetch_refused) (use first request stored refused \<open>?t \<noteq> []\<close> in simp_all)
  have "live_session (ap_uuid P k) st'" using s by (auto simp: live_session_def)
  moreover have "\<not> live_session (ap_uuid P k) (w_server w')"
    using Refresh_ends_session [OF lib(1) store tok(1)] by (simp add: w'_def)
  moreover have "w_storage w' = w_storage w" "length (w_sent w') = length (w_sent w) + 2" by (simp_all add: w'_def)
  moreover have "access_token pair \<noteq> []" using tok(3) by (simp add: word_token_def)
  then have "\<exists>g. (bindE (gate_mount path) (gate_run [ReadyTimer])) w' = (Inr g, w') \<and> gate_open g"
    using stored(1) by (intro gate_opens) (simp_all add: w'_def)
  ultimately show ?thesis using run by (metis response.select_convs(1))
qed

lemma sample_login:
  "\<exists>pair st'. LoginUser sample_params '' Ann@example.org'' ''Correct-Horse9'' [] [] [] sample_auth = (Inr pair, st')"
proof -
  have "GetByEmail (normal_email '' Ann@example.org'') sample_auth = Some sample_user"
    unfolding sample_email by (simp add: GetByEmail_def sample_auth_def sample_user_def)
  then show ?thesis
    by (intro LoginUser_succeeds [OF sample_params_ok(4,3), where user = sample_user])
      (simp_all add: sample_params_def sample_user_def sample_auth_def IsLocked_def)
qed

theorem signin_ends_with_access_token_witness:
  "\<exists>pair st' resp w' i. LoginUser sample_params '' Ann@example.org'' ''Correct-Horse9'' [] [] [] sample_auth = (Inr pair, st')
     \<and> apiFetch local_env (auth_endpoint sample_params [] (getAPIURL local_env) pair_of)
         (protected_ep (VerifyJWT sample_params) ()) (get_request ''/api'')
         \<lparr>w_storage = [access_key \<mapsto> access_token pair, refresh_key \<mapsto> refresh_token pair],
          w_server = elapse 900000 st', w_sent = [], w_location = []\<rparr> = (Inr resp, w')
     \<and> rs_status resp = 401 \<and> live_session i st' \<and> \<not> live_session i (w_server w')"
proof -
  obtain pair st' where l: "LoginUser sample_params '' Ann@example.org'' ''Correct-Horse9'' [] [] [] sample_auth = (Inr pair, st')"
    using sample_login by blast
  have "ap_accessTTL sample_params \<le> 900000" by (simp add: sample_params_def)
  with signin_ends_with_access_token [OF sample_params_ok(1-4) l sample_auth_ok, of
      "\<lparr>w_storage = [access_key \<mapsto> access_token pair, refresh_key \<mapsto> refresh_token pair],
        w_server = elapse 900000 st', w_sent = [], w_location = []\<rparr>" 900000 local_env "get_request ''/api''"
      "[]" "()" "''/''"] l
  show ?thesis by (simp add: local_env_def get_request_def del: gate_run.simps) blast
qed

section \<open>Two requests at once\<close>

text \<open>
  One call of the wrapper, cut at its \<open>await\<close> points: the first request is under way with the
  token it was sent with; the refresh request is under way; the server rotated the pair or refused,
  and its answer is under way; the retry is under way; the call returned with a status. Between
  two points a call runs undisturbed; the other call may run in between.
\<close>

datatype phase = Awaiting "string option" | Refreshing string | Rotated token_pair | Refused
  | Retrying "string option" | Returned nat

fun task_step :: "auth_params \<Rightarrow> (string option \<Rightarrow> auth_state \<Rightarrow> bool) \<Rightarrow> phase \<times> (string \<rightharpoonup> string) \<times> auth_state
    \<Rightarrow> phase \<times> (string \<rightharpoonup> string) \<times> auth_state" where
  "task_step P accepts (Awaiting h, m, st) =
     (if accepts h st then (Returned 200, m, st)
      else if \<not> truthy (m refresh_key) then (Returned 401, m, st)
      else (Refreshing (the (m refresh_key)), m, st))"
| "task_step P accepts (Refreshing t, m, st) =
     (if TrimSpace t = [] then (Refused, m, st)
      else case Refresh P t st of
        (Inl e, st') \<Rightarrow> (Refused, m, st') | (Inr pair, st') \<Rightarrow> (Rotated (token_pair.truncate pair), m, st'))"
| "task_step P accepts (Rotated pair, m, st) =
     (let m' = m(access_key \<mapsto> access_token pair, refresh_key \<mapsto> refresh_token pair)
      in (Retrying (bearer m'), m', st))"
| "task_step P accepts (Refused, m, st) = (Returned 401, m, st)"
| "task_step P accepts (Retrying h, m, st) =
     (Returned (if accepts h st then 200 else 401), m, st)"
| "task_step P accepts (Returned s, m, st) = (Returned s, m, st)"

text \<open>\<open>Promise.all\<close> of two calls under a schedule that says which call runs next.\<close>

type_synonym pair_state = "phase \<times> phase \<times> (string \<rightharpoonup> string) \<times> auth_state"

fun both_step :: "auth_params \<Rightarrow> (string option \<Rightarrow> auth_state \<Rightarrow> bool) \<Rightarrow> bool \<Rightarrow> pair_state \<Rightarrow> pair_state" where
  "both_step P accepts left (p, q, ms) =
     (if left then (case task_step P accepts (p, ms) of (p', ms') \<Rightarrow> (p', q, ms'))
      else (case task_step P accepts (q, ms) of (q', ms') \<Rightarrow> (p, q', ms')))"

text \<open>
  C13: cutting the wrapper at its \<open>await\<close> points is faithful: a call that runs alone through its
  four steps returns the status of the uninterrupted wrapper and leaves the same storage and the
  same server state.
\<close>

theorem task_refines_wrapper:
  fixes w :: "auth_state world" and body :: 'b
  assumes "env_window ev \<noteq> None" "rq_headers init = Map.empty"
  shows "\<exists>resp w'. fetchWithRefresh ev (auth_endpoint P peer (getAPIURL ev) pair_of) (protected_ep accepts body) init w
      = (Inr resp, w')
    \<and> (task_step P accepts ^^ 4) (Awaiting (bearer (w_storage w)), w_storage w, w_server w)
      = (Returned (rs_status resp), w_storage w', w_server w')"
proof -
  let ?m = "w_storage w" and ?st = "w_server w"
  note defs = fetchWithRefresh_apiFetch apiFetch_def bindE_def send_auth_eq do_fetch_world protected_ep_def
    bearer_header [OF assms] auth_endpoint_refresh refresh_handler_def ok_def getItem_def setItem_def
    modifyE_def readE_def returnE_def json_of_def throwE_def numeral_eq_Suc pair_of_def http_error_def
  consider "accepts (bearer ?m) ?st" | "\<not> accepts (bearer ?m) ?st" "\<not> truthy (?m refresh_key)"
    | token where "\<not> accepts (bearer ?m) ?st" "?m refresh_key = Some token" "token \<noteq> []"
    by (cases "?m refresh_key") (auto simp: truthy_def)
  then show ?thesis
  proof cases
    case 1
    then show ?thesis by (simp add: defs)
  next
    case 2
    then show ?thesis by (simp add: defs)
  next
    case (3 token)
    have body: "rq_body (refresh_request ev token) = RefreshBody token" by (simp add: refresh_request_def)
    show ?thesis
    proof (cases "TrimSpace token = []")
      case True
      with 3 assms(1) body show ?thesis by (simp add: defs)
    next
      case False
      obtain r st' where r: "Refresh P token ?st = (r, st')" by fastforce
      show ?thesis using 3 False r assms(1) body by (cases r; cases "env_window ev") (simp_all add: defs Let_def)
    qed
  qed
qed

theorem task_refines_wrapper_witness:
  "\<exists>resp w'. fetchWithRefresh local_env (auth_endpoint sample_params [] (getAPIURL local_env) pair_of)
       (protected_ep (\<lambda>_ _. False) ()) (get_request ''/api'')
       \<lparr>w_storage = [refresh_key \<mapsto> ''u1.x''], w_server = sample_auth, w_sent = [], w_location = []\<rparr> = (Inr resp, w')
    \<and> (task_step sample_params (\<lambda>_ _. False) ^^ 4) (Awaiting None, [refresh_key \<mapsto> ''u1.x''], sample_auth)
      = (Returned (rs_status resp), w_storage w', w_server w')"
  using task_refines_wrapper [of local_env "get_request ''/api''" sample_params "[]"
      "\<lambda>_ _. False" "()" "\<lparr>w_storage = [refresh_key \<mapsto> ''u1.x''], w_server = sample_auth, w_sent = [],
        w_location = []\<rparr>"]
  by (simp add: local_env_def get_request_def bearer_def)

text \<open>The phases of a call whose token is rejected and whose refresh is refused, by its number of steps.\<close>

definition refused_phase :: "string option \<Rightarrow> string \<Rightarrow> nat \<Rightarrow> phase" where
  "refused_phase h t k = (if k = 0 then Awaiting h else if k = 1 then Refreshing t else if k = 2 then Refused else Returned 401)"

lemma refused_step:
  assumes "sha_ok P" "auth_ok P st" "m refresh_key = Some t" "TrimSpace t \<noteq> []" "ValidateRefreshToken P t = Some i"
    and "\<not> accepts h st"
  shows "\<exists>st'. task_step P accepts (refused_phase h t k, m, st) = (refused_phase h t (Suc k), m, st')
    \<and> auth_ok P st' \<and> as_now st' = as_now st \<and> (k = 1 \<or> \<not> live_session i st \<longrightarrow> \<not> live_session i st')"
proof -
  have "t \<noteq> []" using assms(4) by (auto simp: TrimSpace_def)
  have "\<exists>e st'. Refresh P t st = (Inl e, st') \<and> as_now st' = as_now st"
    unfolding Refresh_eq [OF assms(1)] by (auto split: option.split)
  then obtain e st' where r: "Refresh P t st = (Inl e, st')" "as_now st' = as_now st" by blast
  have "store_ok P st" using assms(2) by (simp add: auth_ok_def)
  with r(1) Refresh_ends_session [OF assms(1) _ assms(5), of st] Refresh_keeps [OF assms(1,2), of t]
  have "\<not> live_session i st'" "auth_ok P st'" by simp_all
  with r assms \<open>t \<noteq> []\<close> show ?thesis by (simp add: refused_phase_def)
qed

text \<open>
  C12: two requests that are rejected at the same time end the same way as one: whatever the order
  of their steps, once each has run its course both return 401, the stored tokens are as before, and
  the session they belong to is gone.
\<close>

theorem concurrent_refreshes_end_session:
  assumes "sha_ok P" "auth_ok P st" "m refresh_key = Some t" "TrimSpace t \<noteq> []" "ValidateRefreshToken P t = Some i"
    and rejected: "\<And>st'. as_now st' = as_now st \<Longrightarrow> \<not> accepts (bearer m) st'"
    and "3 \<le> length (filter (\<lambda>b. b) schedule)" "3 \<le> length (filter (\<lambda>b. \<not> b) schedule)"
  shows "\<exists>st'. fold (both_step P accepts) schedule (Awaiting (bearer m), Awaiting (bearer m), m, st)
      = (Returned 401, Returned 401, m, st') \<and> \<not> live_session i st'"
proof -
  let ?h = "bearer m"
  have "\<exists>st'. fold (both_step P accepts) bs (refused_phase ?h t 0, refused_phase ?h t 0, m, st)
      = (refused_phase ?h t (length (filter (\<lambda>b. b) bs)), refused_phase ?h t (length (filter (\<lambda>b. \<not> b) bs)), m, st')
    \<and> auth_ok P st' \<and> as_now st' = as_now st
    \<and> (2 \<le> length (filter (\<lambda>b. b) bs) \<or> 2 \<le> length (filter (\<lambda>b. \<not> b) bs) \<longrightarrow> \<not> live_session i st')" for bs
  proof (induction bs rule: rev_induct)
    case Nil
    then show ?case using assms(2) by simp
  next
    case (snoc b bs)
    let ?n = "if b then length (filter (\<lambda>b. b) bs) else length (filter (\<lambda>b. \<not> b) bs)"
    obtain st1 where 1: "fold (both_step P accepts) bs (refused_phase ?h t 0, refused_phase ?h t 0, m, st)
        = (refused_phase ?h t (length (filter (\<lambda>b. b) bs)), refused_phase ?h t (length (filter (\<lambda>b. \<not> b) bs)), m, st1)"
      "auth_ok P st1" "as_now st1 = as_now st"
      "2 \<le> length (filter (\<lambda>b. b) bs) \<or> 2 \<le> length (filter (\<lambda>b. \<not> b) bs) \<longrightarrow> \<not> live_session i st1"
      using snoc by blast
    obtain st2 where 2: "task_step P accepts (refused_phase ?h t ?n, m, st1) = (refused_phase ?h t (Suc ?n), m, st2)"
      "auth_ok P st2" "as_now st2 = as_now st1" "?n = 1 \<or> \<not> live_session i st1 \<longrightarrow> \<not> live_session i st2"
      using refused_step [where k = ?n and h = ?h and accepts = accepts and m = m, OF assms(1) 1(2) assms(3-5) rejected [OF 1(3)]] by blast
    from 2(4) 1(4) have "2 \<le> length (filter (\<lambda>b. b) (bs @ [b])) \<or> 2 \<le> length (filter (\<lambda>b. \<not> b) (bs @ [b])) \<longrightarrow> \<not> live_session i st2"
      by (cases b) (auto simp: numeral_2_eq_2 le_Suc_eq)
    with 1(1) 2(1-3) 1(3) show ?case by (cases b) simp_all
  qed
  from this [of schedule] assms(7,8) show ?thesis by (auto simp: refused_phase_def)
qed

theorem concurrent_refreshes_end_session_witness:
  "\<exists>pair st' st'' i. LoginUser sample_params '' Ann@example.org'' ''Correct-Horse9'' [] [] [] sample_auth = (Inr pair, st')
     \<and> live_session i st'
     \<and> fold (both_step sample_params (\<lambda>_ _. False)) [True, False, False, True, True, False]
         (Awaiting None, Awaiting None, [refresh_key \<mapsto> refresh_token pair], st')
       = (Returned 401, Returned 401, [refresh_key \<mapsto> refresh_token pair], st'') \<and> \<not> live_session i st''"
proof -
  obtain pair st' where l: "LoginUser sample_params '' Ann@example.org'' ''Correct-Horse9'' [] [] [] sample_auth = (Inr pair, st')"
    using sample_login by blast
  obtain user k n s where g: "GenerateTokenPair sample_params (as_now sample_auth) user (ap_uuid sample_params k) n = (Some pair, n + 1)"
    and s: "GetByID (ap_uuid sample_params k) st' = Some s" "\<not> s_is_revoked s"
    using LoginUser_opens [OF l] by blast
  note tok = issued_tokens [OF sample_params_ok(4,2,3) g]
  have ok: "auth_ok sample_params st'"
    using LoginUser_keeps [OF sample_auth_ok, of sample_params "'' Ann@example.org''" "''Correct-Horse9''" "[]" "[]" "[]"] l
    by simp
  have b: "bearer [refresh_key \<mapsto> refresh_token pair] = None" by (simp add: bearer_def)
  have "\<exists>st''. fold (both_step sample_params (\<lambda>_ _. False)) [True, False, False, True, True, False]
      (Awaiting (bearer [refresh_key \<mapsto> refresh_token pair]), Awaiting (bearer [refresh_key \<mapsto> refresh_token pair]),
        [refresh_key \<mapsto> refresh_token pair], st')
      = (Returned 401, Returned 401, [refresh_key \<mapsto> refresh_token pair], st'') \<and> \<not> live_session (ap_uuid sample_params k) st''"
    by (rule concurrent_refreshes_end_session [OF sample_params_ok(1) ok _ tok(2,1)]) simp_all
  moreover have "live_session (ap_uuid sample_params k) st'" using s by (auto simp: live_session_def)
  ultimately show ?thesis using l unfolding b by blast
qed

section \<open>Signing out\<close>

text \<open>
  \<open>logout\<close> of the dashboard only empties the browser's storage: nothing is sent, so the session
  stays live in the service. The service's own logout would revoke it.
\<close>

lemma dashboard_logout_keeps_server_session:
  "w_server (snd (logout w)) = w_server w \<and> w_sent (snd (logout w)) = w_sent w"
  by (simp add: logout_def session_defs)

lemma service_logout_revokes: "Logout i st = Some st' \<Longrightarrow> \<not> live_session i st'"
  by (auto simp: Logout_def RevokeByID_def put_back_def live_session_def GetByID_def split: option.splits if_splits)

end
