(* ===== verification/Sign_Up.thy ===== *)
theory Sign_Up
  imports Auth_Service
begin

text \<open>
  Registration and sign-in from end to end: the form of \<open>app/login/page.tsx\<close> (theory \<open>Login\<close>), the
  client functions (\<open>Api\<close>) and the auth service behind them (\<open>Auth_Service\<close>); and two first
  registrations at once.
\<close>

section \<open>The endpoints the dashboard calls\<close>

lemma register_endpoint:
  "auth_endpoint P peer base (text_of P) (json_request ''POST'' (base @ ''/api/v1/auth/register'') (Registration e p n)) st =
     (case register_handler P peer (json_request ''POST'' (base @ ''/api/v1/auth/register'') (Registration e p n)) st of
        (r, st') \<Rightarrow> (Inr (text_of P r), st'))"
  by (simp add: auth_endpoint_def auth_serve_def json_request_def routes_def)

lemma login_endpoint:
  "auth_endpoint P peer base pair_of (json_request ''POST'' (base @ ''/api/v1/auth/login'') (Credentials e p)) st =
     (case login_handler P peer (json_request ''POST'' (base @ ''/api/v1/auth/login'') (Credentials e p)) st of
        (r, st') \<Rightarrow> (Inr (pair_of r), st'))"
  by (simp add: auth_endpoint_def auth_serve_def json_request_def routes_def)

lemma me_endpoint:
  assumes "rq_method rq = ''GET''" "rq_url rq = base @ ''/api/v1/auth/me''"
  shows "auth_endpoint P peer base me_of rq st =
     (Inr (me_of (case RequireAuth P rq st of Inl r \<Rightarrow> r | Inr claims \<Rightarrow> me_handler claims)), st)"
  using assms by (simp add: auth_endpoint_def auth_serve_def routes_def split: sum.split)

section \<open>Registering\<close>

text \<open>Ids of users come from the draws of the service.\<close>

definition ids_drawn :: "auth_params \<Rightarrow> auth_state \<Rightarrow> bool" where
  "ids_drawn P st \<longleftrightarrow> (\<forall>u \<in> set (as_users st). \<exists>k < as_draws st. u_id u = ap_uuid P k)"

text \<open>What the service asks of an address and a name, and that the address is not taken.\<close>

definition registrable :: "string \<Rightarrow> string \<Rightarrow> auth_state \<Rightarrow> bool" where
  "registrable email name st \<longleftrightarrow> str_includes email ''@'' \<and> pg_text email \<and> pg_text name
     \<and> (\<forall>u \<in> set (as_users st). u_email u \<noteq> email)"

lemma find_snoc_new: "\<forall>u \<in> set us. \<not> C u \<Longrightarrow> find C (us @ [r]) = (if C r then Some r else None)"
  by (induction us) auto

lemma RegisterUser_adds:
  assumes "bcrypt_ok P" "uuid_ok P" "ids_drawn P st" "as_db st" "ValidatePassword password" "length password \<le> 72"
    and "registrable (normal_email email) name st"
  shows "\<exists>user st' row. RegisterUser P email password name ip st = (Inr user, st')
    \<and> GetByEmail (normal_email email) st' = Some row \<and> as_now st' = as_now st \<and> as_redis st' = as_redis st
    \<and> ap_compare P (u_password_hash row) password \<and> u_is_active row \<and> u_locked_until row = None
    \<and> u_email row = normal_email email \<and> u_role row = bootstrap_role (length (as_users st))
    \<and> as_users st' = as_users st @ [row]"
proof -
  let ?e = "normal_email email"
  obtain h where h: "ap_bcrypt P (as_draws st) password = Some h" "pg_text h" "ap_compare P h password"
    using assms(1,6) unfolding bcrypt_ok_def by blast
  have id: "u_id u \<noteq> ap_uuid P (Suc (as_draws st))" if "u \<in> set (as_users st)" for u
  proof
    assume "u_id u = ap_uuid P (Suc (as_draws st))"
    moreover obtain k where "k < as_draws st" "u_id u = ap_uuid P k" using assms(3) \<open>u \<in> _\<close> by (auto simp: ids_drawn_def)
    ultimately show False using assms(2) unfolding uuid_ok_def by (metis Suc_lessD less_irrefl)
  qed
  have e: "str_includes ?e ''@''" "pg_text ?e" "pg_text name" "\<And>u. u \<in> set (as_users st) \<Longrightarrow> u_email u \<noteq> ?e"
    using assms(7) by (auto simp: registrable_def)
  then have f: "find (\<lambda>u. u_email u = ?e) (as_users st @ [r]) = (if u_email r = ?e then Some r else None)" for r
    by (intro find_snoc_new) blast
  show ?thesis
    using h e id f assms(4,5)
    by (auto simp: RegisterUser_def register_check_def CountUsers_def register_insert_def draw_uuid_def Let_def
        CreateUser_def list_ex_iff GetByEmail_def pg_text_def PublishEvent_def)
qed

text \<open>A password of more than 72 bytes passes the check of the service and then fails in bcrypt.\<close>

lemma RegisterUser_long:
  assumes "bcrypt_ok P" "72 < length password" "ValidatePassword password"
    and "str_includes (normal_email email) ''@''" "pg_text (normal_email email)"
  shows "RegisterUser P email password name ip st = (Inl ErrOther, st)"
  using assms by (simp add: RegisterUser_def register_check_def bcrypt_ok_def pg_text_def)

section \<open>From the form to the service and back\<close>

text \<open>The two steps of a submission, by what the endpoints answer.\<close>

lemma register_step_ok:
  assumes "ep_register api (json_request ''POST'' (getAPIURL ev @ ''/api/v1/auth/register'')
      (Registration (lp_email s) (lp_password s) (lp_name s))) (w_server (pg_world s)) = (Inr res, st')" "ok res"
  shows "\<exists>w. register_step ev api s = (Inr (), s\<lparr>pg_world := w\<rparr>) \<and> w_server w = st' \<and> w_storage w = w_storage (pg_world s)"
  using assms by (simp add: register_step_def comp_defs on_world_def do_fetch_world login_getAPIURL_eq)
    (rule exI, rule conjI, rule refl, simp)

lemma register_step_fails:
  assumes "ep_register api (json_request ''POST'' (getAPIURL ev @ ''/api/v1/auth/register'')
      (Registration (lp_email s) (lp_password s) (lp_name s))) (w_server (pg_world s)) = (Inr res, st')" "\<not> ok res"
    "reg_text res \<noteq> []"
  shows "\<exists>w. register_step ev api s = (Inl (JsError (reg_text res)), s\<lparr>pg_world := w\<rparr>) \<and> w_server w = st'"
  using assms by (simp add: register_step_def comp_defs on_world_def do_fetch_world login_getAPIURL_eq)
    (rule exI, rule conjI, rule refl, simp)

lemma login_step_ok:
  assumes "ep_login api (json_request ''POST'' (getAPIURL ev @ ''/api/v1/auth/login'')
      (Credentials (lp_email s) (lp_password s))) (w_server (pg_world s)) = (Inr res, st')" "ok res" "rs_json res = Inr pair"
  shows "\<exists>s'. login_step ev api s = (Inr (), s') \<and> lp_error s' = lp_error s \<and> w_server (pg_world s') = st'
    \<and> w_storage (pg_world s') = (w_storage (pg_world s))(access_key \<mapsto> access_token pair, refresh_key \<mapsto> refresh_token pair)"
  using assms by (simp add: login_step_def comp_defs on_world_def do_fetch_world login_getAPIURL_eq json_of_def
      setItem_def show_toast_def location_replace_def)

lemma fetchMe_ok:
  assumes "ep_me api (with_auth ev (w_storage w) (get_request (apiURL ev ''/api/v1/auth/me''))) (w_server w) = (Inr res, st')"
    "ok res" "rs_json res = Inr u"
  shows "fst (fetchMe ev api w) = Inr (Some u)"
proof -
  have "rs_status res \<noteq> 401" using assms(2) by (simp add: ok_def)
  with assms show ?thesis
    by (simp add: fetchMe_def apiFetch_def catchE_def bindE_def send_auth_eq do_fetch_world returnE_def json_of_def)
qed

lemma RequireAuth_bearer:
  assumes "word_token t" "header rq ''Authorization'' = ''Bearer '' @ t"
  shows "RequireAuth P rq st = (case ValidateAccessToken P (as_now st) t of
      None \<Rightarrow> Inl (http_error ''invalid or expired token'' 401) | Some claims \<Rightarrow> Inr claims)"
proof -
  have "CHR '' '' \<notin> set t" using assms(1) go_space_blank by (auto simp: word_token_def)
  note t = split_on_free [OF this]
  have "CHR '' '' \<notin> set ''Bearer''" by code_simp
  from split_on_append [OF this, of t] t have "split_on (CHR '' '') (''Bearer'' @ CHR '' '' # t) = [''Bearer'', t]"
    by (simp only:)
  then show ?thesis using assms(2) by (simp add: RequireAuth_def Let_def del: split_on.simps)
qed

lemma me_after_login:
  assumes lib: "jwt_ok P" "uuid_ok P" "random_ok P" and ttl: "1000 \<le> ap_accessTTL P"
    and g: "GenerateTokenPair P now user (ap_uuid P k) n = (Some pair, m)"
    and w: "w_storage w access_key = Some (access_token pair)" "as_now (w_server w) = now" "env_window ev \<noteq> None"
  shows "fst (fetchMe ev (auth_api P peer (getAPIURL ev) api) w) = Inr (Some \<lparr>cu_user_id = u_id user,
      cu_email = u_email user, cu_role = role_text (u_role user)\<rparr>)"
proof -
  note tok = issued_tokens [OF lib g]
  let ?rq = "with_auth ev (w_storage w) (get_request (apiURL ev ''/api/v1/auth/me''))"
  have "access_token pair \<noteq> []" using tok(3) by (simp add: word_token_def)
  then have h: "header ?rq ''Authorization'' = ''Bearer '' @ access_token pair"
    using w by (simp add: header_def with_auth_def get_request_def)
  have "numeric_date now \<le> now" "now < numeric_date (now + ap_accessTTL P)"
    using ttl pos_mod_bound [of 1000 "now + ap_accessTTL P"] by (simp_all add: numeric_date_def)
  then have a: "RequireAuth P ?rq (w_server w) = Inr (claims_of P now user (ap_uuid P k))"
    unfolding RequireAuth_bearer [OF tok(3) h] ValidateAccessToken_def w(2) tok(4) by simp
  have r: "rq_method ?rq = ''GET''" "rq_url ?rq = getAPIURL ev @ ''/api/v1/auth/me''"
    by (simp_all add: with_auth_def get_request_def apiURL_def)
  have "ep_me (auth_api P peer (getAPIURL ev) api) ?rq (w_server w)
      = (Inr (me_of (me_handler (claims_of P now user (ap_uuid P k)))), w_server w)"
    using me_endpoint [OF r] a by (simp add: auth_api_def)
  from fetchMe_ok [OF this] show ?thesis by (simp add: me_of_def me_handler_def claims_of_def ok_def)
qed

text \<open>Submitting the registration form, by its two steps.\<close>

lemma submit_register:
  assumes "\<not> lp_demo s" "lp_mode s = RegisterMode"
    and "register_step ev api (s\<lparr>lp_loading := True, lp_error := None\<rparr>) = (Inr (), s1)" "login_step ev api s1 = (Inr (), s2)"
  shows "snd (submit now ev api s) = s2\<lparr>lp_loading := False\<rparr>"
  using assms by (simp add: submit_def bindE_def modifyE_def readE_def finallyE_def catchE_def)

lemma submit_register_fails:
  assumes "\<not> lp_demo s" "lp_mode s = RegisterMode"
    and "register_step ev api (s\<lparr>lp_loading := True, lp_error := None\<rparr>) = (Inl (JsError msg), s1)"
  shows "lp_error (snd (submit now ev api s)) = Some msg \<and> pg_world (snd (submit now ev api s)) = pg_world s1"
  using assms by (simp add: submit_def bindE_def modifyE_def readE_def finallyE_def catchE_def show_toast_def)

lemma register_then_login:
  fixes s :: "auth_state login_page" and P peer ev now api0
  assumes lib: "jwt_ok P" "uuid_ok P" "random_ok P" "bcrypt_ok P" and ttl: "1000 \<le> ap_accessTTL P" "0 < ap_refreshTTL P"
    and st: "st = w_server (pg_world s)" "ids_drawn P st" "as_db st" "as_redis st"
    and form: "\<not> lp_demo s" "lp_mode s = RegisterMode" "canSubmit RegisterMode (lp_password s)"
      "registrable (normal_email (lp_email s)) (lp_name s) st" "length (lp_password s) \<le> 72"
    and browser: "env_window ev \<noteq> None"
  defines "api \<equiv> auth_api P peer (getAPIURL ev) api0"
  defines "s' \<equiv> snd (submit now ev api s)"
  shows "lp_error s' = None \<and> (\<exists>i. fst (fetchMe ev api (pg_world s')) = Inr (Some \<lparr>cu_user_id = i,
      cu_email = normal_email (lp_email s), cu_role = role_text (bootstrap_role (length (as_users st)))\<rparr>))"
proof -
  let ?s0 = "s\<lparr>lp_loading := True, lp_error := None\<rparr>"
  let ?reg = "json_request ''POST'' (getAPIURL ev @ ''/api/v1/auth/register'') (Registration (lp_email s) (lp_password s) (lp_name s))"
  let ?log = "json_request ''POST'' (getAPIURL ev @ ''/api/v1/auth/login'') (Credentials (lp_email s) (lp_password s))"
  obtain user st1 row where r: "RegisterUser P (lp_email s) (lp_password s) (lp_name s) (clientIP P peer ?reg) st = (Inr user, st1)"
    "GetByEmail (normal_email (lp_email s)) st1 = Some row" "as_now st1 = as_now st" "as_redis st1 = as_redis st"
    "ap_compare P (u_password_hash row) (lp_password s)" "u_is_active row" "u_locked_until row = None"
    "u_email row = normal_email (lp_email s)" "u_role row = bootstrap_role (length (as_users st))"
    using RegisterUser_adds [OF lib(4,2) st(2,3) form_password_valid [OF form(3)] form(5,4)] by blast
  have reg: "ep_register api ?reg st = (Inr (text_of P \<lparr>rp_status = 201, rp_body = UserJson user\<rparr>), st1)"
    unfolding api_def using r(1) register_endpoint [of P peer "getAPIURL ev" "lp_email s" "lp_password s" "lp_name s" st]
    by (simp add: auth_api_def register_handler_def json_request_def)
  from register_step_ok [of api ev ?s0, simplified, OF reg [unfolded st(1)]]
  obtain w1 where s1: "register_step ev api ?s0 = (Inr (), ?s0\<lparr>pg_world := w1\<rparr>)" "w_server w1 = st1"
    by (auto simp: ok_def text_of_def)
  obtain pair st2 where l: "LoginUser P (lp_email s) (lp_password s) (clientIP P peer ?log) (header ?log ''User-Agent'')
      [(''user_agent'', header ?log ''User-Agent'')] st1 = (Inr pair, st2)"
    using LoginUser_succeeds [OF lib(1,3) _ ttl(2) r(2) _ r(6,5)] st(4) r(4,7) by (simp add: IsLocked_def) blast
  have log: "ep_login api ?log st1 = (Inr (pair_of \<lparr>rp_status = 200, rp_body = PairJson pair\<rparr>), st2)"
    unfolding api_def using l login_endpoint [of P peer "getAPIURL ev" "lp_email s" "lp_password s" st1]
    by (simp add: auth_api_def login_handler_def json_request_def Let_def)
  from login_step_ok [of api ev "?s0\<lparr>pg_world := w1\<rparr>", simplified, unfolded s1(2), OF log]
  obtain s2 where s2: "login_step ev api (?s0\<lparr>pg_world := w1\<rparr>) = (Inr (), s2)" "lp_error s2 = None"
    "w_server (pg_world s2) = st2" "w_storage (pg_world s2) access_key = Some (access_token pair)"
    by (auto simp: ok_def pair_of_def token_pair.defs)
  have s': "s' = s2\<lparr>lp_loading := False\<rparr>"
    unfolding s'_def by (rule submit_register [OF form(1,2) s1(1) s2(1)])
  obtain k n where g: "GenerateTokenPair P (as_now st) row (ap_uuid P k) n = (Some pair, n + 1)" "as_now st2 = as_now st"
    using LoginUser_opens [OF l] r(2,3) by auto
  from me_after_login [OF lib(1-3) ttl(1) g(1) s2(4) _ browser] s2(2,3) g(2) r(8,9) show ?thesis
    by (simp add: s' api_def)
qed

lemma long_password_refused:
  fixes s :: "auth_state login_page" and P peer ev now api0
  assumes "bcrypt_ok P" "\<not> lp_demo s" "lp_mode s = RegisterMode" "canSubmit RegisterMode (lp_password s)"
    and "registrable (normal_email (lp_email s)) (lp_name s) (w_server (pg_world s))" "72 < length (lp_password s)"
  defines "s' \<equiv> snd (submit now ev (auth_api P peer (getAPIURL ev) api0) s)"
  shows "lp_error s' = Some (''registration failed'' @ [CHR 0x0A]) \<and> w_server (pg_world s') = w_server (pg_world s)"
proof -
  let ?api = "auth_api P peer (getAPIURL ev) api0" and ?s0 = "s\<lparr>lp_loading := True, lp_error := None\<rparr>"
  let ?reg = "json_request ''POST'' (getAPIURL ev @ ''/api/v1/auth/register'') (Registration (lp_email s) (lp_password s) (lp_name s))"
  have "RegisterUser P (lp_email s) (lp_password s) (lp_name s) ip (w_server (pg_world s)) = (Inl ErrOther, w_server (pg_world s))" for ip
    using assms(5) by (intro RegisterUser_long [OF assms(1,6) form_password_valid [OF assms(4)]]) (simp_all add: registrable_def)
  then have "ep_register ?api ?reg (w_server (pg_world s))
      = (Inr (text_of P (http_error ''registration failed'' 500)), w_server (pg_world s))"
    using register_endpoint [of P peer "getAPIURL ev" "lp_email s" "lp_password s" "lp_name s" "w_server (pg_world s)"]
    by (simp add: auth_api_def register_handler_def json_request_def)
  from register_step_fails [of ?api ev ?s0, simplified, OF this]
  obtain w where "register_step ev ?api ?s0 = (Inl (JsError (''registration failed'' @ [CHR 0x0A])), ?s0\<lparr>pg_world := w\<rparr>)"
    "w_server w = w_server (pg_world s)"
    by (auto simp: ok_def text_of_def http_error_def reg_text_def)
  with submit_register_fails [OF assms(2,3) this(1)] show ?thesis by (simp add: s'_def)
qed

text \<open>
  C10: registering works from the form to the identity the pages show, for passwords up to the limit
  of bcrypt: when the form accepts the password and the service the address and name, submitting
  creates the account, signs in without an error, and \<open>fetchMe\<close> answers with the normalised address
  and the bootstrap role, administrator exactly for the first account. A password of more than 72
  bytes, which form and service both accept, ends in ''registration failed'' and changes nothing.
\<close>

theorem registration_signs_in:
  fixes s :: "auth_state login_page" and P peer ev now api0
  assumes lib: "jwt_ok P" "uuid_ok P" "random_ok P" "bcrypt_ok P" and ttl: "1000 \<le> ap_accessTTL P" "0 < ap_refreshTTL P"
    and st: "st = w_server (pg_world s)" "ids_drawn P st" "as_db st" "as_redis st"
    and form: "\<not> lp_demo s" "lp_mode s = RegisterMode" "canSubmit RegisterMode (lp_password s)"
      "registrable (normal_email (lp_email s)) (lp_name s) st"
    and browser: "env_window ev \<noteq> None"
  defines "api \<equiv> auth_api P peer (getAPIURL ev) api0"
  defines "s' \<equiv> snd (submit now ev api s)"
  shows "if length (lp_password s) \<le> 72
    then lp_error s' = None \<and> (\<exists>i. fst (fetchMe ev api (pg_world s')) = Inr (Some \<lparr>cu_user_id = i,
      cu_email = normal_email (lp_email s), cu_role = role_text (bootstrap_role (length (as_users st)))\<rparr>))
    else lp_error s' = Some (''registration failed'' @ [CHR 0x0A]) \<and> w_server (pg_world s') = st"
  using register_then_login [OF lib ttl st form _ browser, of now peer api0]
    long_password_refused [OF lib(4) form(1-3), of now ev peer api0] form(4) st(1)
  by (auto simp: s'_def api_def not_le)

definition sign_up_form :: "auth_state login_page" where
  "sign_up_form = \<lparr>pg_world = \<lparr>w_storage = Map.empty, w_server = auth_init, w_sent = [], w_location = []\<rparr>,
     pg_toasts = toast_init, lp_demo = False, lp_mode = RegisterMode, lp_email = '' Ann@example.org'',
     lp_password = ''Correct-Horse9'', lp_name = ''Ann'', lp_error = None, lp_loading = False, lp_cancelled = False\<rparr>"

definition empty_auth_api :: "auth_state api" where
  "empty_auth_api = \<lparr>ep_refresh = not_found, ep_login = not_found, ep_register = not_found,
     ep_public_key = not_found, ep_rules = not_found, ep_features = not_found, ep_rule = not_found, ep_me = not_found,
     ep_fraud_rate = not_found, ep_geo = not_found, ep_top_threats = not_found, ep_overview = not_found, ep_events = not_found\<rparr>"

theorem registration_signs_in_witness:
  "\<exists>i. fst (fetchMe local_env (auth_api sample_params [] (getAPIURL local_env) empty_auth_api)
      (pg_world (snd (submit 7 local_env (auth_api sample_params [] (getAPIURL local_env) empty_auth_api) sign_up_form))))
    = Inr (Some \<lparr>cu_user_id = i, cu_email = ''ann@example.org'', cu_role = ''admin''\<rparr>)"
proof -
  have st: "auth_init = w_server (pg_world sign_up_form)" "ids_drawn sample_params auth_init" "as_db auth_init" "as_redis auth_init"
    by (simp_all add: sign_up_form_def ids_drawn_def auth_init_def)
  have "canSubmit RegisterMode ''Correct-Horse9''" "str_includes ''ann@example.org'' ''@''" by code_simp+
  moreover from this have "registrable ''ann@example.org'' ''Ann'' auth_init"
    by (simp add: registrable_def pg_text_def auth_init_def)
  ultimately have form: "\<not> lp_demo sign_up_form" "lp_mode sign_up_form = RegisterMode"
    "canSubmit RegisterMode (lp_password sign_up_form)"
    "registrable (normal_email (lp_email sign_up_form)) (lp_name sign_up_form) auth_init"
    using sample_email by (simp_all add: sign_up_form_def)
  have ttl: "1000 \<le> ap_accessTTL sample_params" "0 < ap_refreshTTL sample_params" by (simp_all add: sample_params_def)
  have e: "env_window local_env \<noteq> None" by (simp add: local_env_def)
  have "length (lp_password sign_up_form) \<le> 72" "as_users auth_init = []" by (simp_all add: sign_up_form_def auth_init_def)
  with registration_signs_in [OF sample_params_ok(4,2,3,5) ttl st form e, of 7 "[]" empty_auth_api] sample_email
  show ?thesis by (simp add: bootstrap_role_def) (simp add: sign_up_form_def)
qed

section \<open>A session of the running service\<close>

text \<open>A registration and a login, as the service receives them from a direct peer.\<close>

definition sign_in_requests :: "auth_input list" where
  "sign_in_requests =
     [Http [] ''/api/v1/auth/register'' (json_request ''POST'' [] (Registration '' Ann@example.org'' ''Correct-Horse9'' ''Ann'')),
      Http [] ''/api/v1/auth/login'' (json_request ''POST'' [] (Credentials '' Ann@example.org'' ''Correct-Horse9''))]"

lemma sign_in_reachable:
  "\<exists>i token. ValidateRefreshToken sample_params token = Some i
     \<and> live_session i (fold (auth_step sample_params) sign_in_requests auth_init)"
proof -
  let ?reg = "json_request ''POST'' [] (Registration '' Ann@example.org'' ''Correct-Horse9'' ''Ann'')"
  let ?log = "json_request ''POST'' [] (Credentials '' Ann@example.org'' ''Correct-Horse9'')"
  have st: "ids_drawn sample_params auth_init" "as_db auth_init" "as_redis auth_init"
    by (simp_all add: ids_drawn_def auth_init_def)
  have pw: "ValidatePassword ''Correct-Horse9''" "length ''Correct-Horse9'' \<le> 72" by code_simp+
  have "str_includes ''ann@example.org'' ''@''" by code_simp
  then have reg: "registrable (normal_email '' Ann@example.org'') ''Ann'' auth_init"
    unfolding sample_email by (simp add: registrable_def pg_text_def auth_init_def)
  obtain user st1 row where r: "RegisterUser sample_params '' Ann@example.org'' ''Correct-Horse9'' ''Ann''
      (clientIP sample_params [] ?reg) auth_init = (Inr user, st1)"
    "GetByEmail (normal_email '' Ann@example.org'') st1 = Some row" "as_redis st1 = as_redis auth_init"
    "ap_compare sample_params (u_password_hash row) ''Correct-Horse9''" "u_is_active row" "u_locked_until row = None"
    using RegisterUser_adds [OF sample_params_ok(5,2) st(1,2) pw reg] by blast
  have "0 < ap_refreshTTL sample_params" by (simp add: sample_params_def)
  then obtain pair st2 where l: "LoginUser sample_params '' Ann@example.org'' ''Correct-Horse9''
      (clientIP sample_params [] ?log) (header ?log ''User-Agent'') [(''user_agent'', header ?log ''User-Agent'')] st1 = (Inr pair, st2)"
    using LoginUser_succeeds [OF sample_params_ok(4,3) _ _ r(2) _ r(5,4)] st(3) r(3,6) by (simp add: IsLocked_def) blast
  obtain k u n s where g: "GenerateTokenPair sample_params (as_now st1) u (ap_uuid sample_params k) n = (Some pair, n + 1)"
    and s: "GetByID (ap_uuid sample_params k) st2 = Some s" "\<not> s_is_revoked s"
    using LoginUser_opens [OF l] by blast
  have "fold (auth_step sample_params) sign_in_requests auth_init = st2"
    using r(1) l by (simp add: sign_in_requests_def auth_serve_def routes_def register_handler_def login_handler_def
        json_request_def Let_def)
  with s issued_tokens(1) [OF sample_params_ok(4,2,3) g] show ?thesis by (auto simp: live_session_def)
qed

lemma refresh_always_refused_witness:
  "\<exists>i token. live_session i (fold (auth_step sample_params) sign_in_requests auth_init)
     \<and> fst (Refresh sample_params token (fold (auth_step sample_params) sign_in_requests auth_init)) = Inl ErrRefreshReuse
     \<and> \<not> live_session i (snd (Refresh sample_params token (fold (auth_step sample_params) sign_in_requests auth_init)))"
  using sign_in_reachable refresh_always_refused [OF sample_params_ok(1), of _ sign_in_requests] by blast

section \<open>Two first registrations at once\<close>

text \<open>
  \<open>RegisterUser\<close> reads the number of accounts and inserts the account in two statements. When two
  registrations both read before either inserts, both accounts become administrators.
\<close>

lemma bootstrap_race:
  fixes P st e1 e2 h1 h2 n1 n2 ip1 ip2 c
  assumes "uuid_ok P" "as_users st = []" "as_db st" "e1 \<noteq> e2"
    and "pg_text e1" "pg_text e2" "pg_text h1" "pg_text h2" "pg_text n1" "pg_text n2"
    and "CountUsers st = Some c"
  defines "st1 \<equiv> snd (register_insert P e1 h1 n1 ip1 (bootstrap_role c) st)"
  defines "st2 \<equiv> snd (register_insert P e2 h2 n2 ip2 (bootstrap_role c) st1)"
  shows "map u_role (as_users st2) = [RoleAdmin, RoleAdmin]"
proof -
  have c: "c = 0" using assms(2,3,11) by (simp add: CountUsers_def)
  have "ap_uuid P (as_draws st) \<noteq> ap_uuid P (Suc (Suc (as_draws st)))" using assms(1) unfolding uuid_ok_def by fastforce
  with assms c show ?thesis
    by (simp add: st1_def st2_def register_insert_def draw_uuid_def Let_def CreateUser_def bootstrap_role_def)
qed

end
