(* ===== verification/Widgets.thy ===== *)
theory Widgets
  imports Events
begin

text \<open>
  The stateful and the computing widgets: \<open>components/ui/AnimatedNumber.tsx\<close> (a tween with refs
  and effect cleanups), \<open>Gauge.tsx\<close>, \<open>RiskBadge.tsx\<close>, \<open>MetricCard.tsx\<close>, and the ledger of
  \<open>app/transactions/page.tsx\<close>. Two operations of the platform are arguments: \<open>cube x\<close> is
  \<open>Math.pow(x, 3)\<close>, whose rounding the language leaves open, and \<open>toLocale d\<close> is \<open>toLocaleString\<close>
  with \<open>d\<close> decimals.
\<close>

section \<open>The animated number\<close>

datatype number_format = NumberFormat | CurrencyFormat | PercentFormat

definition formatValue :: "(nat \<Rightarrow> rat \<Rightarrow> string) \<Rightarrow> rat \<Rightarrow> number_format \<Rightarrow> string" where
  "formatValue toLocale value format = (case format of
     PercentFormat \<Rightarrow> toFixed 2 value @ ''%''
   | CurrencyFormat \<Rightarrow> ''$'' @ toLocale 2 value
   | NumberFormat \<Rightarrow> toLocale 0 (of_int \<lfloor>value\<rfloor>))"

text \<open>
  The frame callback closes over the start value, the target of its effect run and its start time.
  \<open>an_frame\<close> is \<open>frameRef\<close> with the callback that is scheduled under it, \<open>an_cleanup\<close> the cleanup the
  last effect run returned, \<open>an_timer\<close> the deferred update of the reduced-motion branch.
\<close>

record tween =
  tw_from :: rat
  tw_value :: rat
  tw_start :: "rat option"

datatype anim_cleanup = NoCleanup | ClearTimer | CancelTween rat

record anim =
  an_display :: rat
  an_from :: rat
  an_frame :: "tween option"
  an_pending :: rat
  an_timer :: "rat option"
  an_cleanup :: anim_cleanup

definition anim_init :: "rat \<Rightarrow> anim" where
  "anim_init value = \<lparr>an_display = value, an_from = value, an_frame = None, an_pending = 0, an_timer = None,
     an_cleanup = NoCleanup\<rparr>"

definition anim_effect :: "bool \<Rightarrow> rat \<Rightarrow> anim \<Rightarrow> anim" where
  "anim_effect reduceMotion value s =
     (if reduceMotion then s\<lparr>an_from := value, an_timer := Some value, an_cleanup := ClearTimer\<rparr>
      else if an_frame s \<noteq> None then s\<lparr>an_pending := value, an_cleanup := NoCleanup\<rparr>
      else let from = an_from s in
        if \<bar>fl (value - from)\<bar> < 1 / 2 then s\<lparr>an_from := value, an_cleanup := NoCleanup\<rparr>
        else s\<lparr>an_frame := Some \<lparr>tw_from = from, tw_value = value, tw_start = None\<rparr>,
               an_cleanup := CancelTween value\<rparr>)"

definition target_of :: "anim \<Rightarrow> rat \<Rightarrow> rat" where
  "target_of s value = (if an_pending s \<noteq> 0 then an_pending s else value)"

definition run_cleanup :: "anim \<Rightarrow> anim" where
  "run_cleanup s = (case an_cleanup s of
     NoCleanup \<Rightarrow> s
   | ClearTimer \<Rightarrow> s\<lparr>an_timer := None\<rparr>
   | CancelTween value \<Rightarrow> s\<lparr>an_frame := None, an_from := target_of s value, an_pending := 0\<rparr>)"

text \<open>A new \<open>value\<close>: the cleanup of the previous effect run, then the effect.\<close>

definition set_value :: "bool \<Rightarrow> rat \<Rightarrow> anim \<Rightarrow> anim" where
  "set_value reduceMotion value s = anim_effect reduceMotion value (run_cleanup s)"

definition eased :: "(rat \<Rightarrow> rat) \<Rightarrow> rat \<Rightarrow> rat" where
  "eased cube p = fl (1 - cube (fl (1 - p)))"

definition anim_tick :: "(rat \<Rightarrow> rat) \<Rightarrow> rat \<Rightarrow> rat \<Rightarrow> anim \<Rightarrow> anim" where
  "anim_tick cube duration t s = (case an_frame s of
     None \<Rightarrow> s
   | Some tw \<Rightarrow> (let startTime = default (tw_start tw) t; target = target_of s (tw_value tw);
       p = min (fl (fl (t - startTime) / duration)) 1;
       s' = s\<lparr>an_display := fl (tw_from tw + fl (fl (target - tw_from tw) * eased cube p))\<rparr>
     in if p < 1 then s'\<lparr>an_frame := Some (tw\<lparr>tw_start := Some startTime\<rparr>)\<rparr>
        else s'\<lparr>an_frame := None, an_pending := 0, an_from := target\<rparr>))"

definition anim_timer :: "anim \<Rightarrow> anim" where
  "anim_timer s = (case an_timer s of None \<Rightarrow> s | Some v \<Rightarrow> s\<lparr>an_display := v, an_timer := None\<rparr>)"

datatype anim_input = NewValue bool rat | AnimationFrame rat | DeferredUpdate

fun anim_step :: "(rat \<Rightarrow> rat) \<Rightarrow> rat \<Rightarrow> anim_input \<Rightarrow> anim \<Rightarrow> anim" where
  "anim_step cube duration (NewValue reduceMotion value) s = set_value reduceMotion value s"
| "anim_step cube duration (AnimationFrame t) s = anim_tick cube duration t s"
| "anim_step cube duration DeferredUpdate s = anim_timer s"

section \<open>Gauge, badge and card\<close>

definition gauge_pct :: "rat \<Rightarrow> rat \<Rightarrow> rat" where
  "gauge_pct value mx = max 0 (min 1 (fl (value / mx)))"

definition gauge_color :: "rat \<Rightarrow> rat \<Rightarrow> rat \<Rightarrow> string" where
  "gauge_color pct dangerThreshold warnThreshold =
     (if fl (pct * 100) \<ge> dangerThreshold then ''#f43f5e''
      else if fl (pct * 100) \<ge> warnThreshold then ''#f97316'' else ''#22d3ee'')"

definition gauge_needle :: "rat \<Rightarrow> rat" where
  "gauge_needle pct = fl (- 135 + fl (270 * pct))"

datatype risk_level = LOW | MEDIUM | HIGH | CRITICAL

definition riskLevel :: "rat \<Rightarrow> risk_level" where
  "riskLevel score = (if score \<ge> 80 then CRITICAL else if score \<ge> 60 then HIGH
     else if score \<ge> 40 then MEDIUM else LOW)"

fun level_rank :: "risk_level \<Rightarrow> nat" where
  "level_rank LOW = 0" | "level_rank MEDIUM = 1" | "level_rank HIGH = 2" | "level_rank CRITICAL = 3"

text \<open>The levels in their order, from the lowest.\<close>

lemma level_rank_inj: "level_rank a = level_rank b \<longleftrightarrow> a = b"
  by (cases a; cases b) simp_all

instantiation risk_level :: linorder
begin

definition less_eq_risk_level :: "risk_level \<Rightarrow> risk_level \<Rightarrow> bool" where
  "less_eq_risk_level a b \<longleftrightarrow> level_rank a \<le> level_rank b"

definition less_risk_level :: "risk_level \<Rightarrow> risk_level \<Rightarrow> bool" where
  "less_risk_level a b \<longleftrightarrow> level_rank a < level_rank b"

instance
  by standard (auto simp: less_eq_risk_level_def less_risk_level_def level_rank_inj [symmetric])

end

text \<open>The badge: the colour of its dot, whether the dot pulses, the level and the score.\<close>

fun level_name :: "risk_level \<Rightarrow> string" where
  "level_name LOW = ''LOW''" | "level_name MEDIUM = ''MEDIUM''" | "level_name HIGH = ''HIGH''"
| "level_name CRITICAL = ''CRITICAL''"

fun level_color :: "risk_level \<Rightarrow> string" where
  "level_color LOW = ''emerald''" | "level_color MEDIUM = ''yellow''" | "level_color HIGH = ''orange''"
| "level_color CRITICAL = ''rose''"

definition risk_badge :: "rat \<Rightarrow> string \<times> bool \<times> string \<times> string" where
  "risk_badge score = (let level = riskLevel score in
     (level_color level, level = CRITICAL, level_name level, toFixed 1 score))"

definition ring_color :: "rat \<Rightarrow> string" where
  "ring_color ring = (if ring > 66 then ''#f43f5e'' else if ring > 33 then ''#f97316'' else ''#22d3ee'')"

text \<open>The share of the circle's circumference that is left out of the ring's stroke.\<close>

definition ring_offset :: "rat \<Rightarrow> rat" where
  "ring_offset ring = fl (1 - fl (min ring 100 / 100))"

section \<open>The ledger\<close>

definition tx_actions :: "string list" where
  "tx_actions = [''ALL'', ''ALLOW'', ''REVIEW'', ''CHALLENGE'', ''BLOCK'']"

definition tx_filtered :: "string \<Rightarrow> analytics_event list \<Rightarrow> analytics_event list" where
  "tx_filtered flt events = (if flt = ''ALL'' then events else filter (\<lambda>e. ev_action e = Some flt) events)"

text \<open>A row: whether it is shown as blocked, the event type, the source or id, the decision.\<close>

definition tx_row :: "analytics_event \<Rightarrow> bool \<times> string \<times> string option \<times> string" where
  "tx_row e = (ev_action e = Some ''BLOCK'', ev_type e, or_else (ev_ip e) (event_key e), default (ev_action e) ''OBSERVED'')"

definition tx_rows :: "string \<Rightarrow> analytics_event list \<Rightarrow> (bool \<times> string \<times> string option \<times> string) list" where
  "tx_rows flt events = map tx_row (take 14 (tx_filtered flt events))"

section \<open>The tween\<close>

lemmas anim_defs = anim_effect_def run_cleanup_def set_value_def anim_tick_def anim_timer_def target_of_def

text \<open>No value is ever queued: a tween in flight always has a cleanup that cancels it.\<close>

definition anim_ok :: "anim \<Rightarrow> bool" where
  "anim_ok s \<longleftrightarrow> an_pending s = 0 \<and> (\<forall>tw. an_frame s = Some tw \<longrightarrow> an_cleanup s = CancelTween (tw_value tw))"

lemma run_cleanup_idle: "anim_ok s \<Longrightarrow> an_frame (run_cleanup s) = None \<and> an_pending (run_cleanup s) = 0"
  by (cases "an_frame s") (auto simp: anim_ok_def run_cleanup_def split: anim_cleanup.split)

lemma set_value_ok [keep_rules]: "anim_ok s \<Longrightarrow> anim_ok (set_value r v s)"
  using run_cleanup_idle [of s] by (auto simp: anim_ok_def set_value_def anim_effect_def Let_def)

lemma anim_tick_ok [keep_rules]: "anim_ok s \<Longrightarrow> anim_ok (anim_tick cube d t s)"
  by (auto simp: anim_ok_def anim_tick_def Let_def split: option.split)

lemma anim_timer_ok [keep_rules]: "anim_ok s \<Longrightarrow> anim_ok (anim_timer s)"
  by (auto simp: anim_ok_def anim_timer_def split: option.split)

lemma anim_step_ok [keep_rules]: "anim_ok s \<Longrightarrow> anim_ok (anim_step cube d i s)"
  by (cases i) (auto intro: keep_rules)

interpretation anim_machine: machine "anim_step cube d" anim_ok
  by unfold_locales (rule anim_step_ok)

lemma anim_init_ok [simp]: "anim_ok (anim_init v)"
  by (simp add: anim_ok_def anim_init_def)

lemma eased_1: "cube 0 = 0 \<Longrightarrow> eased cube 1 = 1"
  using fl_of_int [of 1] fl_of_int [of 0] by (simp add: eased_def)

lemma eased_0: "cube 1 = 1 \<Longrightarrow> eased cube 0 = 0"
  using fl_of_int [of 1] fl_of_int [of 0] by (simp add: eased_def)

lemma fl_int_diff:
  assumes "\<bar>a\<bar> \<le> 2 ^ 52" "\<bar>b\<bar> \<le> 2 ^ 52"
  shows "fl (of_int b - of_int a) = of_int (b - a)"
proof -
  have "(2::int) ^ 53 = 2 * 2 ^ 52" by simp
  then have "\<bar>b - a\<bar> \<le> 2 ^ 53" using assms by linarith
  from fl_of_int [OF this] show ?thesis by simp
qed

lemma fl_int_52: "\<bar>b\<bar> \<le> 2 ^ 52 \<Longrightarrow> fl (of_int b) = of_int b"
  using fl_int_diff [of 0 b] by simp

text \<open>The last step of a tween between integers lands exactly on the target.\<close>

lemma tween_lands:
  assumes "\<bar>a\<bar> \<le> 2 ^ 52" "\<bar>b\<bar> \<le> 2 ^ 52" "cube 0 = 0"
  shows "fl (of_int a + fl (fl (of_int b - of_int a) * eased cube 1)) = of_int b"
proof -
  have d: "fl (of_int b - of_int a) = of_int (b - a)" by (rule fl_int_diff [OF assms(1,2)])
  have "fl (of_int (b - a)) = of_int (b - a)" using d by (simp add: of_int_diff)
  with d assms fl_int_52 [OF assms(2)] show ?thesis by (simp add: eased_1)
qed

text \<open>
  A tween in flight keeps its start through the frames that come before its duration has passed, and
  the first frame after that ends it; the component is then idle, and later frames do nothing.
\<close>

lemma idle_frames: "an_frame s = None \<Longrightarrow> fold (anim_step cube duration) (map AnimationFrame ts) s = s"
  by (induction ts) (simp_all add: anim_tick_def)

lemma tween_run:
  assumes "an_frame s = Some \<lparr>tw_from = of_int a, tw_value = of_int b, tw_start = Some ta\<rparr>" "an_pending s = 0"
    and "\<bar>a\<bar> \<le> 2 ^ 52" "\<bar>b\<bar> \<le> 2 ^ 52" "cube 0 = 0"
  shows "let s' = fold (anim_step cube duration) (map AnimationFrame ts) s in if \<exists>t \<in> set ts. 1 \<le> fl (fl (t - ta) / duration)
    then an_display s' = of_int b \<and> an_from s' = of_int b \<and> an_frame s' = None
    else an_frame s' = an_frame s"
  using assms(1,2)
proof (induction ts arbitrary: s)
  case (Cons t ts)
  show ?case
  proof (cases "1 \<le> fl (fl (t - ta) / duration)")
    case True
    then have m: "min (fl (fl (t - ta) / duration)) 1 = 1" by simp
    have "anim_tick cube duration t s = s\<lparr>an_display := of_int b, an_frame := None, an_pending := 0, an_from := of_int b\<rparr>"
      using Cons.prems tween_lands [of a b cube, OF assms(3-5)]
      by (simp add: anim_tick_def m default_def target_of_def Let_def)
    with True show ?thesis by (simp add: idle_frames Let_def)
  next
    case False
    then have "an_frame (anim_tick cube duration t s) = an_frame s" "an_pending (anim_tick cube duration t s) = 0"
      using Cons.prems by (simp_all add: anim_tick_def default_def target_of_def Let_def)
    with Cons.IH [of "anim_tick cube duration t s"] Cons.prems False show ?thesis by (simp add: Let_def)
  qed
qed simp

text \<open>
  C40: when the number changes from one integer to another, the tween ends at the first frame that
  comes when the duration has passed since its first frame, however many frames come before, and not
  earlier; from then on the display is exactly the new value and the component is idle, ready to
  start the next tween from it. This holds from any state the component can be in, also in the middle
  of another tween.
\<close>

theorem animated_number_settles:
  fixes ts ta
  assumes s: "s = fold (anim_step cube duration) ins (anim_init v)"
    and start: "an_from (run_cleanup s) = of_int a" and "a \<noteq> b" and "\<bar>a\<bar> \<le> 2 ^ 52" "\<bar>b\<bar> \<le> 2 ^ 52"
    and "cube 0 = 0"
  defines "s' \<equiv> fold (anim_step cube duration) (NewValue False (of_int b) # map AnimationFrame (ta # ts)) s"
  shows "(an_frame s' = None \<longleftrightarrow> (\<exists>t \<in> set ts. 1 \<le> fl (fl (t - ta) / duration)))
    \<and> (an_frame s' = None \<longrightarrow> an_display s' = of_int b \<and> an_from s' = of_int b)"
proof -
  have idle: "an_frame (run_cleanup s) = None" "an_pending (run_cleanup s) = 0"
    using run_cleanup_idle [of s] anim_machine.run [OF anim_init_ok] s by simp_all
  have "\<bar>rat_of_int (b - a)\<bar> \<ge> 1" using \<open>a \<noteq> b\<close> by linarith
  then have far: "\<not> \<bar>fl (of_int b - of_int a)\<bar> < 1 / 2" unfolding fl_int_diff [OF assms(4,5)] by linarith
  have z: "fl 0 = 0" using fl_of_int [of 0] by simp
  let ?s1 = "anim_tick cube duration ta (set_value False (of_int b) s)"
  have "set_value False (of_int b) s = (run_cleanup s)\<lparr>an_cleanup := CancelTween (of_int b),
      an_frame := Some \<lparr>tw_from = of_int a, tw_value = of_int b, tw_start = None\<rparr>\<rparr>"
    using idle start far by (simp add: set_value_def anim_effect_def Let_def)
  then have 1: "an_frame ?s1 = Some \<lparr>tw_from = of_int a, tw_value = of_int b, tw_start = Some ta\<rparr>" "an_pending ?s1 = 0"
    using idle z by (simp_all add: anim_tick_def Let_def default_def target_of_def)
  have "s' = fold (anim_step cube duration) (map AnimationFrame ts) ?s1" by (simp add: s'_def)
  with tween_run [OF 1 assms(4,5), of cube duration ts, OF assms(6)] 1(1) show ?thesis by (auto simp: Let_def split: if_splits)
qed

theorem animated_number_settles_witness:
  "an_display (fold (anim_step (\<lambda>x. x ^ 3) 900) [NewValue False 7, AnimationFrame 0, AnimationFrame 450, AnimationFrame 900] (anim_init 3)) = 7"
proof -
  have f: "fl 0 = 0" "fl 900 = 900" "fl 1 = 1" using fl_of_int [of 0] fl_of_int [of 900] fl_of_int [of 1] by simp_all
  have "an_from (run_cleanup (anim_init 3)) = of_int 3" by (simp add: run_cleanup_def anim_init_def)
  from animated_number_settles [where ins = "[]" and v = 3 and a = 3 and b = 7 and ta = 0 and ts = "[450, 900]"
      and duration = 900 and cube = "\<lambda>x. x ^ 3" and s = "anim_init 3", OF _ this] f
  show ?thesis by (simp del: fold_simps)
qed

fun small_steps :: "rat \<Rightarrow> rat list \<Rightarrow> bool" where
  "small_steps v [] \<longleftrightarrow> True"
| "small_steps v (w # ws) \<longleftrightarrow> \<bar>fl (w - v)\<bar> < 1 / 2 \<and> small_steps w ws"

lemma drift_run:
  assumes "small_steps (an_from s) vs" "an_frame s = None" "an_cleanup s = NoCleanup"
  shows "fold (anim_step cube d) (map (NewValue False) vs) s = s\<lparr>an_from := last (an_from s # vs)\<rparr>"
  using assms
proof (induction vs arbitrary: s)
  case (Cons v vs)
  then have "set_value False v s = s\<lparr>an_from := v\<rparr>" by (simp add: set_value_def run_cleanup_def anim_effect_def)
  with Cons.IH [of "s\<lparr>an_from := v\<rparr>"] Cons.prems show ?case by simp
qed simp

text \<open>
  Changes of less than one half are adopted silently but never displayed: however far a value
  drifts in such steps, the number on screen stays at the first one.
\<close>

lemma animated_number_drifts:
  assumes "small_steps v0 vs"
  shows "an_display (fold (anim_step cube d) (map (NewValue False) vs) (anim_init v0)) = v0
    \<and> an_from (fold (anim_step cube d) (map (NewValue False) vs) (anim_init v0)) = last (v0 # vs)"
  using drift_run [of "anim_init v0" vs cube d] assms by (simp add: anim_init_def)

lemma animated_number_drifts_witness:
  "an_display (fold (anim_step cube d) (map (NewValue False) [1 / 4, 1 / 2, 3 / 4, 1, 5 / 4, 3 / 2]) (anim_init 0)) = 0"
proof -
  have "fl (1 / 4) = 1 / 4" using fl_dyadic [of "1 / 4" 1 2] by simp
  then have "small_steps 0 [1 / 4, 1 / 2, 3 / 4, 1, 5 / 4, 3 / 2]" by simp
  from animated_number_drifts [OF this] show ?thesis by blast
qed

text \<open>A change in mid-tween makes the display jump to the old target before it moves on.\<close>

lemma animated_number_jumps:
  assumes "anim_ok s" "an_frame s = Some tw" "\<not> \<bar>fl (v - tw_value tw)\<bar> < 1 / 2" "cube 1 = 1"
    and "fl (tw_value tw) = tw_value tw" and "0 < duration"
  shows "an_display (anim_tick cube duration t (set_value False v s)) = tw_value tw"
proof -
  have "an_cleanup s = CancelTween (tw_value tw)" "an_pending s = 0" using assms(1,2) by (simp_all add: anim_ok_def)
  then have "set_value False v s = s\<lparr>an_from := tw_value tw, an_pending := 0,
      an_frame := Some \<lparr>tw_from = tw_value tw, tw_value = v, tw_start = None\<rparr>, an_cleanup := CancelTween v\<rparr>"
    using assms(3) by (simp add: set_value_def run_cleanup_def anim_effect_def target_of_def Let_def)
  moreover have "fl 0 = 0" using fl_of_int [of 0] by simp
  ultimately show ?thesis using assms(4-6) by (simp add: anim_tick_def Let_def default_def target_of_def eased_0)
qed

section \<open>Ranges\<close>

lemma gauge_pct_bounds: "0 \<le> gauge_pct value mx \<and> gauge_pct value mx \<le> 1"
  by (simp add: gauge_pct_def)

lemma gauge_needle_bounds:
  assumes "0 \<le> pct" "pct \<le> 1"
  shows "- 135 \<le> gauge_needle pct \<and> gauge_needle pct \<le> 135"
proof -
  have "0 \<le> fl (270 * pct)" "fl (270 * pct) \<le> 270"
    using assms by (auto intro!: dbl.ge_0 dbl.le_numeral)
  then show ?thesis unfolding gauge_needle_def by (auto intro!: dbl.ge_neg_numeral dbl.le_numeral)
qed

lemma riskLevel_mono: "mono riskLevel"
  by (rule monoI) (auto simp: riskLevel_def less_eq_risk_level_def)

text \<open>The stroke of the ring stays within the circle.\<close>

lemma ring_offset_bounds: "0 \<le> ring \<Longrightarrow> 0 \<le> ring_offset ring \<and> ring_offset ring \<le> 1"
proof -
  assume "0 \<le> ring"
  then have "0 \<le> fl (min ring 100 / 100)" "fl (min ring 100 / 100) \<le> 1" by (auto intro!: dbl.ge_0 dbl.le_1)
  then show ?thesis unfolding ring_offset_def by (auto intro!: dbl.ge_0 dbl.le_1)
qed

lemma tx_filtered_all: "tx_filtered ''ALL'' events = events"
  by (simp add: tx_filtered_def)

lemma tx_filtered_parts:
  "length (filter (\<lambda>e. ev_action e \<in> Some ` set (tl tx_actions)) events)
   = (\<Sum>a \<leftarrow> tl tx_actions. length (tx_filtered a events))"
  by (induction events) (auto simp: tx_actions_def tx_filtered_def)

end
