(* ===== verification/Rules.thy ===== *)
theory Rules
  imports Api Widgets
begin

text \<open>
  The rules page: the hook \<open>useRules\<close> (\<open>lib/api.ts\<close>), the demonstration rule set
  (\<open>lib/demo.ts\<close>) and the editor, filter, statistics and deletion of \<open>app/rules/page.tsx\<close>.
\<close>

section \<open>The demonstration rules\<close>

definition minutes_ago :: "int \<Rightarrow> int \<Rightarrow> iso" where
  "minutes_ago now n = Iso (now - 1000 * 60 * n)"

definition demo_rule :: "int \<Rightarrow> string \<Rightarrow> string \<Rightarrow> string \<Rightarrow> string \<Rightarrow> string \<Rightarrow> rat \<Rightarrow> string \<Rightarrow> rat
    \<Rightarrow> int \<Rightarrow> int \<Rightarrow> int \<Rightarrow> fraud_rule" where
  "demo_rule now rid rule name descr expr score action prio hits mins hrs =
     \<lparr>fr_id = rid, fr_rule_id = rule, fr_name = name, fr_description = descr, fr_expression = expr,
      fr_score_contribution = score, fr_action = action, fr_is_enabled = True, fr_priority = prio,
      fr_hit_count = hits, fr_last_triggered_at = Some (minutes_ago now mins),
      fr_created_at = minutes_ago now (60 * hrs)\<rparr>"

definition DEMO_RULES :: "int \<Rightarrow> fraud_rule list" where
  "DEMO_RULES now = [
     demo_rule now ''demo-r1'' ''RULE_VPN_BURST'' ''VPN + Transaction Burst''
       ''Datacenter/VPN IP making 5+ payment attempts within 1 minute.''
       ''ip_is_vpn and v_payment_attempts_1m >= 5'' 35 ''CHALLENGE'' 80 1284 3 72,
     demo_rule now ''demo-r2'' ''RULE_VELOCITY_LOGIN'' ''Impossible Travel''
       ''Successful logins from two countries > 8000 km apart within 10 minutes.''
       ''geo_distance_from_home_km > 8000 and v_country_hops_10m >= 2'' 45 ''BLOCK'' 95 317 11 120,
     demo_rule now ''demo-r3'' ''RULE_NEWDEVICE_HIGHVALUE'' ''New Device + High Value''
       (''Unseen device fingerprint attempting a transaction above 2'' @ [CHR 0xC3, CHR 0x97] @ '' user average.'')
       ''device_age_days < 1 and amount_vs_user_avg > 2'' 30 ''REVIEW'' 60 892 1 48,
     demo_rule now ''demo-r4'' ''RULE_TOR_LOGIN'' ''Tor Exit Node Login''
       ''Any authentication attempt from a known Tor exit node.''
       ''ip_is_tor'' 50 ''BLOCK'' 99 56 27 200,
     demo_rule now ''demo-r5'' ''RULE_CARD_TESTING'' ''Card Testing Pattern''
       ''3+ distinct cards from one fingerprint within 5 minutes.''
       ''v_distinct_cards_5m >= 3'' 40 ''BLOCK'' 85 145 8 24]"

section \<open>The hook\<close>

datatype enabled_filter = FilterAll | FilterEnabled | FilterDisabled

record 'srv rules_page = "'srv page" +
  ur_rules :: "fraud_rule list option"
  ur_error :: "string option"
  ur_loading :: bool
  ur_demo :: bool
  rp_confirm :: "fraud_rule option"
  rp_editor_open :: bool
  rp_features :: "string list"
  rp_search :: string
  rp_filter :: enabled_filter

definition is_digit :: "char \<Rightarrow> bool" where
  "is_digit c \<longleftrightarrow> 48 \<le> char_code c \<and> char_code c \<le> 57"

text \<open>\<open>/Failed to load rules \(\d+\)/.test(msg)\<close> and \<open>/network|fetch/i.test(msg)\<close>.\<close>

definition counted_at :: "string \<Rightarrow> bool" where
  "counted_at s \<longleftrightarrow> (let rest = drop (length ''Failed to load rules ('') s in
     startsWith s ''Failed to load rules ('' \<and> takeWhile is_digit rest \<noteq> []
     \<and> startsWith (dropWhile is_digit rest) '')'')"

definition load_failed_regex :: "string \<Rightarrow> bool" where
  "load_failed_regex s \<longleftrightarrow> list_ex counted_at (suffixes s)"

definition network_regex :: "string \<Rightarrow> bool" where
  "network_regex s \<longleftrightarrow> str_includes (toLowerCase s) ''network'' \<or> str_includes (toLowerCase s) ''fetch''"

definition rules_refresh :: "int \<Rightarrow> env \<Rightarrow> 'srv api \<Rightarrow> ('srv rules_page, unit) comp" where
  "rules_refresh loaded_at ev api =
     bindE (modifyE (\<lambda>s. s\<lparr>ur_loading := True\<rparr>)) (\<lambda>_.
     finallyE (catchE
       (bindE (on_world (listRules ev api)) (\<lambda>rules.
          modifyE (\<lambda>s. s\<lparr>ur_rules := Some rules, ur_error := None, ur_demo := False\<rparr>)))
       (\<lambda>cause. let msg = message_or cause ''Failed to load rules'' in
          if load_failed_regex msg \<or> network_regex msg
          then modifyE (\<lambda>s. s\<lparr>ur_rules := Some (DEMO_RULES loaded_at), ur_demo := True, ur_error := None\<rparr>)
          else modifyE (\<lambda>s. s\<lparr>ur_error := Some msg\<rparr>)))
       (\<lambda>s. s\<lparr>ur_loading := False\<rparr>))"

section \<open>The editor\<close>

definition ACTIONS :: "string list" where
  "ACTIONS = [''BLOCK'', ''CHALLENGE'', ''REVIEW'', ''FLAG'']"

definition initial_form :: "fraud_rule option \<Rightarrow> rule_input" where
  "initial_form editing =
     \<lparr>ri_rule_id = None,
      ri_name = default (map_option fr_name editing) '''',
      ri_description = Some (default (map_option fr_description editing) ''''),
      ri_expression = default (map_option fr_expression editing) '''',
      ri_score_contribution = default (map_option fr_score_contribution editing) 60,
      ri_action = default (map_option fr_action editing) ''CHALLENGE'',
      ri_is_enabled = Some (default (map_option fr_is_enabled editing) True),
      ri_priority = Some (default (map_option fr_priority editing) 50)\<rparr>"

record editor =
  ed_editing :: "fraud_rule option"
  ed_form :: rule_input
  ed_rule_id :: string
  ed_error :: "string option"
  ed_saving :: bool
  ed_query :: string

definition open_editor :: "fraud_rule option \<Rightarrow> editor" where
  "open_editor editing = \<lparr>ed_editing = editing, ed_form = initial_form editing,
     ed_rule_id = default (map_option fr_rule_id editing) '''', ed_error = None, ed_saving = False,
     ed_query = ''''\<rparr>"

datatype form_input = SetName string | SetDescription string | SetExpression string
  | SetScore rat | SetAction string | SetPriority rat | SetEnabled bool | SetRuleId string
  | SetQuery string | InsertFeature string

definition insertFeature :: "string \<Rightarrow> rule_input \<Rightarrow> rule_input" where
  "insertFeature f form = form\<lparr>ri_expression :=
     (if ri_expression form \<noteq> [] then ri_expression form @ '' '' @ f else f)\<rparr>"

fun edit :: "form_input \<Rightarrow> editor \<Rightarrow> editor" where
  "edit (SetName v) ed = ed\<lparr>ed_form := (ed_form ed)\<lparr>ri_name := v\<rparr>\<rparr>"
| "edit (SetDescription v) ed = ed\<lparr>ed_form := (ed_form ed)\<lparr>ri_description := Some v\<rparr>\<rparr>"
| "edit (SetExpression v) ed = ed\<lparr>ed_form := (ed_form ed)\<lparr>ri_expression := v\<rparr>\<rparr>"
| "edit (SetScore v) ed = ed\<lparr>ed_form := (ed_form ed)\<lparr>ri_score_contribution := v\<rparr>\<rparr>"
| "edit (SetAction v) ed = ed\<lparr>ed_form := (ed_form ed)\<lparr>ri_action := v\<rparr>\<rparr>"
| "edit (SetPriority v) ed = ed\<lparr>ed_form := (ed_form ed)\<lparr>ri_priority := Some v\<rparr>\<rparr>"
| "edit (SetEnabled v) ed = ed\<lparr>ed_form := (ed_form ed)\<lparr>ri_is_enabled := Some v\<rparr>\<rparr>"
| "edit (SetRuleId v) ed = (if ed_editing ed = None then ed\<lparr>ed_rule_id := v\<rparr> else ed)"
| "edit (SetQuery v) ed = ed\<lparr>ed_query := v\<rparr>"
| "edit (InsertFeature f) ed = ed\<lparr>ed_form := insertFeature f (ed_form ed)\<rparr>"

definition save_disabled :: "editor \<Rightarrow> bool" where
  "save_disabled ed \<longleftrightarrow> ed_saving ed \<or> ri_name (ed_form ed) = [] \<or> ri_expression (ed_form ed) = []"

definition filteredFeatures :: "string list \<Rightarrow> string \<Rightarrow> string list" where
  "filteredFeatures features query = (let q = toLowerCase (trim query) in
     if q \<noteq> [] then take 12 (filter (\<lambda>f. str_includes (toLowerCase f) q) features) else take 12 features)"

text \<open>
  \<open>save\<close>. The page and the editor are threaded together; \<open>onSaved\<close> closes the editor and reloads
  the rules.
\<close>

definition onSaved :: "int \<Rightarrow> env \<Rightarrow> 'srv api \<Rightarrow> ('srv rules_page, unit) comp" where
  "onSaved loaded_at ev api = bindE (modifyE (\<lambda>s. s\<lparr>rp_editor_open := False\<rparr>))
     (\<lambda>_. rules_refresh loaded_at ev api)"

definition save_rule :: "env \<Rightarrow> 'srv api \<Rightarrow> editor \<Rightarrow> ('srv rules_page, unit) comp" where
  "save_rule ev api ed = (let form = ed_form ed in
     case ed_editing ed of
       Some rule \<Rightarrow> bindE (on_world (updateRule ev api (fr_rule_id rule) form)) (\<lambda>_.
         show_toast Success ''Rule updated'' (ri_name form @ '' saved and hot-reloaded into the decision engine.''))
     | None \<Rightarrow>
         if trim (ed_rule_id ed) = [] then throwE (JsError ''Rule ID is required'')
         else bindE (on_world (createRule ev api (form\<lparr>ri_rule_id := Some (trim (ed_rule_id ed))\<rparr>))) (\<lambda>_.
           show_toast Success ''Rule created'' (ri_name form @ '' is now live in the decision engine.'')))"

definition save :: "int \<Rightarrow> env \<Rightarrow> 'srv api \<Rightarrow> editor \<Rightarrow> ('srv rules_page, editor) comp" where
  "save loaded_at ev api ed = catchE
     (bindE (save_rule ev api ed) (\<lambda>_. bindE (onSaved loaded_at ev api) (\<lambda>_.
        returnE (ed\<lparr>ed_error := None, ed_saving := False\<rparr>))))
     (\<lambda>cause. let msg = message_or cause ''Save failed'' in
        bindE (show_toast Danger ''Save failed'' msg) (\<lambda>_.
        returnE (ed\<lparr>ed_error := Some msg, ed_saving := False\<rparr>)))"

section \<open>The list\<close>

definition rule_matches :: "string \<Rightarrow> enabled_filter \<Rightarrow> fraud_rule \<Rightarrow> bool" where
  "rule_matches q mode r \<longleftrightarrow>
     \<not> (q \<noteq> [] \<and> \<not> str_includes (toLowerCase (fr_name r @ '' '' @ fr_rule_id r @ '' '' @ fr_expression r)) q)
     \<and> \<not> (mode = FilterEnabled \<and> \<not> fr_is_enabled r) \<and> \<not> (mode = FilterDisabled \<and> fr_is_enabled r)"

definition filtered_rules :: "fraud_rule list option \<Rightarrow> string \<Rightarrow> enabled_filter \<Rightarrow> fraud_rule list" where
  "filtered_rules rules search mode = (case rules of None \<Rightarrow> []
     | Some rs \<Rightarrow> filter (rule_matches (toLowerCase (trim search)) mode) rs)"

definition rule_stats :: "fraud_rule list option \<Rightarrow> nat \<times> nat \<times> int" where
  "rule_stats rules = (case rules of None \<Rightarrow> (0, 0, 0)
     | Some rs \<Rightarrow> (length rs, length (filter fr_is_enabled rs),
         foldl (\<lambda>s r. s + fr_hit_count r) 0 rs))"

text \<open>The badge style of a rule falls back to FLAG; a blank description is replaced.\<close>

definition rule_badge :: "fraud_rule \<Rightarrow> string" where
  "rule_badge r = (if fr_action r \<in> set ACTIONS then fr_action r else ''FLAG'')"

definition rule_description :: "fraud_rule \<Rightarrow> string" where
  "rule_description r = (if fr_description r \<noteq> [] then fr_description r else ''No description'')"

definition remove_rule :: "int \<Rightarrow> env \<Rightarrow> 'srv api \<Rightarrow> ('srv rules_page, unit) comp" where
  "remove_rule loaded_at ev api = bindE (readE rp_confirm) (\<lambda>confirm.
     case confirm of None \<Rightarrow> returnE ()
     | Some rule \<Rightarrow> catchE
         (bindE (on_world (deleteRule ev api (fr_rule_id rule))) (\<lambda>_.
          bindE (modifyE (\<lambda>s. s\<lparr>rp_confirm := None\<rparr>)) (\<lambda>_.
          bindE (rules_refresh loaded_at ev api) (\<lambda>_.
          show_toast Success ''Rule deleted'' (fr_name rule @ '' removed and hot-unloaded from the engine.'')))))
         (\<lambda>_. bindE (modifyE (\<lambda>s. s\<lparr>rp_confirm := None\<rparr>)) (\<lambda>_.
            show_toast Danger ''Delete failed''
              (''The rule could not be removed '' @ emdash @ '' check engine availability.''))))"

text \<open>The effect that loads the feature vocabulary once.\<close>

definition load_features :: "env \<Rightarrow> 'srv api \<Rightarrow> ('srv rules_page, unit) comp" where
  "load_features ev api = catchE
     (bindE (on_world (listFeatures ev api)) (\<lambda>fs. modifyE (\<lambda>s. s\<lparr>rp_features := fs\<rparr>)))
     (\<lambda>_. modifyE (\<lambda>s. s\<lparr>rp_features := []\<rparr>))"

text \<open>The clicks of the page; an open editor is kept beside it.\<close>

datatype rules_input = Search string | FilterBy enabled_filter | NewRule | EditRule fraud_rule
  | CloseEditor | AskDelete fraud_rule | CancelDelete

fun rules_click :: "rules_input \<Rightarrow> 'srv rules_page \<times> editor option \<Rightarrow> 'srv rules_page \<times> editor option" where
  "rules_click (Search text) (s, ed) = (s\<lparr>rp_search := text\<rparr>, ed)"
| "rules_click (FilterBy mode) (s, ed) = (s\<lparr>rp_filter := mode\<rparr>, ed)"
| "rules_click NewRule (s, ed) = (s\<lparr>rp_editor_open := True\<rparr>, Some (open_editor None))"
| "rules_click (EditRule rule) (s, ed) = (s\<lparr>rp_editor_open := True\<rparr>, Some (open_editor (Some rule)))"
| "rules_click CloseEditor (s, ed) = (s\<lparr>rp_editor_open := False\<rparr>, None)"
| "rules_click (AskDelete rule) (s, ed) = (s\<lparr>rp_confirm := Some rule\<rparr>, ed)"
| "rules_click CancelDelete (s, ed) = (s\<lparr>rp_confirm := None\<rparr>, ed)"

text \<open>The header line, the banner, and what the list shows; \<open>toLocale\<close> is \<open>toLocaleString\<close>.\<close>

definition rules_header :: "(int \<Rightarrow> string) \<Rightarrow> 'srv rules_page \<Rightarrow> string" where
  "rules_header toLocale s = (case rule_stats (ur_rules s) of (n, enabled, hits) \<Rightarrow>
     dec enabled @ ''/'' @ dec n @ '' active '' @ middot @ '' '' @ toLocale hits @ '' lifetime hits'')"

definition rules_banner :: "'srv rules_page \<Rightarrow> string option" where
  "rules_banner s = (if truthy (ur_error s) then Some (the (ur_error s) @ '' '' @ emdash
     @ '' the risk engine must be healthy and seeded (make seed-rules).'') else None)"

definition shown_rules :: "'srv rules_page \<Rightarrow> fraud_rule list" where
  "shown_rules s = filtered_rules (ur_rules s) (rp_search s) (rp_filter s)"

definition list_skeleton :: "'srv rules_page \<Rightarrow> bool" where
  "list_skeleton s \<longleftrightarrow> ur_loading s \<and> ur_rules s = None"

definition list_empty :: "'srv rules_page \<Rightarrow> bool" where
  "list_empty s \<longleftrightarrow> \<not> ur_loading s \<and> shown_rules s = []"

text \<open>A row of the list: what is printed, whether the disabled badge is shown, the badge of the score.\<close>

record rule_row =
  rr_id :: string
  rr_name :: string
  rr_action :: string
  rr_style :: string
  rr_disabled :: bool
  rr_description :: string
  rr_expression :: string
  rr_level :: risk_level
  rr_hits :: string

definition view_rule :: "(int \<Rightarrow> string) \<Rightarrow> fraud_rule \<Rightarrow> rule_row" where
  "view_rule toLocale r = \<lparr>rr_id = fr_rule_id r, rr_name = fr_name r, rr_action = fr_action r, rr_style = rule_badge r,
     rr_disabled = (\<not> fr_is_enabled r), rr_description = rule_description r, rr_expression = fr_expression r,
     rr_level = riskLevel (fr_score_contribution r), rr_hits = toLocale (fr_hit_count r)\<rparr>"

definition rule_list :: "(int \<Rightarrow> string) \<Rightarrow> 'srv rules_page \<Rightarrow> rule_row list" where
  "rule_list toLocale s = map (view_rule toLocale) (shown_rules s)"

text \<open>The dialog that asks before a deletion: its heading, and its text between quotation marks.\<close>

definition left_quote :: string where
  "left_quote = [CHR 0xE2, CHR 0x80, CHR 0x9C]"

definition right_quote :: string where
  "right_quote = [CHR 0xE2, CHR 0x80, CHR 0x9D]"

definition delete_prompt :: "'srv rules_page \<Rightarrow> (string \<times> string) option" where
  "delete_prompt s = map_option (\<lambda>r. (''Delete '' @ fr_rule_id r @ ''?'', left_quote @ fr_name r @ right_quote
     @ '' will stop firing immediately. Lifetime hit stats are lost.'')) (rp_confirm s)"

section \<open>Loading\<close>

lemma dec_digits: "c \<in> set (dec n) \<Longrightarrow> is_digit c"
proof -
  assume "c \<in> set (dec n)"
  then obtain d where d: "d \<in> set (radix_digits 10 n)" "c = digit_char d"
    by (auto simp: dec_def radix_string_def)
  then have "d < 10" using radix_digits_bound [of 10 d n] by simp
  with d(2) show ?thesis by (simp add: is_digit_def digit_char_code)
qed

lemma load_failed_regex_status: "load_failed_regex (''Failed to load rules ('' @ dec n @ '')'')"
proof -
  have nd: "\<not> is_digit (CHR '')'')" by code_simp
  have "takeWhile is_digit (dec n @ '')'') = dec n" "dropWhile is_digit (dec n @ '')'') = '')''"
    using nd by (simp_all add: takeWhile_append2 dropWhile_append2 dec_digits)
  then have "counted_at (''Failed to load rules ('' @ dec n @ '')'')"
    by (simp add: counted_at_def startsWith_def dec_def radix_string_nonempty)
  then show ?thesis
    unfolding load_failed_regex_def by (auto simp: list_ex_iff intro!: bexI [of _ "''Failed to load rules ('' @ dec n @ '')''"])
qed

text \<open>The state after a reload, from what \<open>listRules\<close> did.\<close>

definition demo_worthy :: "exn \<Rightarrow> bool" where
  "demo_worthy e \<longleftrightarrow> (let msg = message_or e ''Failed to load rules'' in load_failed_regex msg \<or> network_regex msg)"

lemma rules_refresh_eq:
  "rules_refresh t ev api s = (Inr (), (case listRules ev api (pg_world s) of
      (Inr rules, w) \<Rightarrow> s\<lparr>pg_world := w, ur_rules := Some rules, ur_error := None, ur_demo := False, ur_loading := False\<rparr>
    | (Inl e, w) \<Rightarrow> if demo_worthy e
        then s\<lparr>pg_world := w, ur_rules := Some (DEMO_RULES t), ur_demo := True, ur_error := None, ur_loading := False\<rparr>
        else s\<lparr>pg_world := w, ur_error := Some (message_or e ''Failed to load rules''), ur_loading := False\<rparr>))"
  by (auto simp: rules_refresh_def comp_defs finallyE_def on_world_def demo_worthy_def Let_def
      split: prod.split sum.split)

text \<open>
  Reloading the rules always ends, with the spinner off, in one of three states: the server's
  rules, the demonstration rules marked as such with no error, or an error with the rules that
  were shown before.
\<close>

lemma rules_refresh_outcome:
  "\<exists>s'. rules_refresh t ev api s = (Inr (), s') \<and> \<not> ur_loading s'
    \<and> (\<not> ur_demo s' \<and> ur_error s' = None \<and> fst (listRules ev api (pg_world s)) = Inr (the (ur_rules s')) \<and> ur_rules s' \<noteq> None
       \<or> ur_demo s' \<and> ur_error s' = None \<and> ur_rules s' = Some (DEMO_RULES t)
       \<or> ur_error s' \<noteq> None \<and> ur_rules s' = ur_rules s \<and> ur_demo s' = ur_demo s)"
  unfolding rules_refresh_eq by (cases "listRules ev api (pg_world s)") (auto split: sum.split)

text \<open>
  Every HTTP error switches the page to the demonstration rules without an error message, also
  one that proves the backend is up, such as 401, 403 or 500: the pattern meant for an unreachable
  backend matches the message the client makes of any status.
\<close>

lemma rules_http_error_becomes_demo:
  assumes "fst (apiFetch ev (ep_refresh api) (ep_rules api) (get_request (apiURL ev ''/api/v1/rules/'')) (pg_world s))
      = Inr res" "\<not> ok res"
  shows "let s' = snd (rules_refresh t ev api s) in
    ur_demo s' \<and> ur_error s' = None \<and> ur_rules s' = Some (DEMO_RULES t)"
proof -
  obtain w' where "apiFetch ev (ep_refresh api) (ep_rules api) (get_request (apiURL ev ''/api/v1/rules/'')) (pg_world s)
      = (Inr res, w')" using assms(1) by (metis prod.collapse)
  then have "listRules ev api (pg_world s) = (Inl (failed_with ''Failed to load rules'' (rs_status res)), w')"
    using assms(2) by (simp add: listRules_def bindE_def throwE_def)
  moreover have "demo_worthy (failed_with ''Failed to load rules'' (rs_status res))"
    using load_failed_regex_status [of "rs_status res"] by (simp add: demo_worthy_def failed_with_def)
  ultimately show ?thesis by (simp add: rules_refresh_eq Let_def)
qed

definition blank_rules_page :: "unit rules_page" where
  "blank_rules_page = \<lparr>pg_world = blank_world, pg_toasts = toast_init, ur_rules = None, ur_error = None,
     ur_loading = True, ur_demo = False, rp_confirm = None, rp_editor_open = False,
     rp_features = [], rp_search = '''', rp_filter = FilterAll\<rparr>"

lemma rules_http_error_becomes_demo_witness:
  "ur_demo (snd (rules_refresh 0 local_env (empty_api\<lparr>ep_rules := \<lambda>rq st.
     (Inr \<lparr>rs_status = 500, rs_json = Inl JsOther\<rparr>, st)\<rparr>) blank_rules_page))"
proof -
  let ?res = "\<lparr>rs_status = 500, rs_json = Inl JsOther\<rparr> :: fraud_rule list response"
  let ?api = "empty_api\<lparr>ep_rules := \<lambda>rq st. (Inr ?res, st)\<rparr>"
  have "fst (apiFetch local_env (ep_refresh ?api) (ep_rules ?api)
      (get_request (apiURL local_env ''/api/v1/rules/'')) (pg_world blank_rules_page)) = Inr ?res"
    by (simp add: apiFetch_def bindE_def send_auth_eq do_fetch_world returnE_def)
  from rules_http_error_becomes_demo [OF this, of 0] show ?thesis by (simp add: ok_def Let_def)
qed

text \<open>
  A rejected request is reported as an error, not as demo mode, when the browser's message names
  neither the network nor fetch.
\<close>

lemma load_failed_message: "\<not> demo_worthy (JsError ''Load failed'') \<and> demo_worthy (JsError ''Failed to fetch'')"
  by code_simp

section \<open>Saving\<close>

lemma save_eq:
  "save t ev api ed s = (case save_rule ev api ed s of
      (Inr _, s1) \<Rightarrow> (Inr (ed\<lparr>ed_error := None, ed_saving := False\<rparr>), snd (onSaved t ev api s1))
    | (Inl e, s1) \<Rightarrow> (Inr (ed\<lparr>ed_error := Some (message_or e ''Save failed''), ed_saving := False\<rparr>),
        snd (show_toast Danger ''Save failed'' (message_or e ''Save failed'') s1)))"
  by (simp add: save_def onSaved_def rules_refresh_eq catchE_def bindE_def returnE_def modifyE_def
      show_toast_def Let_def split: prod.split sum.split)

lemma onSaved_closes: "\<not> rp_editor_open (snd (onSaved t ev api s))"
  by (auto simp: onSaved_def bindE_def modifyE_def rules_refresh_eq split: prod.split sum.split)

lemma save_rule_keeps_editor: "rp_editor_open (snd (save_rule ev api ed s)) = rp_editor_open s"
  by (auto simp: save_rule_def Let_def comp_defs on_world_def show_toast_def
      split: option.split prod.split sum.split)

text \<open>
  Saving never throws and always re-enables the button. The editor closes exactly when the
  server accepted the rule; otherwise it stays open with the reason, which is also shown as a
  notification. A new rule without an id is refused without sending anything.
\<close>

lemma save_outcome:
  assumes "rp_editor_open s"
  shows "\<exists>ed' s'. save t ev api ed s = (Inr ed', s') \<and> \<not> ed_saving ed' \<and> ed_form ed' = ed_form ed
    \<and> (rp_editor_open s' \<longleftrightarrow> ed_error ed' \<noteq> None)
    \<and> (ed_error ed' = None \<longleftrightarrow> (\<exists>u. fst (save_rule ev api ed s) = Inr u))
    \<and> (ed_editing ed = None \<and> trim (ed_rule_id ed) = []
        \<longrightarrow> ed_error ed' = Some ''Rule ID is required'' \<and> pg_world s' = pg_world s)"
proof (cases "save_rule ev api ed s")
  case (Pair r s1)
  have open1: "rp_editor_open s1" using save_rule_keeps_editor [of ev api ed s] assms Pair by simp
  show ?thesis
  proof (cases r)
    case (Inl e)
    then show ?thesis using Pair open1
      by (auto simp: save_eq show_toast_def modifyE_def save_rule_def throwE_def Let_def)
  next
    case (Inr u)
    then have "\<not> (ed_editing ed = None \<and> trim (ed_rule_id ed) = [])"
      using Pair by (auto simp: save_rule_def throwE_def Let_def)
    then show ?thesis using Pair Inr onSaved_closes [of t ev api s1] by (auto simp: save_eq)
  qed
qed

lemma save_outcome_witness:
  "\<exists>ed' s'. save 0 local_env empty_api (open_editor None) (blank_rules_page\<lparr>rp_editor_open := True\<rparr>) = (Inr ed', s')
    \<and> ed_error ed' = Some ''Rule ID is required'' \<and> rp_editor_open s'"
proof -
  have "trim (ed_rule_id (open_editor None)) = []" "ed_editing (open_editor None) = None"
    by (simp_all add: open_editor_def trim_def)
  with save_outcome [of "blank_rules_page\<lparr>rp_editor_open := True\<rparr>" 0 local_env empty_api "open_editor None"]
  show ?thesis by auto
qed

section \<open>Filtering\<close>

text \<open>
  Whatever the search text, the enabled and the disabled view split the full view: no rule is
  lost or shown in both; the counters of the header agree with the unfiltered views.
\<close>

lemma rule_views_partition:
  "mset (filtered_rules rules q FilterEnabled) + mset (filtered_rules rules q FilterDisabled)
     = mset (filtered_rules rules q FilterAll)
   \<and> fst (rule_stats rules) = length (filtered_rules rules [] FilterAll)
   \<and> fst (snd (rule_stats rules)) = length (filtered_rules rules [] FilterEnabled)
   \<and> snd (snd (rule_stats rules)) = sum_list (map fr_hit_count (filtered_rules rules [] FilterAll))"
proof (cases rules)
  case (Some rs)
  have split: "mset (filter (rule_matches p FilterEnabled) rs) + mset (filter (rule_matches p FilterDisabled) rs)
      = mset (filter (rule_matches p FilterAll) rs)" for p
    by (induction rs) (auto simp: rule_matches_def)
  have e: "toLowerCase (trim []) = []" by (simp add: trim_def toLowerCase_def)
  have all: "rule_matches [] FilterAll = (\<lambda>_. True)" "rule_matches [] FilterEnabled = fr_is_enabled"
    by (auto simp: rule_matches_def)
  have "foldl (\<lambda>a r. a + fr_hit_count r) n rs = n + sum_list (map fr_hit_count rs)" for n
    by (induction rs arbitrary: n) auto
  with Some split show ?thesis by (simp add: filtered_rules_def rule_stats_def e all)
qed (simp add: filtered_rules_def rule_stats_def)

text \<open>
  The demonstration rules are well formed: distinct ids, actions the editor offers, scores and
  priorities between 0 and 100, and creation before the last trigger before the load time.
\<close>

lemma demo_rules_well_formed:
  "distinct (map fr_id (DEMO_RULES now)) \<and> distinct (map fr_rule_id (DEMO_RULES now))
   \<and> list_all (\<lambda>r. fr_action r \<in> set ACTIONS \<and> rule_badge r = fr_action r
        \<and> 0 \<le> fr_score_contribution r \<and> fr_score_contribution r \<le> 100
        \<and> 0 \<le> fr_priority r \<and> fr_priority r \<le> 100
        \<and> (case (getTime (fr_created_at r), fr_last_triggered_at r) of
             (Some c, Some (Iso t)) \<Rightarrow> c < t \<and> t < now | _ \<Rightarrow> False)) (DEMO_RULES now)"
  by (simp add: DEMO_RULES_def demo_rule_def minutes_ago_def ACTIONS_def rule_badge_def)

section \<open>Deleting\<close>

text \<open>
  A refusal for missing rights reaches the operator as an availability problem: the reason the
  client prepared is dropped.
\<close>

lemma remove_hides_reason:
  assumes "rp_confirm s = Some rule" "fst (deleteRule ev api (fr_rule_id rule) (pg_world s)) = Inl e"
  shows "ts_toasts (pg_toasts (snd (remove_rule t ev api s))) \<noteq> []
    \<and> ti_message (t_input (last (ts_toasts (pg_toasts (snd (remove_rule t ev api s))))))
      = Some (''The rule could not be removed '' @ emdash @ '' check engine availability.'')
    \<and> rp_confirm (snd (remove_rule t ev api s)) = None"
proof -
  obtain w where "deleteRule ev api (fr_rule_id rule) (pg_world s) = (Inl e, w)"
    using assms(2) by (metis prod.collapse)
  with assms(1) show ?thesis
    by (simp add: remove_rule_def comp_defs on_world_def show_toast_def push_toast_def Let_def)
qed

text \<open>Loading the vocabulary never throws and keeps everything else of the page.\<close>

lemma load_features_total:
  "\<exists>w fs. load_features ev api s = (Inr (), s\<lparr>pg_world := w, rp_features := fs\<rparr>)"
proof -
  obtain r w where e: "listFeatures ev api (pg_world s) = (r, w)" by fastforce
  then show ?thesis by (cases r) (auto simp: load_features_def comp_defs on_world_def)
qed

text \<open>
  The form of an opened editor sends back the rule it was opened on: saving without a change
  updates the rule with its own fields.
\<close>

lemma open_editor_keeps_rule:
  "initial_form (Some r) = \<lparr>ri_rule_id = None, ri_name = fr_name r, ri_description = Some (fr_description r),
     ri_expression = fr_expression r, ri_score_contribution = fr_score_contribution r, ri_action = fr_action r,
     ri_is_enabled = Some (fr_is_enabled r), ri_priority = Some (fr_priority r)\<rparr>"
  by (simp add: initial_form_def default_def)

lemma editing_step: "ed_editing ed = Some r \<Longrightarrow> ed_editing (edit e ed) = Some r \<and> ed_rule_id (edit e ed) = ed_rule_id ed"
  by (cases e) simp_all

interpretation editing_machine: machine edit "\<lambda>ed. ed_editing ed = Some r"
  by unfold_locales (simp add: editing_step)

lemma edit_keeps_id: "ed_editing ed = Some r \<Longrightarrow> ed_rule_id (fold edit es ed) = ed_rule_id ed \<and> ed_editing (fold edit es ed) = Some r"
  using editing_machine.run_frame [of r ed_rule_id ed es] editing_machine.run [of ed r es] editing_step by blast

end
