(* ===== verification/Rules_Run.thy ===== *)
theory Rules_Run
  imports Rules
begin

text \<open>
  The rules page of \<open>app/rules/page.tsx\<close> and its hook \<open>useRules\<close> (\<open>lib/api.ts\<close>) as a machine in
  which the operator goes on working while requests are under way: a click sends its request, and
  the code behind the \<open>await\<close> runs when the answer is delivered, in any order. The operations of the
  theory \<open>Rules\<close> are the runs in which nothing happens in between.

  The server handles a request when it is sent. An open editor or delete dialog covers the page, so
  that the buttons behind it get no clicks; closing the editor drops its state. After the operator
  has left the page only answers arrive.
\<close>

section \<open>State\<close>

text \<open>
  Answers under way: of a list request; of a save, with the editor instance it was sent from, whether
  that one edited a rule, and the name in the form; of a deletion.
\<close>

datatype answer = ListAnswer "exn + fraud_rule list" | SaveAnswer nat bool string "exn + unit"
  | DeleteAnswer fraud_rule "exn + unit"

record 'srv rules_app =
  ra_page :: "'srv rules_page"
  ra_editor :: "(nat \<times> editor) option"
  ra_instances :: nat
  ra_under_way :: "answer list"
  ra_kick :: bool
  ra_shown :: bool

section \<open>The list\<close>

definition start_load :: "env \<Rightarrow> 'srv api \<Rightarrow> 'srv rules_app \<Rightarrow> 'srv rules_app" where
  "start_load ev api a = (case on_world (listRules ev api) ((ra_page a)\<lparr>ur_loading := True\<rparr>) of
     (r, s) \<Rightarrow> a\<lparr>ra_page := s, ra_under_way := ra_under_way a @ [ListAnswer r]\<rparr>)"

fun land_load :: "int \<Rightarrow> exn + fraud_rule list \<Rightarrow> 'srv rules_page \<Rightarrow> 'srv rules_page" where
  "land_load loaded_at (Inr rules) s = s\<lparr>ur_rules := Some rules, ur_error := None, ur_demo := False, ur_loading := False\<rparr>"
| "land_load loaded_at (Inl cause) s = (let msg = message_or cause ''Failed to load rules'' in
     if load_failed_regex msg \<or> network_regex msg
     then s\<lparr>ur_rules := Some (DEMO_RULES loaded_at), ur_demo := True, ur_error := None, ur_loading := False\<rparr>
     else s\<lparr>ur_error := Some msg, ur_loading := False\<rparr>)"

section \<open>Saving and deleting\<close>

definition save_request :: "env \<Rightarrow> 'srv api \<Rightarrow> editor \<Rightarrow> ('srv world, unit) comp" where
  "save_request ev api ed = (case ed_editing ed of
     Some rule \<Rightarrow> bindE (updateRule ev api (fr_rule_id rule) (ed_form ed)) (\<lambda>_. returnE ())
   | None \<Rightarrow> bindE (createRule ev api ((ed_form ed)\<lparr>ri_rule_id := Some (trim (ed_rule_id ed))\<rparr>)) (\<lambda>_. returnE ()))"

definition saved_toast :: "bool \<Rightarrow> string \<Rightarrow> 'srv rules_page \<Rightarrow> 'srv rules_page" where
  "saved_toast editing name s =
     (if editing then snd (show_toast Success ''Rule updated'' (name @ '' saved and hot-reloaded into the decision engine.'') s)
      else snd (show_toast Success ''Rule created'' (name @ '' is now live in the decision engine.'') s))"

text \<open>The handler of a failure: only the instance that sent the request can show the error.\<close>

definition fail_save :: "nat \<Rightarrow> exn \<Rightarrow> 'srv rules_app \<Rightarrow> 'srv rules_app" where
  "fail_save n cause a = (let msg = message_or cause ''Save failed'' in
     a\<lparr>ra_page := snd (show_toast Danger ''Save failed'' msg (ra_page a)),
       ra_editor := (case ra_editor a of None \<Rightarrow> None
         | Some (m, ed) \<Rightarrow> Some (m, if m = n then ed\<lparr>ed_error := Some msg, ed_saving := False\<rparr> else ed))\<rparr>)"

definition save_click :: "env \<Rightarrow> 'srv api \<Rightarrow> 'srv rules_app \<Rightarrow> 'srv rules_app" where
  "save_click ev api a = (case ra_editor a of None \<Rightarrow> a
     | Some (n, ed) \<Rightarrow>
       if save_disabled ed then a
       else let a1 = a\<lparr>ra_editor := Some (n, ed\<lparr>ed_saving := True, ed_error := None\<rparr>)\<rparr> in
         if ed_editing ed = None \<and> trim (ed_rule_id ed) = [] then fail_save n (JsError ''Rule ID is required'') a1
         else case on_world (save_request ev api ed) (ra_page a1) of (r, s) \<Rightarrow>
           a1\<lparr>ra_page := s, ra_under_way := ra_under_way a1
             @ [SaveAnswer n (ed_editing ed \<noteq> None) (ri_name (ed_form ed)) r]\<rparr>)"

definition delete_click :: "env \<Rightarrow> 'srv api \<Rightarrow> 'srv rules_app \<Rightarrow> 'srv rules_app" where
  "delete_click ev api a = (case rp_confirm (ra_page a) of None \<Rightarrow> a
     | Some rule \<Rightarrow> case on_world (deleteRule ev api (fr_rule_id rule)) (ra_page a) of (r, s) \<Rightarrow>
         a\<lparr>ra_page := s, ra_under_way := ra_under_way a @ [DeleteAnswer rule r]\<rparr>)"

section \<open>Answers\<close>

fun land :: "int \<Rightarrow> env \<Rightarrow> 'srv api \<Rightarrow> answer \<Rightarrow> 'srv rules_app \<Rightarrow> 'srv rules_app" where
  "land loaded_at ev api (ListAnswer r) a = a\<lparr>ra_page := land_load loaded_at r (ra_page a)\<rparr>"
| "land loaded_at ev api (SaveAnswer n editing name (Inr u)) a =
     start_load ev api (a\<lparr>ra_page := (saved_toast editing name (ra_page a))\<lparr>rp_editor_open := False\<rparr>, ra_editor := None\<rparr>)"
| "land loaded_at ev api (SaveAnswer n editing name (Inl cause)) a = fail_save n cause a"
| "land loaded_at ev api (DeleteAnswer rule (Inr u)) a =
     (let a1 = start_load ev api (a\<lparr>ra_page := (ra_page a)\<lparr>rp_confirm := None\<rparr>\<rparr>) in
      a1\<lparr>ra_page := snd (show_toast Success ''Rule deleted''
        (fr_name rule @ '' removed and hot-unloaded from the engine.'') (ra_page a1))\<rparr>)"
| "land loaded_at ev api (DeleteAnswer rule (Inl cause)) a =
     a\<lparr>ra_page := snd (show_toast Danger ''Delete failed''
       (''The rule could not be removed '' @ emdash @ '' check engine availability.'') ((ra_page a)\<lparr>rp_confirm := None\<rparr>))\<rparr>"

definition deliver_answer :: "int \<Rightarrow> env \<Rightarrow> 'srv api \<Rightarrow> nat \<Rightarrow> 'srv rules_app \<Rightarrow> 'srv rules_app" where
  "deliver_answer loaded_at ev api k a = (let xs = ra_under_way a in
     if k < length xs then land loaded_at ev api (xs ! k) (a\<lparr>ra_under_way := take k xs @ drop (Suc k) xs\<rparr>) else a)"

section \<open>The page\<close>

text \<open>A click; an instance of the editor is numbered when it opens.\<close>

definition page_click :: "rules_input \<Rightarrow> 'srv rules_app \<Rightarrow> 'srv rules_app" where
  "page_click i a =
     (if ra_editor a \<noteq> None \<and> i \<noteq> CloseEditor \<or> rp_confirm (ra_page a) \<noteq> None \<and> i \<noteq> CancelDelete then a
      else case rules_click i (ra_page a, map_option snd (ra_editor a)) of
        (s, None) \<Rightarrow> a\<lparr>ra_page := s, ra_editor := None\<rparr>
      | (s, Some ed) \<Rightarrow> a\<lparr>ra_page := s, ra_editor := Some (ra_instances a, ed), ra_instances := ra_instances a + 1\<rparr>)"

text \<open>The timer that the effect of the hook sets at mount, and its cleanup.\<close>

definition kick_timer :: "env \<Rightarrow> 'srv api \<Rightarrow> 'srv rules_app \<Rightarrow> 'srv rules_app" where
  "kick_timer ev api a = (if ra_kick a then start_load ev api (a\<lparr>ra_kick := False\<rparr>) else a)"

definition leave_page :: "'srv rules_app \<Rightarrow> 'srv rules_app" where
  "leave_page a = a\<lparr>ra_kick := False, ra_shown := False\<rparr>"

declare kick_timer_def [simp] leave_page_def [simp]

datatype app_input = KickTimer | Reload | Click rules_input | EditInput form_input | SaveClick | DeleteClick
  | Deliver nat | Leave

fun app_step :: "int \<Rightarrow> env \<Rightarrow> 'srv api \<Rightarrow> app_input \<Rightarrow> 'srv rules_app \<Rightarrow> 'srv rules_app" where
  "app_step t ev api KickTimer a = kick_timer ev api a"
| "app_step t ev api Reload a =
     (if ra_shown a \<and> ra_editor a = None \<and> rp_confirm (ra_page a) = None then start_load ev api a else a)"
| "app_step t ev api (Click i) a = (if ra_shown a then page_click i a else a)"
| "app_step t ev api (EditInput i) a =
     (if ra_shown a then a\<lparr>ra_editor := map_option (\<lambda>(n, ed). (n, edit i ed)) (ra_editor a)\<rparr> else a)"
| "app_step t ev api SaveClick a = (if ra_shown a then save_click ev api a else a)"
| "app_step t ev api DeleteClick a = (if ra_shown a then delete_click ev api a else a)"
| "app_step t ev api (Deliver k) a = deliver_answer t ev api k a"
| "app_step t ev api Leave a = leave_page a"

text \<open>Mounted: the list is loading, the timer that starts the first request is set.\<close>

definition app_init :: "'srv world \<Rightarrow> toast_state \<Rightarrow> 'srv rules_app" where
  "app_init w toasts = \<lparr>ra_page = \<lparr>pg_world = w, pg_toasts = toasts, ur_rules = None, ur_error = None, ur_loading = True,
     ur_demo = False, rp_confirm = None, rp_editor_open = False, rp_features = [], rp_search = [], rp_filter = FilterAll\<rparr>,
     ra_editor = None, ra_instances = 0, ra_under_way = [], ra_kick = True, ra_shown = True\<rparr>"

section \<open>What every answer finds\<close>

definition saves_of :: "nat \<Rightarrow> answer list \<Rightarrow> answer list" where
  "saves_of n xs = filter (\<lambda>x. case x of SaveAnswer m _ _ _ \<Rightarrow> m = n | _ \<Rightarrow> False) xs"

definition loads_in :: "answer list \<Rightarrow> bool" where
  "loads_in xs \<longleftrightarrow> list_ex (\<lambda>x. case x of ListAnswer _ \<Rightarrow> True | _ \<Rightarrow> False) xs"

text \<open>
  At most one save of an instance is under way, exactly one while the open instance is saving; the
  list shows its spinner only while a request for it is to come; one overlay at a time.
\<close>

definition app_ok :: "'srv rules_app \<Rightarrow> bool" where
  "app_ok a \<longleftrightarrow> (\<forall>n. length (saves_of n (ra_under_way a)) \<le> 1)
     \<and> (\<forall>n. saves_of n (ra_under_way a) \<noteq> [] \<longrightarrow> n < ra_instances a)
     \<and> (case ra_editor a of None \<Rightarrow> True | Some (n, ed) \<Rightarrow> n < ra_instances a
          \<and> length (saves_of n (ra_under_way a)) = (if ed_saving ed then 1 else 0))
     \<and> (ur_loading (ra_page a) \<longrightarrow> ra_kick a \<or> \<not> ra_shown a \<or> loads_in (ra_under_way a))
     \<and> (ra_editor a \<noteq> None \<longrightarrow> rp_confirm (ra_page a) = None)"

lemma saves_of_simps [simp]:
  "saves_of n [] = []" "saves_of n (xs @ ys) = saves_of n xs @ saves_of n ys"
  "saves_of n (SaveAnswer m e name r # xs) = (if m = n then SaveAnswer m e name r # saves_of n xs else saves_of n xs)"
  "saves_of n (ListAnswer q # xs) = saves_of n xs" "saves_of n (DeleteAnswer rule u # xs) = saves_of n xs"
  by (simp_all add: saves_of_def)

lemma loads_in_simps [simp]:
  "\<not> loads_in []" "loads_in (xs @ ys) \<longleftrightarrow> loads_in xs \<or> loads_in ys" "loads_in (ListAnswer q # xs)"
  "loads_in (SaveAnswer m e name r # xs) \<longleftrightarrow> loads_in xs" "loads_in (DeleteAnswer rule u # xs) \<longleftrightarrow> loads_in xs"
  by (simp_all add: loads_in_def)

lemma show_toast_frame [simp]:
  "ur_loading (snd (show_toast k t m s)) = ur_loading s" "rp_confirm (snd (show_toast k t m s)) = rp_confirm s"
  "rp_editor_open (snd (show_toast k t m s)) = rp_editor_open s"
  by (simp_all add: show_toast_def modifyE_def)

lemma saved_toast_frame [simp]:
  "ur_loading (saved_toast e name s) = ur_loading s" "rp_confirm (saved_toast e name s) = rp_confirm s"
  by (simp_all add: saved_toast_def)

lemma land_load_frame [simp]:
  "\<not> ur_loading (land_load t r s)" "rp_confirm (land_load t r s) = rp_confirm s"
  by (cases r; simp add: Let_def)+

lemma start_load_frame [simp]:
  "ra_editor (start_load ev api a) = ra_editor a" "ra_instances (start_load ev api a) = ra_instances a"
  "ra_kick (start_load ev api a) = ra_kick a" "ra_shown (start_load ev api a) = ra_shown a"
  "saves_of n (ra_under_way (start_load ev api a)) = saves_of n (ra_under_way a)"
  "loads_in (ra_under_way (start_load ev api a))" "rp_confirm (ra_page (start_load ev api a)) = rp_confirm (ra_page a)"
  by (simp_all add: start_load_def on_world_def split: prod.split)

lemma rules_click_frame:
  "ur_loading (fst (rules_click i (s, ed))) = ur_loading s"
  "ed = None \<Longrightarrow> rp_confirm s = None \<Longrightarrow> snd (rules_click i (s, ed)) \<noteq> None \<Longrightarrow> rp_confirm (fst (rules_click i (s, ed))) = None"
  "ed = None \<Longrightarrow> snd (rules_click i (s, ed)) = Some ed' \<Longrightarrow> \<not> ed_saving ed'"
  "rp_confirm s \<noteq> None \<Longrightarrow> snd (rules_click CancelDelete (s, ed)) = ed"
  by (cases i; auto simp: open_editor_def)+

lemma edit_saving [simp]: "ed_saving (edit i ed) = ed_saving ed"
  by (cases i) simp_all

text \<open>The invariant in the handler of a failed save of instance \<open>n\<close>, none of which is under way any more.\<close>

definition app_ok_but :: "nat \<Rightarrow> 'srv rules_app \<Rightarrow> bool" where
  "app_ok_but n a \<longleftrightarrow> (\<forall>m. length (saves_of m (ra_under_way a)) \<le> 1)
     \<and> (\<forall>m. saves_of m (ra_under_way a) \<noteq> [] \<longrightarrow> m < ra_instances a)
     \<and> saves_of n (ra_under_way a) = []
     \<and> (case ra_editor a of None \<Rightarrow> True | Some (m, ed) \<Rightarrow> m < ra_instances a
          \<and> (m \<noteq> n \<longrightarrow> length (saves_of m (ra_under_way a)) = (if ed_saving ed then 1 else 0)))
     \<and> (ur_loading (ra_page a) \<longrightarrow> ra_kick a \<or> \<not> ra_shown a \<or> loads_in (ra_under_way a))
     \<and> (ra_editor a \<noteq> None \<longrightarrow> rp_confirm (ra_page a) = None)"

lemma fail_save_ok: "app_ok_but n a \<Longrightarrow> app_ok (fail_save n cause a)"
  by (cases "ra_editor a") (auto simp: app_ok_def app_ok_but_def fail_save_def Let_def split: if_splits)

lemma start_load_ok: "app_ok (a\<lparr>ra_page := (ra_page a)\<lparr>ur_loading := False\<rparr>\<rparr>) \<Longrightarrow> app_ok (start_load ev api a)"
  by (cases "ra_editor a") (auto simp: app_ok_def)

lemma save_click_ok:
  assumes "app_ok a"
  shows "app_ok (save_click ev api a)"
proof (cases "ra_editor a")
  case (Some p)
  obtain n ed where p: "p = (n, ed)" by (cases p)
  show ?thesis
  proof (cases "save_disabled ed")
    case True
    with assms Some p show ?thesis by (simp add: save_click_def)
  next
    case enabled: False
    then have saving: "\<not> ed_saving ed" by (simp add: save_disabled_def)
    let ?a1 = "a\<lparr>ra_editor := Some (n, ed\<lparr>ed_saving := True, ed_error := None\<rparr>)\<rparr>"
    have none: "saves_of n (ra_under_way a) = []" "n < ra_instances a"
      using assms Some p saving by (auto simp: app_ok_def)
    show ?thesis
    proof (cases "ed_editing ed = None \<and> trim (ed_rule_id ed) = []")
      case True
      have "app_ok_but n ?a1" using assms Some p none by (auto simp: app_ok_def app_ok_but_def)
      with True Some p enabled show ?thesis by (simp add: save_click_def Let_def fail_save_ok)
    next
      case False
      obtain r w where "save_request ev api ed (pg_world (ra_page a)) = (r, w)" by fastforce
      with False Some p enabled show ?thesis using assms none
        by (simp add: save_click_def Let_def on_world_def) (auto simp: app_ok_def)
    qed
  qed
qed (use assms in \<open>simp add: save_click_def\<close>)

lemma delete_click_ok: "app_ok a \<Longrightarrow> app_ok (delete_click ev api a)"
  by (auto simp: delete_click_def app_ok_def on_world_def split: option.split prod.split)

lemma page_click_ok:
  assumes "app_ok a"
  shows "app_ok (page_click i a)"
proof -
  let ?s = "ra_page a"
  obtain s' ed' where c: "rules_click i (?s, map_option snd (ra_editor a)) = (s', ed')" by fastforce
  have l: "ur_loading s' = ur_loading ?s" using rules_click_frame(1) [where i = i and s = ?s and ed = "map_option snd (ra_editor a)"] c by simp
  show ?thesis
  proof (cases ed')
    case None
    with c l assms show ?thesis by (auto simp: page_click_def app_ok_def)
  next
    case (Some ed)
    show ?thesis
    proof (cases "ra_editor a \<noteq> None \<and> i \<noteq> CloseEditor \<or> rp_confirm ?s \<noteq> None \<and> i \<noteq> CancelDelete")
      case True
      with assms show ?thesis by (simp add: page_click_def)
    next
      case False
      then have e: "ra_editor a = None"
        using c Some by (cases "ra_editor a") auto
      moreover have r: "rp_confirm ?s = None"
        using False c Some e by (cases "rp_confirm ?s") auto
      ultimately have "\<not> ed_saving ed" "rp_confirm s' = None"
        using rules_click_frame(2,3) [where s = ?s and i = i and ed = None] c Some by auto
      moreover have "saves_of (ra_instances a) (ra_under_way a) = []" using assms by (auto simp: app_ok_def)
      ultimately show ?thesis using False c Some l assms e
        by (auto simp: page_click_def app_ok_def less_Suc_eq)
    qed
  qed
qed

text \<open>Taking an answer out of those under way.\<close>

lemma saves_of_taken:
  assumes "k < length xs"
  shows "length (saves_of n xs) = length (saves_of n (take k xs @ drop (Suc k) xs))
    + (case xs ! k of SaveAnswer m _ _ _ \<Rightarrow> if m = n then 1 else 0 | _ \<Rightarrow> 0)"
proof -
  have "length (saves_of n xs) = length (saves_of n (take k xs @ xs ! k # drop (Suc k) xs))"
    using id_take_nth_drop [OF assms] by simp
  then show ?thesis by (cases "xs ! k") simp_all
qed

lemma loads_in_taken:
  "k < length xs \<Longrightarrow> loads_in xs \<longleftrightarrow> loads_in (take k xs @ drop (Suc k) xs) \<or> (\<exists>r. xs ! k = ListAnswer r)"
  using id_take_nth_drop [of k xs] by (cases "xs ! k") (metis loads_in_simps(2-5) answer.distinct)+

text \<open>The invariant depends on the answers under way only by their counts.\<close>

lemma app_ok_counts:
  assumes "app_ok a" "\<And>n. length (saves_of n xs) = length (saves_of n (ra_under_way a))"
    and "ur_loading s \<longrightarrow> ra_kick a \<or> \<not> ra_shown a \<or> loads_in xs"
    and "rp_confirm s = rp_confirm (ra_page a) \<or> rp_confirm s = None"
  shows "app_ok (a\<lparr>ra_under_way := xs, ra_page := s\<rparr>)"
proof -
  have "saves_of n xs = [] \<longleftrightarrow> saves_of n (ra_under_way a) = []" for n using assms(2) [of n] by (metis length_0_conv)
  with assms show ?thesis by (cases "ra_editor a") (auto simp: app_ok_def)
qed

lemma app_ok_but_taken:
  assumes "app_ok a" "\<And>m. length (saves_of m (ra_under_way a)) = length (saves_of m xs) + (if m = n then 1 else 0)"
    and "ur_loading (ra_page a) \<longrightarrow> ra_kick a \<or> \<not> ra_shown a \<or> loads_in xs"
  shows "app_ok_but n (a\<lparr>ra_under_way := xs\<rparr>)"
proof -
  have one: "length (saves_of m (ra_under_way a)) \<le> 1" for m using assms(1) by (simp add: app_ok_def)
  have "saves_of n xs = []" using one [of n] assms(2) [of n] by simp
  moreover have le: "length (saves_of m xs) \<le> length (saves_of m (ra_under_way a))" for m using assms(2) [of m] by simp
  then have "length (saves_of m xs) \<le> 1" for m using one [of m] le [of m] by linarith
  moreover have "saves_of m xs \<noteq> [] \<longrightarrow> saves_of m (ra_under_way a) \<noteq> []" for m
    using le [of m] by (metis le_zero_eq length_0_conv)
  ultimately show ?thesis using assms by (cases "ra_editor a") (auto simp: app_ok_def app_ok_but_def)
qed

lemma land_save_ok:
  assumes "app_ok_but n a"
  shows "app_ok (land t ev api (SaveAnswer n editing name r) a)"
proof (cases r)
  case (Inl e)
  with assms show ?thesis by (simp add: fail_save_ok)
next
  case (Inr u)
  with assms show ?thesis by (auto simp: app_ok_but_def app_ok_def)
qed

lemma deliver_ok:
  assumes "app_ok a"
  shows "app_ok (deliver_answer t ev api k a)"
proof (cases "k < length (ra_under_way a)")
  case True
  define xs where "xs = take k (ra_under_way a) @ drop (Suc k) (ra_under_way a)"
  note taken = saves_of_taken [OF True, folded xs_def] loads_in_taken [OF True, folded xs_def]
  have load: "ur_loading (ra_page a) \<longrightarrow> ra_kick a \<or> \<not> ra_shown a \<or> loads_in (ra_under_way a)"
    using assms by (simp add: app_ok_def)
  have d: "deliver_answer t ev api k a = land t ev api (ra_under_way a ! k) (a\<lparr>ra_under_way := xs\<rparr>)"
    using True by (simp add: deliver_answer_def xs_def Let_def)
  show ?thesis
  proof (cases "ra_under_way a ! k")
    case (ListAnswer r)
    have "app_ok (a\<lparr>ra_under_way := xs, ra_page := land_load t r (ra_page a)\<rparr>)"
      by (rule app_ok_counts [OF assms]) (use taken ListAnswer in simp_all)
    with ListAnswer show ?thesis by (simp add: d)
  next
    case (DeleteAnswer rule r)
    have ok: "app_ok (a\<lparr>ra_under_way := ys, ra_page := s\<rparr>)"
      if "\<And>n. saves_of n ys = saves_of n xs" "rp_confirm s = None" "ur_loading s \<longrightarrow> ur_loading (ra_page a) \<and> ys = xs \<or> loads_in ys" for s ys
      by (rule app_ok_counts [OF assms]) (use taken load DeleteAnswer that in auto)
    show ?thesis
    proof (cases r)
      case (Inl e)
      with DeleteAnswer ok [of xs] show ?thesis by (simp add: d)
    next
      case (Inr u)
      with DeleteAnswer show ?thesis by (simp add: d Let_def start_load_def on_world_def ok split: prod.split)
    qed
  next
    case (SaveAnswer n editing name r)
    have "app_ok_but n (a\<lparr>ra_under_way := xs\<rparr>)"
      by (rule app_ok_but_taken [OF assms]) (use taken load SaveAnswer in \<open>auto split: if_splits\<close>)
    then show ?thesis unfolding d SaveAnswer by (rule land_save_ok)
  qed
qed (use assms in \<open>simp add: deliver_answer_def Let_def\<close>)

interpretation rules_app: machine "app_step t ev api" app_ok for t :: int and ev :: env and api :: "'srv api"
proof
  fix a :: "'srv rules_app" and i
  assume ok: "app_ok a"
  have load: "app_ok (start_load ev api (a\<lparr>ra_kick := k\<rparr>))" for k
    using ok by (cases "ra_editor a") (auto simp: app_ok_def)
  then have load': "app_ok (start_load ev api a)" by (metis rules_app.surjective rules_app.update_convs(5))
  show "app_ok (app_step t ev api i a)"
  proof (cases i)
    case (EditInput fi)
    with ok show ?thesis by (cases "ra_editor a") (auto simp: app_ok_def)
  next
    case Leave
    with ok show ?thesis by (cases "ra_editor a") (auto simp: app_ok_def)
  qed (use ok load load' in \<open>simp_all add: save_click_ok delete_click_ok page_click_ok deliver_ok\<close>)
qed

lemma app_init_ok [simp]: "app_ok (app_init w toasts)"
  by (simp add: app_ok_def app_init_def)

section \<open>Nothing stays busy\<close>

text \<open>
  C34: whatever the operator does while answers are outstanding and in whatever order they arrive, a
  form is disabled exactly while its one save is under way, so that no form is sent twice and no
  button stays disabled; and once all answers have arrived on a page that is still shown, neither
  the spinner turns nor is a form disabled.
\<close>

theorem rules_page_settles:
  fixes w :: "'srv world" and toasts t ev api inputs
  defines "a \<equiv> fold (app_step t ev api) inputs (app_init w toasts)"
  shows "(\<forall>n. length (saves_of n (ra_under_way a)) \<le> 1)
    \<and> (\<forall>n ed. ra_editor a = Some (n, ed) \<longrightarrow> (ed_saving ed \<longleftrightarrow> saves_of n (ra_under_way a) \<noteq> []))
    \<and> (ra_under_way a = [] \<and> ra_shown a \<and> \<not> ra_kick a \<longrightarrow>
         \<not> ur_loading (ra_page a) \<and> (\<forall>n ed. ra_editor a = Some (n, ed) \<longrightarrow> \<not> ed_saving ed))"
proof -
  have "app_ok a" unfolding a_def by (intro rules_app.run) simp
  then show ?thesis by (auto simp: app_ok_def split: if_splits)
qed

theorem rules_page_settles_witness:
  "\<not> ur_loading (ra_page (fold (app_step 0 local_env empty_api) [KickTimer, Deliver 0] (app_init blank_world toast_init)))"
  using rules_page_settles [of 0 local_env empty_api "[KickTimer, Deliver 0]" blank_world toast_init]
  by (simp add: app_init_def start_load_def on_world_def deliver_answer_def split: prod.splits)

section \<open>Undisturbed runs\<close>

lemma save_rule_split:
  assumes "\<not> (ed_editing ed = None \<and> trim (ed_rule_id ed) = [])"
  shows "save_rule ev api ed s = (case on_world (save_request ev api ed) s of
     (Inl e, s') \<Rightarrow> (Inl e, s')
   | (Inr _, s') \<Rightarrow> (Inr (), saved_toast (ed_editing ed \<noteq> None) (ri_name (ed_form ed)) s'))"
  using assms by (auto simp: save_rule_def save_request_def saved_toast_def comp_defs on_world_def show_toast_def Let_def
      split: option.split prod.split sum.split)

lemma land_load_eq:
  "land_load t (fst (listRules ev api (pg_world s))) (s\<lparr>ur_loading := True, pg_world := snd (listRules ev api (pg_world s))\<rparr>)
   = snd (rules_refresh t ev api s)"
  by (cases "fst (listRules ev api (pg_world s))"; cases "listRules ev api (pg_world s)")
    (simp_all add: rules_refresh_eq demo_worthy_def Let_def)

lemma load_run:
  assumes "ra_under_way a = []"
  shows "deliver_answer t ev api 0 (start_load ev api a) = a\<lparr>ra_page := snd (rules_refresh t ev api (ra_page a))\<rparr>"
  using assms land_load_eq [of t ev api "ra_page a"]
  by (cases "listRules ev api (pg_world (ra_page a))") (simp add: start_load_def on_world_def deliver_answer_def)

lemma click_shown: "ra_shown (page_click i a) = ra_shown a" "ra_shown (save_click ev api a) = ra_shown a"
  by (auto simp: page_click_def save_click_def fail_save_def Let_def split: option.split prod.split)

lemma save_click_sends:
  assumes "ra_editor a = Some (n, ed)" "\<not> save_disabled ed" "\<not> (ed_editing ed = None \<and> trim (ed_rule_id ed) = [])"
    and "save_request ev api ed (pg_world (ra_page a)) = (r, w)"
  shows "save_click ev api a = a\<lparr>ra_page := (ra_page a)\<lparr>pg_world := w\<rparr>,
      ra_editor := Some (n, ed\<lparr>ed_saving := True, ed_error := None\<rparr>),
      ra_under_way := ra_under_way a @ [SaveAnswer n (ed_editing ed \<noteq> None) (ri_name (ed_form ed)) r]\<rparr>"
  using assms by (auto simp: save_click_def on_world_def Let_def)

lemma save_run:
  assumes "ra_shown a" "ra_under_way a = []" "ra_editor a = Some (n, ed)" "\<not> save_disabled ed"
  shows "\<exists>ed'. fst (save t ev api ed (ra_page a)) = Inr ed'
    \<and> fold (app_step t ev api) [SaveClick, Deliver 0, Deliver 0] a
      = a\<lparr>ra_page := snd (save t ev api ed (ra_page a)),
          ra_editor := (if ed_error ed' = None then None else Some (n, ed'))\<rparr>"
proof (cases "ed_editing ed = None \<and> trim (ed_rule_id ed) = []")
  case True
  have "save_rule ev api ed (ra_page a) = (Inl (JsError ''Rule ID is required''), ra_page a)"
    using True by (simp add: save_rule_def throwE_def Let_def)
  with True assms show ?thesis
    by (simp add: save_eq save_click_def fail_save_def deliver_answer_def Let_def)
next
  case False
  obtain r w where r: "save_request ev api ed (pg_world (ra_page a)) = (r, w)" by fastforce
  let ?s = "(ra_page a)\<lparr>pg_world := w\<rparr>" and ?ed = "ed\<lparr>ed_saving := True, ed_error := None\<rparr>"
  have 1: "save_click ev api a = a\<lparr>ra_page := ?s, ra_editor := Some (n, ?ed),
      ra_under_way := [SaveAnswer n (ed_editing ed \<noteq> None) (ri_name (ed_form ed)) r]\<rparr>"
    using save_click_sends [OF assms(3,4) False r] assms(2) by simp
  have 2: "save_rule ev api ed (ra_page a) = (case r of Inl e \<Rightarrow> (Inl e, ?s)
     | Inr _ \<Rightarrow> (Inr (), saved_toast (ed_editing ed \<noteq> None) (ri_name (ed_form ed)) ?s))"
    using r by (simp add: save_rule_split [OF False] on_world_def split: sum.split)
  show ?thesis
  proof (cases r)
    case (Inl e)
    with assms 1 2 show ?thesis by (simp add: save_eq fail_save_def deliver_answer_def Let_def)
  next
    case (Inr u)
    let ?b = "a\<lparr>ra_page := (saved_toast (ed_editing ed \<noteq> None) (ri_name (ed_form ed)) ?s)\<lparr>rp_editor_open := False\<rparr>, ra_editor := None\<rparr>"
    have "deliver_answer t ev api 0 (save_click ev api a) = start_load ev api ?b"
      unfolding 1 using assms(2) Inr by (cases a) (simp add: deliver_answer_def)
    with load_run [of ?b t ev api] assms 1 2 Inr show ?thesis
      by (simp add: save_eq onSaved_def bindE_def modifyE_def rules_refresh_eq split: prod.split sum.split)
  qed
qed

lemma delete_run:
  assumes "ra_shown a" "ra_under_way a = []"
  shows "fold (app_step t ev api) [DeleteClick, Deliver 0, Deliver 0] a = a\<lparr>ra_page := snd (remove_rule t ev api (ra_page a))\<rparr>"
proof (cases "rp_confirm (ra_page a)")
  case None
  with assms show ?thesis by (simp add: delete_click_def deliver_answer_def remove_rule_def bindE_def readE_def returnE_def)
next
  case (Some rule)
  obtain r w where r: "deleteRule ev api (fr_rule_id rule) (pg_world (ra_page a)) = (r, w)" by fastforce
  let ?s = "(ra_page a)\<lparr>pg_world := w\<rparr>"
  obtain q w' where q: "listRules ev api w = (q, w')" by fastforce
  show ?thesis
  proof (cases r)
    case (Inl e)
    with assms Some r show ?thesis
      by (simp add: delete_click_def deliver_answer_def on_world_def remove_rule_def comp_defs show_toast_def Let_def)
  next
    case (Inr u)
    with assms Some r q show ?thesis
      by (cases q) (simp_all add: delete_click_def deliver_answer_def on_world_def remove_rule_def comp_defs show_toast_def
          start_load_def rules_refresh_eq demo_worthy_def Let_def)
  qed
qed

text \<open>
  C35: when the operator waits for every answer, the page does what its sequential operations say: a
  reload, a save and a deletion leave page, notifications, server and editor as \<open>rules_refresh\<close>,
  \<open>save\<close> and \<open>remove_rule\<close> do.
\<close>

theorem rules_page_refines:
  fixes a :: "'srv rules_app" and t ev api
  assumes "ra_shown a" "ra_under_way a = []"
  shows "(ra_editor a = None \<and> rp_confirm (ra_page a) = None \<longrightarrow>
      fold (app_step t ev api) [Reload, Deliver 0] a = a\<lparr>ra_page := snd (rules_refresh t ev api (ra_page a))\<rparr>)
    \<and> (\<forall>n ed. ra_editor a = Some (n, ed) \<and> \<not> save_disabled ed \<longrightarrow>
      (\<exists>ed'. fst (save t ev api ed (ra_page a)) = Inr ed'
        \<and> fold (app_step t ev api) [SaveClick, Deliver 0, Deliver 0] a
          = a\<lparr>ra_page := snd (save t ev api ed (ra_page a)),
              ra_editor := (if ed_error ed' = None then None else Some (n, ed'))\<rparr>))
    \<and> fold (app_step t ev api) [DeleteClick, Deliver 0, Deliver 0] a
      = a\<lparr>ra_page := snd (remove_rule t ev api (ra_page a))\<rparr>"
  using save_run [OF assms, where t = t and ev = ev and api = api] delete_run [OF assms, of t ev api]
    load_run [OF assms(2), of t ev api] assms(1) by auto

theorem rules_page_refines_witness:
  "fold (app_step 0 local_env empty_api) [DeleteClick, Deliver 0, Deliver 0] (app_init blank_world toast_init)
   = (app_init blank_world toast_init)\<lparr>ra_page := snd (remove_rule 0 local_env empty_api (ra_page (app_init blank_world toast_init)))\<rparr>"
  using rules_page_refines [of "app_init blank_world toast_init" 0 local_env empty_api] by (simp add: app_init_def)

section \<open>What overtakes what\<close>

lemma edit_inputs:
  assumes "ra_shown a"
  shows "fold (app_step t ev api) (map EditInput es) (a\<lparr>ra_editor := Some (n, ed)\<rparr>) = a\<lparr>ra_editor := Some (n, fold edit es ed)\<rparr>"
  using assms by (induction es arbitrary: ed) simp_all

text \<open>A save that was sent, and the clicks that close its editor and open an empty one.\<close>

lemma save_then_reopen:
  assumes "ra_shown a" "rp_confirm (ra_page a) = None" "ra_editor a = Some (n, ed)" "\<not> save_disabled ed"
    and "\<not> (ed_editing ed = None \<and> trim (ed_rule_id ed) = [])"
    and "save_request ev api ed (pg_world (ra_page a)) = (r, w)"
  shows "fold (app_step t ev api) [SaveClick, Click CloseEditor, Click NewRule] a
    = a\<lparr>ra_page := (ra_page a)\<lparr>pg_world := w, rp_editor_open := True\<rparr>, ra_instances := ra_instances a + 1,
        ra_under_way := ra_under_way a @ [SaveAnswer n (ed_editing ed \<noteq> None) (ri_name (ed_form ed)) r],
        ra_editor := Some (ra_instances a, open_editor None)\<rparr>"
proof -
  let ?ans = "SaveAnswer n (ed_editing ed \<noteq> None) (ri_name (ed_form ed)) r"
  have "fold (app_step t ev api) [SaveClick, Click CloseEditor, Click NewRule] a
    = page_click NewRule (page_click CloseEditor (save_click ev api a))"
    using assms(1) by (simp add: click_shown)
  also have "page_click CloseEditor (save_click ev api a) = a\<lparr>ra_page := (ra_page a)\<lparr>pg_world := w, rp_editor_open := False\<rparr>,
      ra_under_way := ra_under_way a @ [?ans], ra_editor := None\<rparr>"
    unfolding save_click_sends [OF assms(3-6)] using assms(2) by (cases a) (simp add: page_click_def)
  finally show ?thesis using assms(2) by (cases a) (simp add: page_click_def)
qed

text \<open>
  C36: the success of a save closes whatever editor is open when it arrives: when the operator closes
  the editor while its save is under way, opens a new one and types into it, the late answer closes
  that one and drops its form, and neither notification nor page says so.
\<close>

theorem late_save_drops_new_form:
  fixes a :: "'srv rules_app" and edits t ev api
  assumes "ra_shown a" "rp_confirm (ra_page a) = None" "ra_editor a = Some (n, ed)" "\<not> save_disabled ed"
    and "\<not> (ed_editing ed = None \<and> trim (ed_rule_id ed) = [])"
    and "fst (save_request ev api ed (pg_world (ra_page a))) = Inr ()"
  defines "b \<equiv> fold (app_step t ev api) ([SaveClick, Click CloseEditor, Click NewRule] @ map EditInput edits) a"
  defines "c \<equiv> app_step t ev api (Deliver (length (ra_under_way a))) b"
  shows "ra_editor b = Some (ra_instances a, fold edit edits (open_editor None))
    \<and> ra_editor c = None \<and> ur_error (ra_page c) = ur_error (ra_page a)
    \<and> map (ti_title \<circ> t_input) (take_last 1 (ts_toasts (pg_toasts (ra_page c))))
      = [if ed_editing ed = None then ''Rule created'' else ''Rule updated'']"
proof -
  obtain w where w: "save_request ev api ed (pg_world (ra_page a)) = (Inr (), w)" using assms(6) by (metis prod.collapse)
  let ?ans = "SaveAnswer n (ed_editing ed \<noteq> None) (ri_name (ed_form ed)) (Inr ())"
  let ?b = "a\<lparr>ra_page := (ra_page a)\<lparr>pg_world := w, rp_editor_open := True\<rparr>,
      ra_instances := ra_instances a + 1, ra_under_way := ra_under_way a @ [?ans]\<rparr>"
  have b: "b = ?b\<lparr>ra_editor := Some (ra_instances a, fold edit edits (open_editor None))\<rparr>"
    unfolding b_def fold_append o_apply save_then_reopen [OF assms(1-5) w] using assms(1) by (intro edit_inputs) simp
  have c: "c = start_load ev api (?b\<lparr>ra_under_way := ra_under_way a,
      ra_page := (saved_toast (ed_editing ed \<noteq> None) (ri_name (ed_form ed)) (ra_page ?b))\<lparr>rp_editor_open := False\<rparr>,
      ra_editor := None\<rparr>)"
    by (simp add: c_def b deliver_answer_def Let_def)
  show ?thesis unfolding c b
    by (auto simp: start_load_def on_world_def saved_toast_def show_toast_def modifyE_def push_toast_def take_last_def Let_def
        split: prod.split)
qed

definition saved_rule :: fraud_rule where
  "saved_rule = hd (DEMO_RULES 0)"

text \<open>A rule engine that accepts every write and answers every deletion but the first with 404.\<close>

definition lenient_api :: "bool api" where
  "lenient_api = \<lparr>ep_refresh = not_found, ep_login = not_found, ep_register = not_found, ep_public_key = not_found,
     ep_rules = not_found, ep_features = not_found,
     ep_rule = (\<lambda>rq gone. (Inr \<lparr>rs_status = (if rq_method rq = ''DELETE'' \<and> gone then 404 else 200),
       rs_json = Inr (RuleReply saved_rule)\<rparr>, gone \<or> rq_method rq = ''DELETE'')),
     ep_me = not_found, ep_fraud_rate = not_found, ep_geo = not_found, ep_top_threats = not_found,
     ep_overview = not_found, ep_events = not_found\<rparr>"

definition lenient_world :: "bool world" where
  "lenient_world = \<lparr>w_storage = Map.empty, w_server = False, w_sent = [], w_location = []\<rparr>"

theorem late_save_drops_new_form_witness:
  "ra_editor (fold (app_step 0 local_env lenient_api)
     ([Click (EditRule saved_rule), SaveClick, Click CloseEditor, Click NewRule, EditInput (SetName ''Night shift''), Deliver 0])
     (app_init lenient_world toast_init)) = None"
proof -
  let ?a = "app_step 0 local_env lenient_api (Click (EditRule saved_rule)) (app_init lenient_world toast_init)"
  have n: "ri_name (initial_form (Some saved_rule)) \<noteq> []" "ri_expression (initial_form (Some saved_rule)) \<noteq> []"
    by (simp_all add: initial_form_def saved_rule_def DEMO_RULES_def demo_rule_def)
  have a: "ra_shown ?a" "rp_confirm (ra_page ?a) = None" "ra_editor ?a = Some (0, open_editor (Some saved_rule))"
    "pg_world (ra_page ?a) = lenient_world" "ra_under_way ?a = []"
    by (simp_all add: app_init_def page_click_def)
  have e: "\<not> save_disabled (open_editor (Some saved_rule))" "ed_editing (open_editor (Some saved_rule)) \<noteq> None"
    using n by (simp_all add: save_disabled_def open_editor_def)
  have "fst (save_request local_env lenient_api (open_editor (Some saved_rule)) lenient_world) = Inr ()"
    by (simp add: save_request_def open_editor_def updateRule_def lenient_api_def comp_defs apiFetch_def send_auth_eq
        do_fetch_world json_request_def with_auth_def ok_def json_of_def)
  then have s: "fst (save_request local_env lenient_api (open_editor (Some saved_rule)) (pg_world (ra_page ?a))) = Inr ()"
    unfolding a(4) .
  have "\<not> (ed_editing (open_editor (Some saved_rule)) = None \<and> trim (ed_rule_id (open_editor (Some saved_rule))) = [])"
    using e(2) by simp
  from late_save_drops_new_form [OF a(1-3) e(1) this s, of 0 "[SetName ''Night shift'']"] show ?thesis
    by (simp add: a(5) del: app_step.simps)
qed

text \<open>
  The button that confirms a deletion is not disabled while its request is under way: two clicks send two
  requests, and when the server answers the second that the rule is gone, the operator reads first
  that the rule was deleted and then that the deletion failed.
\<close>

lemma double_delete_reports_failure:
  fixes a :: "'srv rules_app" and t ev api
  assumes "ra_shown a" "rp_confirm (ra_page a) = Some rule"
    and "deleteRule ev api (fr_rule_id rule) (pg_world (ra_page a)) = (Inr (), w1)"
    and "fst (deleteRule ev api (fr_rule_id rule) w1) = Inl e"
  defines "k \<equiv> length (ra_under_way a)"
  defines "b \<equiv> fold (app_step t ev api) [DeleteClick, DeleteClick, Deliver k, Deliver k] a"
  shows "map (ti_title \<circ> t_input) (take_last 2 (ts_toasts (pg_toasts (ra_page b)))) = [''Rule deleted'', ''Delete failed'']
    \<and> rp_confirm (ra_page b) = None"
proof -
  obtain w2 where w2: "deleteRule ev api (fr_rule_id rule) w1 = (Inl e, w2)" using assms(4) by (metis prod.collapse)
  let ?s = "ra_page a" and ?xs = "ra_under_way a"
  obtain q w3 where q: "listRules ev api w2 = (q, w3)" by fastforce
  have "fold (app_step t ev api) [DeleteClick, DeleteClick] a = a\<lparr>ra_page := ?s\<lparr>pg_world := w2\<rparr>,
      ra_under_way := ?xs @ [DeleteAnswer rule (Inr ()), DeleteAnswer rule (Inl e)]\<rparr>"
    using assms(1-3) w2 by (simp add: delete_click_def on_world_def)
  then show ?thesis using q
    by (simp add: b_def k_def deliver_answer_def nth_append start_load_def on_world_def show_toast_def modifyE_def push_toast_def
        take_last_def Let_def)
qed

lemma double_delete_reports_failure_witness:
  "map (ti_title \<circ> t_input) (take_last 2 (ts_toasts (pg_toasts (ra_page
     (fold (app_step 0 local_env lenient_api) [Click (AskDelete saved_rule), DeleteClick, DeleteClick, Deliver 0, Deliver 0]
       (app_init lenient_world toast_init)))))) = [''Rule deleted'', ''Delete failed'']"
proof -
  let ?a = "app_step 0 local_env lenient_api (Click (AskDelete saved_rule)) (app_init lenient_world toast_init)"
  have a: "ra_shown ?a" "rp_confirm (ra_page ?a) = Some saved_rule" "pg_world (ra_page ?a) = lenient_world" "ra_under_way ?a = []"
    by (simp_all add: app_init_def page_click_def)
  obtain w1 e where d: "deleteRule local_env lenient_api (fr_rule_id saved_rule) lenient_world = (Inr (), w1)"
    "fst (deleteRule local_env lenient_api (fr_rule_id saved_rule) w1) = Inl e"
    by (simp add: deleteRule_def lenient_api_def lenient_world_def comp_defs apiFetch_def send_auth_eq
        do_fetch_world get_request_def with_auth_def ok_def)
  have "deleteRule local_env lenient_api (fr_rule_id saved_rule) (pg_world (ra_page ?a)) = (Inr (), w1)"
    unfolding a(3) by (rule d(1))
  from double_delete_reports_failure [OF a(1,2) this d(2), of 0] show ?thesis
    unfolding a(4) by (simp del: app_step.simps)
qed

end
