(* ===== verification/Web_Socket.thy ===== *)
theory Web_Socket
  imports Prelude
begin

text \<open>
  \<open>hooks/useWebSocket.ts\<close> as a state machine. Every run of the effect is a generation: its closure
  owns the flag \<open>cancelled\<close> and the variable \<open>retryTimer\<close>; the sockets it creates carry its number.
  A generation is cancelled when it is no longer the current one. Socket statuses follow the
  WebSocket interface: \<open>close()\<close> moves a socket to closing, and its \<open>close\<close> event comes later; a
  socket that is not open delivers no message.

  The invariant \<open>ws_ok\<close> is proved for every reachable state by rule induction.
\<close>

section \<open>Frames\<close>

text \<open>
  What \<open>JSON.parse\<close> can give: nothing (a syntax error), \<open>null\<close>, a value without the properties of
  an envelope, or an object with \<open>type?\<close> and \<open>data?\<close> (which may be null) that is also readable as
  a plain message.
\<close>

datatype 'd frame = Malformed | NullFrame | Plain 'd
  | EnvelopeFrame "string option" "'d option option" 'd

text \<open>The value passed to \<open>setData\<close>, if the handler gets that far.\<close>

fun frame_data :: "'d frame \<Rightarrow> 'd option option" where
  "frame_data Malformed = None"
| "frame_data NullFrame = None"
| "frame_data (Plain d) = Some (Some d)"
| "frame_data (EnvelopeFrame ty dat raw) =
     (case dat of Some v \<Rightarrow> if truthy ty then Some v else Some (Some raw) | None \<Rightarrow> Some (Some raw))"

section \<open>The hook's state\<close>

datatype status = Connecting | Open | Closing | Closed

record socket =
  so_gen :: nat
  so_url :: string
  so_status :: status

record 'd hook =
  h_data :: "'d option"
  h_connected :: bool
  h_sockets :: "socket list"
  h_ref :: "nat option"
  h_retry :: nat
  h_gen :: nat
  h_url :: "string option"
  h_timer :: "nat option"

definition hook_init :: "'d hook" where
  "hook_init = \<lparr>h_data = None, h_connected = False, h_sockets = [], h_ref = None, h_retry = 0,
     h_gen = 0, h_url = None, h_timer = None\<rparr>"

definition set_status :: "nat \<Rightarrow> status \<Rightarrow> 'd hook \<Rightarrow> 'd hook" where
  "set_status i st h = h\<lparr>h_sockets := (h_sockets h)[i := (h_sockets h ! i)\<lparr>so_status := st\<rparr>]\<rparr>"

text \<open>\<open>socket.close()\<close>: without effect on a socket that is closing or closed.\<close>

definition close_socket :: "nat \<Rightarrow> 'd hook \<Rightarrow> 'd hook" where
  "close_socket i h = (if so_status (h_sockets h ! i) \<in> {Connecting, Open} then set_status i Closing h else h)"

definition connect :: "string \<Rightarrow> 'd hook \<Rightarrow> 'd hook" where
  "connect url h = h\<lparr>h_sockets := h_sockets h @ [\<lparr>so_gen = h_gen h, so_url = url, so_status = Connecting\<rparr>],
     h_ref := Some (length (h_sockets h))\<rparr>"

definition onopen :: "nat \<Rightarrow> 'd hook \<Rightarrow> 'd hook" where
  "onopen i h = (set_status i Open h)\<lparr>h_retry := 0, h_connected := True\<rparr>"

definition onmessage :: "'d frame \<Rightarrow> 'd hook \<Rightarrow> 'd hook" where
  "onmessage f h = (case frame_data f of None \<Rightarrow> h | Some d \<Rightarrow> h\<lparr>h_data := d\<rparr>)"

definition retry_delay :: "nat \<Rightarrow> nat" where
  "retry_delay n = min 30000 (500 * 2 ^ n)"

definition onclose :: "nat \<Rightarrow> 'd hook \<Rightarrow> 'd hook" where
  "onclose i h = (let h' = (set_status i Closed h)\<lparr>h_connected := False\<rparr> in
     if so_gen (h_sockets h ! i) = h_gen h \<and> h_url h \<noteq> None
     then h'\<lparr>h_timer := Some (retry_delay (h_retry h)), h_retry := h_retry h + 1\<rparr>
     else h')"

text \<open>The cleanup of an effect, and the effect for a new URL.\<close>

definition cleanup :: "'d hook \<Rightarrow> 'd hook" where
  "cleanup h = (if h_url h = None then h
     else (case h_ref h of None \<Rightarrow> h | Some i \<Rightarrow> close_socket i h)
       \<lparr>h_timer := None, h_ref := None, h_url := None\<rparr>)"

definition run_effect :: "string option \<Rightarrow> 'd hook \<Rightarrow> 'd hook" where
  "run_effect url h = (if \<not> truthy url then h
     else connect (the url) (h\<lparr>h_gen := h_gen h + 1, h_url := url\<rparr>))"

section \<open>Steps\<close>

inductive ws_step :: "'d hook \<Rightarrow> 'd hook \<Rightarrow> bool" where
  Url: "ws_step h (run_effect url (cleanup h))"
| Opens: "i < length (h_sockets h) \<Longrightarrow> so_status (h_sockets h ! i) = Connecting \<Longrightarrow> ws_step h (onopen i h)"
| Message: "i < length (h_sockets h) \<Longrightarrow> so_status (h_sockets h ! i) = Open \<Longrightarrow> ws_step h (onmessage f h)"
| Errors: "i < length (h_sockets h) \<Longrightarrow> so_status (h_sockets h ! i) \<noteq> Closed \<Longrightarrow> ws_step h (close_socket i h)"
| Closes: "i < length (h_sockets h) \<Longrightarrow> so_status (h_sockets h ! i) \<noteq> Closed \<Longrightarrow> ws_step h (onclose i h)"
| Retries: "h_timer h = Some d \<Longrightarrow> h_url h = Some url \<Longrightarrow> ws_step h (connect url (h\<lparr>h_timer := None\<rparr>))"
| Unmounts: "ws_step h (cleanup h)"

inductive ws_reach :: "'d hook \<Rightarrow> bool" where
  Start: "ws_reach hook_init"
| Step: "ws_reach h \<Longrightarrow> ws_step h h' \<Longrightarrow> ws_reach h'"

inductive_cases ws_step_cases: "ws_step h h'"

section \<open>The invariant\<close>

text \<open>The sockets of the current generation that are not closed yet.\<close>

definition live :: "'d hook \<Rightarrow> nat \<Rightarrow> bool" where
  "live h i \<longleftrightarrow> i < length (h_sockets h) \<and> so_gen (h_sockets h ! i) = h_gen h
     \<and> so_status (h_sockets h ! i) \<noteq> Closed"

definition gens_ok :: "'d hook \<Rightarrow> bool" where
  "gens_ok h \<longleftrightarrow> (\<forall>i < length (h_sockets h). so_gen (h_sockets h ! i) \<le> h_gen h)"

text \<open>Only the current effect has sockets that are connecting or open.\<close>

definition owned_ok :: "'d hook \<Rightarrow> bool" where
  "owned_ok h \<longleftrightarrow> (\<forall>i < length (h_sockets h). so_status (h_sockets h ! i) \<in> {Connecting, Open}
     \<longrightarrow> h_url h \<noteq> None \<and> so_gen (h_sockets h ! i) = h_gen h)"

text \<open>It has exactly one live socket and no timer, or a timer and no live socket.\<close>

definition busy :: "'d hook \<Rightarrow> bool" where
  "busy h \<longleftrightarrow> h_timer h = None \<and> (\<exists>i. h_ref h = Some i \<and> live h i \<and> (\<forall>j. live h j \<longrightarrow> j = i))"

definition resting :: "'d hook \<Rightarrow> bool" where
  "resting h \<longleftrightarrow> (\<exists>d. h_timer h = Some d \<and> 500 \<le> d \<and> d \<le> 30000) \<and> (\<forall>j. \<not> live h j)
     \<and> (\<forall>i. h_ref h = Some i \<longrightarrow> i < length (h_sockets h))"

definition ws_ok :: "'d hook \<Rightarrow> bool" where
  "ws_ok h \<longleftrightarrow> gens_ok h \<and> owned_ok h
     \<and> (if h_url h = None then h_timer h = None else busy h \<or> resting h)"

lemma set_status_simps [simp]:
  "length (h_sockets (set_status i st h)) = length (h_sockets h)"
  "h_gen (set_status i st h) = h_gen h" "h_url (set_status i st h) = h_url h"
  "h_timer (set_status i st h) = h_timer h" "h_ref (set_status i st h) = h_ref h"
  "h_retry (set_status i st h) = h_retry h" "h_connected (set_status i st h) = h_connected h"
  by (simp_all add: set_status_def)

lemma set_status_nth:
  "i < length (h_sockets h) \<Longrightarrow> h_sockets (set_status i st h) ! j =
     (if j = i then (h_sockets h ! i)\<lparr>so_status := st\<rparr> else h_sockets h ! j)"
  by (simp add: set_status_def)

lemma live_set_status:
  "i < length (h_sockets h) \<Longrightarrow> live (set_status i st h) j \<longleftrightarrow>
     (if j = i then so_gen (h_sockets h ! i) = h_gen h \<and> st \<noteq> Closed else live h j)"
  by (auto simp: live_def set_status_nth)

lemma gens_set_status:
  "i < length (h_sockets h) \<Longrightarrow> gens_ok h \<Longrightarrow> gens_ok (set_status i st h)"
  by (simp add: gens_ok_def set_status_nth)

lemma owned_set_status:
  "i < length (h_sockets h) \<Longrightarrow> owned_ok h
    \<Longrightarrow> st \<in> {Closing, Closed} \<or> so_status (h_sockets h ! i) \<in> {Connecting, Open}
    \<Longrightarrow> owned_ok (set_status i st h)"
  by (auto simp: owned_ok_def set_status_nth)

lemma ws_ok_init: "ws_ok hook_init"
  by (simp add: ws_ok_def hook_init_def gens_ok_def owned_ok_def)

lemma ws_ok_same_live:
  assumes "live h' = live h" "h_url h' = h_url h" "h_timer h' = h_timer h" "h_ref h' = h_ref h"
    "length (h_sockets h') = length (h_sockets h)" "gens_ok h'" "owned_ok h'" "ws_ok h"
  shows "ws_ok h'"
proof -
  have "busy h' = busy h" "resting h' = resting h" using assms(1-5) by (simp_all add: busy_def resting_def)
  with assms show ?thesis by (simp add: ws_ok_def)
qed

text \<open>Moving a socket to a status that is not closed, towards closing or from connecting to open.\<close>

lemma set_status_ok:
  assumes "ws_ok h" "i < length (h_sockets h)" "so_status (h_sockets h ! i) \<noteq> Closed"
    and "st \<noteq> Closed" "st = Closing \<or> so_status (h_sockets h ! i) \<in> {Connecting, Open}"
  shows "ws_ok (set_status i st h)"
proof (rule ws_ok_same_live)
  show "live (set_status i st h) = live h"
    unfolding fun_eq_iff live_set_status [OF assms(2)] using assms(2-4) by (simp add: live_def)
  show "gens_ok (set_status i st h)" using assms(1,2) by (simp add: ws_ok_def gens_set_status)
  show "owned_ok (set_status i st h)"
    using assms(1,2,5) by (intro owned_set_status) (auto simp: ws_ok_def)
qed (simp_all add: assms(1))

lemma close_socket_ok [keep_rules]:
  "ws_ok h \<Longrightarrow> i < length (h_sockets h) \<Longrightarrow> ws_ok (close_socket i h)"
  unfolding close_socket_def using set_status_ok [of h i Closing] by auto

lemma ws_ok_flags:
  "ws_ok (h\<lparr>h_connected := c\<rparr>) = ws_ok h" "ws_ok (h\<lparr>h_retry := n\<rparr>) = ws_ok h" "ws_ok (h\<lparr>h_data := x\<rparr>) = ws_ok h"
  by (simp_all add: ws_ok_def live_def gens_ok_def owned_ok_def busy_def resting_def)

lemma onopen_ok [keep_rules]:
  "ws_ok h \<Longrightarrow> i < length (h_sockets h) \<Longrightarrow> so_status (h_sockets h ! i) = Connecting \<Longrightarrow> ws_ok (onopen i h)"
  unfolding onopen_def by (simp add: ws_ok_flags set_status_ok)

lemma onmessage_ok [keep_rules]: "ws_ok h \<Longrightarrow> ws_ok (onmessage f h)"
  by (auto simp: onmessage_def ws_ok_flags split: option.split)

lemma retry_delay_bounds: "500 \<le> retry_delay n \<and> retry_delay n \<le> 30000"
proof -
  have "(1::nat) \<le> 2 ^ n" by simp
  then have "500 \<le> 500 * (2::nat) ^ n" by linarith
  then show ?thesis by (simp add: retry_delay_def)
qed

lemma unique_live: "ws_ok h \<Longrightarrow> h_url h \<noteq> None \<Longrightarrow> live h i \<Longrightarrow> busy h \<and> h_ref h = Some i \<and> (\<forall>j. live h j \<longrightarrow> j = i)"
  unfolding ws_ok_def busy_def resting_def by metis

lemma onclose_ok [keep_rules]:
  assumes "ws_ok h" "i < length (h_sockets h)" "so_status (h_sockets h ! i) \<noteq> Closed"
  shows "ws_ok (onclose i h)"
proof -
  let ?h = "set_status i Closed h"
  have g: "gens_ok ?h" and o: "owned_ok ?h"
    using assms(1,2) by (auto simp: ws_ok_def intro!: gens_set_status owned_set_status)
  show ?thesis
  proof (cases "so_gen (h_sockets h ! i) = h_gen h \<and> h_url h \<noteq> None")
    case True
    let ?d = "retry_delay (h_retry h)"
    have eq: "onclose i h = ?h\<lparr>h_connected := False, h_timer := Some ?d, h_retry := h_retry h + 1\<rparr>"
      using True by (simp add: onclose_def Let_def)
    have "live h i" using True assms by (simp add: live_def)
    with True assms(1) have u: "h_ref h = Some i" "\<forall>j. live h j \<longrightarrow> j = i" using unique_live by blast+
    have nl: "\<not> live ?h j" for j using u(2) assms(2) by (auto simp: live_set_status)
    have "resting (onclose i h)"
      using nl u(1) assms(2) retry_delay_bounds [of "h_retry h"] by (simp add: eq resting_def live_def)
    with True g o show ?thesis by (simp add: eq ws_ok_def gens_ok_def owned_ok_def)
  next
    case False
    then have eq: "onclose i h = ?h\<lparr>h_connected := False\<rparr>" by (auto simp: onclose_def Let_def)
    have "ws_ok ?h"
    proof (cases "h_url h = None")
      case True
      then show ?thesis using assms(1) g o by (simp add: ws_ok_def)
    next
      case url: False
      have "live ?h = live h"
        unfolding fun_eq_iff live_set_status [OF assms(2)] using url False by (simp add: live_def)
      then show ?thesis using assms(1) g o by (intro ws_ok_same_live [of ?h h]) simp_all
    qed
    then show ?thesis by (simp add: eq ws_ok_flags)
  qed
qed

lemma cleanup_sockets:
  assumes "ws_ok h"
  shows "length (h_sockets (cleanup h)) = length (h_sockets h)"
    "j < length (h_sockets h) \<Longrightarrow> so_gen (h_sockets (cleanup h) ! j) = so_gen (h_sockets h ! j)"
    "j < length (h_sockets h) \<Longrightarrow> so_status (h_sockets (cleanup h) ! j) \<notin> {Connecting, Open}"
    "h_gen (cleanup h) = h_gen h" "h_url (cleanup h) = None" "h_timer (cleanup h) = None"
proof -
  show "length (h_sockets (cleanup h)) = length (h_sockets h)" "h_gen (cleanup h) = h_gen h"
    by (simp_all add: cleanup_def close_socket_def split: option.split)
  show "h_url (cleanup h) = None" by (simp add: cleanup_def split: option.split)
  show "h_timer (cleanup h) = None" using assms by (simp add: cleanup_def ws_ok_def)
  have "so_gen ((h_sockets h)[k := (h_sockets h ! k)\<lparr>so_status := Closing\<rparr>] ! j) = so_gen (h_sockets h ! j)"
    if "j < length (h_sockets h)" for k
    using that by (cases "k = j") simp_all
  then show "j < length (h_sockets h) \<Longrightarrow> so_gen (h_sockets (cleanup h) ! j) = so_gen (h_sockets h ! j)"
    by (simp add: cleanup_def close_socket_def set_status_def split: option.split)
  show "so_status (h_sockets (cleanup h) ! j) \<notin> {Connecting, Open}" if j: "j < length (h_sockets h)"
  proof (cases "so_status (h_sockets h ! j) \<in> {Connecting, Open}")
    case True
    with assms j have url: "h_url h \<noteq> None" and "live h j" by (auto simp: ws_ok_def owned_ok_def live_def)
    with assms have "h_ref h = Some j" using unique_live by blast
    then have "h_sockets (cleanup h) ! j = (h_sockets h ! j)\<lparr>so_status := Closing\<rparr>"
      using url True j by (auto simp: cleanup_def close_socket_def set_status_nth)
    then show ?thesis by simp
  next
    case False
    have "so_status ((h_sockets h)[k := (h_sockets h ! k)\<lparr>so_status := Closing\<rparr>] ! j)
        \<in> {so_status (h_sockets h ! j), Closing}" for k
      using j by (cases "k = j") simp_all
    then have "so_status (h_sockets (cleanup h) ! j) \<in> {so_status (h_sockets h ! j), Closing}"
      by (simp add: cleanup_def close_socket_def set_status_def split: option.split)
    with False show ?thesis by auto
  qed
qed

lemma cleanup_ok [keep_rules]: "ws_ok h \<Longrightarrow> ws_ok (cleanup h)"
  using cleanup_sockets [of h] by (simp add: ws_ok_def gens_ok_def owned_ok_def)

lemma connect_gen: "h_gen (connect url h) = h_gen h" "h_url (connect url h) = h_url h"
  by (simp_all add: connect_def)

lemma connect_ok:
  assumes "gens_ok h" "owned_ok h" "h_url h \<noteq> None" "h_timer h = None" "\<And>j. \<not> live h j"
  shows "ws_ok (connect url h)"
proof -
  let ?n = "length (h_sockets h)" and ?c = "connect url h"
  have nth: "h_sockets ?c ! j = (if j < ?n then h_sockets h ! j
      else \<lparr>so_gen = h_gen h, so_url = url, so_status = Connecting\<rparr>)" if "j < Suc ?n" for j
    using that by (auto simp: connect_def nth_append less_Suc_eq)
  have len: "length (h_sockets ?c) = Suc ?n" by (simp add: connect_def)
  have lv: "live ?c j \<longleftrightarrow> j = ?n" for j
    using assms(5) [of j] nth [of j] len by (cases "j < ?n") (auto simp: live_def connect_def)
  have "busy ?c" unfolding busy_def lv using assms(4) by (simp add: connect_def)
  moreover have "gens_ok ?c" using assms(1) nth len unfolding gens_ok_def by (simp add: connect_gen)
  moreover have "owned_ok ?c" using assms(2,3) nth len unfolding owned_ok_def by (simp add: connect_gen)
  ultimately show ?thesis using assms(3) by (auto simp: ws_ok_def connect_gen)
qed

lemma run_effect_ok [keep_rules]:
  assumes "ws_ok h"
  shows "ws_ok (run_effect url (cleanup h))"
proof (cases "truthy url")
  case True
  let ?h = "(cleanup h)\<lparr>h_gen := h_gen (cleanup h) + 1, h_url := url\<rparr>"
  note c = cleanup_sockets [OF assms]
  have g: "so_gen (h_sockets h ! j) < Suc (h_gen h)" if "j < length (h_sockets h)" for j
    using assms that by (simp add: ws_ok_def gens_ok_def le_imp_less_Suc)
  have "ws_ok (connect (the url) ?h)"
  proof (rule connect_ok)
    show "gens_ok ?h" using g by (simp add: gens_ok_def c less_imp_le)
    show "owned_ok ?h" using c(3) by (simp add: owned_ok_def c(1))
    show "h_url ?h \<noteq> None" using True by (cases url) simp_all
    show "h_timer ?h = None" by (simp add: c)
    show "\<not> live ?h j" for j using g [of j] by (auto simp: live_def c)
  qed
  with True show ?thesis by (simp add: run_effect_def)
next
  case False
  then show ?thesis using cleanup_ok [OF assms] by (simp add: run_effect_def)
qed

lemma retry_ok [keep_rules]:
  assumes "ws_ok h" "h_timer h = Some d" "h_url h = Some url"
  shows "ws_ok (connect url (h\<lparr>h_timer := None\<rparr>))"
proof (rule connect_ok)
  have "\<not> live h j" for j using assms by (auto simp: ws_ok_def busy_def resting_def)
  then show "\<not> live (h\<lparr>h_timer := None\<rparr>) j" for j by (simp add: live_def)
qed (use assms in \<open>simp_all add: ws_ok_def gens_ok_def owned_ok_def\<close>)

lemma ws_step_ok: "ws_step h h' \<Longrightarrow> ws_ok h \<Longrightarrow> ws_ok h'"
  by (erule ws_step_cases) (simp_all add: keep_rules)

lemma ws_reach_ok: "ws_reach h \<Longrightarrow> ws_ok h"
  by (induction rule: ws_reach.induct) (auto intro: ws_ok_init ws_step_ok)

section \<open>Properties of the hook\<close>

text \<open>
  C28: in every reachable state of the hook at most one socket is connecting or open, and none
  after the component unmounted or lost its URL: reconnecting and changing the URL never leak a
  connection.
\<close>

theorem one_open_socket:
  assumes "ws_reach h"
    and "i < length (h_sockets h)" "so_status (h_sockets h ! i) \<in> {Connecting, Open}"
    and "j < length (h_sockets h)" "so_status (h_sockets h ! j) \<in> {Connecting, Open}"
  shows "i = j \<and> h_ref h = Some i \<and> h_url h \<noteq> None \<and> h_timer h = None"
proof -
  note ok = ws_reach_ok [OF assms(1)]
  have u: "h_url h \<noteq> None" and "live h i" "live h j"
    using ok assms(2-5) by (auto simp: ws_ok_def owned_ok_def live_def)
  with unique_live [OF ok u] show ?thesis by (auto simp: busy_def)
qed

definition opened_hook :: "unit hook" where
  "opened_hook = onopen 0 (run_effect (Some ''ws://a'') (cleanup hook_init))"

lemma opened_hook_reach: "ws_reach opened_hook"
  unfolding opened_hook_def
  by (rule ws_reach.Step [OF ws_reach.Step [OF ws_reach.Start ws_step.Url] ws_step.Opens])
    (simp_all add: run_effect_def cleanup_def connect_def hook_init_def)

lemma opened_hook_eq:
  "opened_hook = \<lparr>h_data = None, h_connected = True,
     h_sockets = [\<lparr>so_gen = 1, so_url = ''ws://a'', so_status = Open\<rparr>], h_ref = Some 0, h_retry = 0,
     h_gen = 1, h_url = Some ''ws://a'', h_timer = None\<rparr>"
  by (simp add: opened_hook_def onopen_def run_effect_def cleanup_def connect_def hook_init_def set_status_def)

theorem one_open_socket_witness: "h_ref opened_hook = Some 0 \<and> h_timer opened_hook = None"
  using one_open_socket [OF opened_hook_reach, of 0 0] by (simp add: opened_hook_eq)

text \<open>
  C29: the hook never gives up: while it has a URL, it either has a socket under way or a retry
  scheduled, after between half a second and thirty seconds; losing its socket in that state
  schedules the next attempt with the doubled, capped delay.
\<close>

theorem never_gives_up:
  assumes "ws_reach h" "h_url h \<noteq> None"
  shows "((\<exists>i. h_ref h = Some i \<and> live h i) \<or> (\<exists>d. h_timer h = Some d \<and> 500 \<le> d \<and> d \<le> 30000))
    \<and> (\<forall>i. live h i \<longrightarrow> h_timer (onclose i h) = Some (min 30000 (500 * 2 ^ h_retry h))
         \<and> h_retry (onclose i h) = h_retry h + 1 \<and> \<not> h_connected (onclose i h))"
proof -
  have "busy h \<or> resting h" using ws_reach_ok [OF assms(1)] assms(2) by (simp add: ws_ok_def)
  then show ?thesis
    using assms(2) by (auto simp: busy_def resting_def onclose_def live_def Let_def retry_delay_def)
qed

theorem never_gives_up_witness:
  "h_timer (onclose 0 opened_hook) = Some 500 \<and> h_url opened_hook \<noteq> None"
  using never_gives_up [OF opened_hook_reach] by (simp add: opened_hook_eq live_def)

text \<open>
  Frames: an envelope with a type delivers its payload, any other parsable message itself, and
  a malformed frame leaves the last value in place.
\<close>

lemma frame_handling:
  "h_data (onmessage Malformed h) = h_data h \<and> h_data (onmessage (Plain d) h) = Some d
   \<and> h_data (onmessage (EnvelopeFrame (Some (c # cs)) (Some v) raw) h) = v
   \<and> h_data (onmessage (EnvelopeFrame None (Some v) raw) h) = Some raw
   \<and> (\<forall>f. h_sockets (onmessage f h) = h_sockets h \<and> h_connected (onmessage f h) = h_connected h)"
  by (auto simp: onmessage_def split: option.split)

text \<open>
  After a change of URL the close event of the old socket can arrive when the new one is open,
  and its handler clears the flag without checking whose event it is: a reachable state in which
  the current socket is open, the hook reports not connected, and nothing is scheduled that would
  correct it.
\<close>

lemma stale_close_hides_connection:
  "\<exists>h :: unit hook. ws_reach h \<and> (\<exists>i. h_ref h = Some i \<and> live h i \<and> so_status (h_sockets h ! i) = Open)
     \<and> \<not> h_connected h \<and> h_timer h = None"
proof -
  let ?a = "run_effect (Some ''ws://b'') (cleanup opened_hook)"
  let ?b = "onopen 1 ?a"
  let ?c = "onclose 0 ?b"
  have a: "?a = \<lparr>h_data = None, h_connected = True,
     h_sockets = [\<lparr>so_gen = 1, so_url = ''ws://a'', so_status = Closing\<rparr>,
       \<lparr>so_gen = 2, so_url = ''ws://b'', so_status = Connecting\<rparr>], h_ref = Some 1, h_retry = 0,
     h_gen = 2, h_url = Some ''ws://b'', h_timer = None\<rparr>"
    by (simp add: opened_hook_eq run_effect_def cleanup_def connect_def close_socket_def set_status_def)
  have b: "?b = \<lparr>h_data = None, h_connected = True,
     h_sockets = [\<lparr>so_gen = 1, so_url = ''ws://a'', so_status = Closing\<rparr>,
       \<lparr>so_gen = 2, so_url = ''ws://b'', so_status = Open\<rparr>], h_ref = Some 1, h_retry = 0,
     h_gen = 2, h_url = Some ''ws://b'', h_timer = None\<rparr>"
    unfolding a by (simp add: onopen_def set_status_def)
  have c: "?c = \<lparr>h_data = None, h_connected = False,
     h_sockets = [\<lparr>so_gen = 1, so_url = ''ws://a'', so_status = Closed\<rparr>,
       \<lparr>so_gen = 2, so_url = ''ws://b'', so_status = Open\<rparr>], h_ref = Some 1, h_retry = 0,
     h_gen = 2, h_url = Some ''ws://b'', h_timer = None\<rparr>"
    unfolding b by (simp add: onclose_def set_status_def)
  have "ws_reach ?a" by (rule ws_reach.Step [OF opened_hook_reach ws_step.Url])
  then have "ws_reach ?b" by (rule ws_reach.Step) (rule ws_step.Opens, simp_all add: a)
  then have "ws_reach ?c" by (rule ws_reach.Step) (rule ws_step.Closes, simp_all only: b, simp_all)
  moreover have "h_ref ?c = Some 1 \<and> live ?c 1 \<and> so_status (h_sockets ?c ! 1) = Open
      \<and> \<not> h_connected ?c \<and> h_timer ?c = None"
    unfolding c by (simp add: live_def)
  ultimately show ?thesis by blast
qed

end
