(* ===== verification/Analytics.thy ===== *)
theory Analytics
  imports Api
begin

text \<open>
  \<open>hooks/useAnalytics.ts\<close>, the telemetry state behind every page, and the context that shares it
  (\<open>components/live/LiveContext.tsx\<close>): backend detection, polling, demo mode with its simulated
  stream, the live event window and the figures derived from it.

  \<open>Promise.all\<close> is run left to right here; its interleavings are studied in \<open>Auth_Service\<close>.
\<close>

section \<open>State\<close>

record 'srv telemetry =
  tl_world :: "'srv world"
  tl_overview :: "overview option"
  tl_events :: "analytics_event list"
  tl_error :: "string option"
  tl_loading :: bool
  tl_demo :: bool
  tl_stream :: demo_stream
  tl_cancelled :: bool
  tl_poll_timer :: bool
  tl_tick_timer :: bool

definition telemetry_init :: "'srv world \<Rightarrow> demo_stream \<Rightarrow> 'srv telemetry" where
  "telemetry_init w ds = \<lparr>tl_world = w, tl_overview = None, tl_events = [], tl_error = None,
     tl_loading = True, tl_demo = False, tl_stream = ds, tl_cancelled = False, tl_poll_timer = False,
     tl_tick_timer = False\<rparr>"

definition on_telemetry :: "('srv world, 'a) comp \<Rightarrow> ('srv telemetry, 'a) comp" where
  "on_telemetry m s = (case m (tl_world s) of (r, w) \<Rightarrow> (r, s\<lparr>tl_world := w\<rparr>))"

section \<open>Polling\<close>

text \<open>Both requests run; the first rejection wins.\<close>

definition both :: "('s, 'a) comp \<Rightarrow> ('s, 'b) comp \<Rightarrow> ('s, 'a \<times> 'b) comp" where
  "both m n s = (case m s of (r1, s1) \<Rightarrow> (case n s1 of (r2, s2) \<Rightarrow>
     ((case r1 of Inl e \<Rightarrow> Inl e | Inr x \<Rightarrow> (case r2 of Inl e \<Rightarrow> Inl e | Inr y \<Rightarrow> Inr (x, y))), s2)))"

definition telemetry_load :: "env \<Rightarrow> 'srv api \<Rightarrow> ('srv telemetry, unit) comp" where
  "telemetry_load ev api =
     bindE (both
       (on_telemetry (fetchWithRefresh ev (ep_refresh api) (ep_overview api)
          (get_request (getAPIURL ev @ ''/api/v1/analytics/overview''))))
       (on_telemetry (fetchWithRefresh ev (ep_refresh api) (ep_events api)
          (get_request (getAPIURL ev @ ''/api/v1/analytics/events?limit=50''))))) (\<lambda>(ovr, evr).
     if \<not> ok ovr \<or> \<not> ok evr then throwE (JsError ''Analytics API unavailable'')
     else bindE (on_telemetry (json_of ovr)) (\<lambda>ov.
       bindE (modifyE (\<lambda>s. s\<lparr>tl_overview := Some ov\<rparr>)) (\<lambda>_.
       bindE (on_telemetry (json_of evr)) (\<lambda>evs.
       modifyE (\<lambda>s. s\<lparr>tl_events := evs, tl_error := None, tl_demo := False\<rparr>)))))"

definition telemetry_refresh :: "env \<Rightarrow> 'srv api \<Rightarrow> ('srv telemetry, unit) comp" where
  "telemetry_refresh ev api = finallyE
     (catchE (telemetry_load ev api)
       (\<lambda>cause. modifyE (\<lambda>s. s\<lparr>tl_error := Some (message_or cause ''Analytics API unavailable'')\<rparr>)))
     (\<lambda>s. s\<lparr>tl_loading := False\<rparr>)"

section \<open>Backend detection and demo mode\<close>

definition probeBackend :: "env \<Rightarrow> 'srv api \<Rightarrow> ('srv world, bool) comp" where
  "probeBackend ev api = (if env_window ev = None then returnE False
     else catchE
       (bindE (authHeaders ev) (\<lambda>hs.
        bindE (do_fetch (ep_overview api)
          ((get_request (getAPIURL ev @ ''/api/v1/analytics/overview''))\<lparr>rq_headers := hs\<rparr>)) (\<lambda>res.
        returnE (0 < rs_status res))))
       (\<lambda>_. returnE False))"

definition demo_overview :: "analytics_event list \<Rightarrow> overview" where
  "demo_overview backfill = (let fl_cnt = length (filter flagged backfill); n = length backfill in
     \<lparr>ov_total_events = 128400 + int n, ov_fraud_events = 1872 + int fl_cnt,
      ov_fraud_rate = fl (fl (of_nat (1872 + fl_cnt) / of_nat (128400 + n)) * 100)\<rparr>)"

definition enter_demo :: "(nat \<Rightarrow> nat) \<Rightarrow> int \<Rightarrow> 'srv telemetry \<Rightarrow> 'srv telemetry" where
  "enter_demo clk now s =
     (let n = ds_seq (tl_stream s); backfill = demoBackfill clk now 48 30 42 n in
      s\<lparr>tl_demo := True, tl_events := backfill, tl_overview := Some (demo_overview backfill),
        tl_error := None, tl_loading := False, tl_tick_timer := True,
        tl_stream := (tl_stream s)\<lparr>ds_seq := n + 48\<rparr>\<rparr>)"

text \<open>
  The probe answers: nothing once the effect was cancelled; polling when the backend is there
  (the first load follows as a microtask); otherwise demo mode.
\<close>

definition probe_done :: "(nat \<Rightarrow> nat) \<Rightarrow> int \<Rightarrow> bool \<Rightarrow> 'srv telemetry \<Rightarrow> 'srv telemetry" where
  "probe_done clk now reachable s = (if tl_cancelled s then s
     else if reachable then s\<lparr>tl_poll_timer := True\<rparr> else enter_demo clk now s)"

definition window_push :: "analytics_event \<Rightarrow> analytics_event list \<Rightarrow> analytics_event list" where
  "window_push e es = take 50 (e # es)"

definition tick_overview :: "analytics_event \<Rightarrow> overview \<Rightarrow> overview" where
  "tick_overview e ov = \<lparr>ov_total_events = ov_total_events ov + 1,
     ov_fraud_events = ov_fraud_events ov + (if flagged e then 1 else 0), ov_fraud_rate = 0\<rparr>"

definition demo_tick :: "nat \<Rightarrow> 'srv telemetry \<Rightarrow> 'srv telemetry" where
  "demo_tick now s = (if \<not> tl_tick_timer s then s else
     case demoTick now (tl_stream s) of (e, ds) \<Rightarrow>
       s\<lparr>tl_stream := ds, tl_events := window_push e (tl_events s),
         tl_overview := map_option (tick_overview e) (tl_overview s)\<rparr>)"

text \<open>The live stream: the new event first, any older copy of it dropped.\<close>

definition live_push :: "analytics_event \<Rightarrow> analytics_event list \<Rightarrow> analytics_event list" where
  "live_push e es = take 50 (e # filter (\<lambda>x. event_key x \<noteq> event_key e) es)"

definition live_event :: "analytics_event \<Rightarrow> 'srv telemetry \<Rightarrow> 'srv telemetry" where
  "live_event e s = (if tl_demo s then s else s\<lparr>tl_events := live_push e (tl_events s)\<rparr>)"

text \<open>Unmounting only raises the flag: the functions the promise returned are never called.\<close>

definition unmount :: "'srv telemetry \<Rightarrow> 'srv telemetry" where
  "unmount s = s\<lparr>tl_cancelled := True\<rparr>"

section \<open>Derived figures\<close>

record metrics =
  me_totalTransactions :: int
  me_fraudRate :: rat
  me_activeAlerts :: nat
  me_systemLoad :: int

definition threatRatio :: "analytics_event list \<Rightarrow> rat" where
  "threatRatio es = percent_of flagged es"

definition systemLoad :: "int \<Rightarrow> analytics_event list \<Rightarrow> int" where
  "systemLoad now es = (if es = [] \<or> now = 0 then 0
     else let cutoff = now - 10000;
              recent = length (filter (\<lambda>e. case getTime (ev_timestamp e) of
                 Some t \<Rightarrow> cutoff < t | None \<Rightarrow> False) es)
          in min 100 (math_round (fl (fl (of_nat recent / 10) * 10))))"

definition metrics_of :: "int \<Rightarrow> 'srv telemetry \<Rightarrow> metrics" where
  "metrics_of now s =
     \<lparr>me_totalTransactions = default (map_option ov_total_events (tl_overview s)) 0,
      me_fraudRate = (if tl_demo s then percent_of flagged (tl_events s)
        else default (map_option ov_fraud_rate (tl_overview s)) 0),
      me_activeAlerts = length (filter flagged (tl_events s)),
      me_systemLoad = systemLoad now (tl_events s)\<rparr>"

text \<open>The label cache, and the series the charts draw from left to right.\<close>

definition formatTimeLabel :: "(iso \<Rightarrow> string) \<Rightarrow> iso \<Rightarrow> (iso \<rightharpoonup> string) \<Rightarrow> string \<times> (iso \<rightharpoonup> string)" where
  "formatTimeLabel locale_time t cache = (case cache t of
     Some label \<Rightarrow> (label, cache)
   | None \<Rightarrow> (locale_time t, cache(t \<mapsto> locale_time t)))"

record history_point =
  hp_time :: string
  hp_transactions :: nat
  hp_fraud :: nat

fun history_loop :: "(iso \<Rightarrow> string) \<Rightarrow> analytics_event list \<Rightarrow> (iso \<rightharpoonup> string)
    \<Rightarrow> history_point list \<times> (iso \<rightharpoonup> string)" where
  "history_loop locale_time [] cache = ([], cache)"
| "history_loop locale_time (e # es) cache =
     (case formatTimeLabel locale_time (ev_timestamp e) cache of (label, cache') \<Rightarrow>
      case history_loop locale_time es cache' of (ps, cache'') \<Rightarrow>
        (\<lparr>hp_time = label, hp_transactions = 1, hp_fraud = (if flagged e then 1 else 0)\<rparr> # ps, cache''))"

definition history :: "(iso \<Rightarrow> string) \<Rightarrow> analytics_event list \<Rightarrow> (iso \<rightharpoonup> string)
    \<Rightarrow> history_point list \<times> (iso \<rightharpoonup> string)" where
  "history locale_time es cache = history_loop locale_time (rev es) cache"

definition shown_connected :: "bool \<Rightarrow> 'srv telemetry \<Rightarrow> bool" where
  "shown_connected ws s = (if tl_demo s then True else ws)"

section \<open>The shared context\<close>

record live_context =
  lc_lastEventAt :: "int option"
  lc_seen :: bool
  lc_timer :: bool

text \<open>The effect on \<open>[events.length, hasEverHadEvents]\<close>, after its cleanup, and its timer.\<close>

definition context_effect :: "nat \<Rightarrow> live_context \<Rightarrow> live_context" where
  "context_effect n c = (if 0 < n \<and> \<not> lc_seen c then c\<lparr>lc_timer := True\<rparr> else c\<lparr>lc_timer := False\<rparr>)"

definition context_timer :: "int \<Rightarrow> live_context \<Rightarrow> live_context" where
  "context_timer now c = (if lc_timer c
     then c\<lparr>lc_seen := True, lc_lastEventAt := Some now, lc_timer := False\<rparr> else c)"

text \<open>
  What the provider hands to every consumer. \<open>ws\<close> is the socket hook's flag, \<open>now\<close> the state clock,
  \<open>cache\<close> the label cache. Outside the provider \<open>useLive\<close> throws.
\<close>

record live_data =
  ld_events :: "analytics_event list"
  ld_metrics :: metrics
  ld_history :: "history_point list"
  ld_isConnected :: bool
  ld_error :: "string option"
  ld_loading :: bool
  ld_demo :: bool
  ld_threatRatio :: rat
  ld_lastEventAt :: "int option"

definition live_value :: "(iso \<Rightarrow> string) \<Rightarrow> (iso \<rightharpoonup> string) \<Rightarrow> bool \<Rightarrow> int \<Rightarrow> 'srv telemetry \<Rightarrow> live_context \<Rightarrow> live_data" where
  "live_value locale_time cache ws now s c =
     \<lparr>ld_events = tl_events s, ld_metrics = metrics_of now s, ld_history = fst (history locale_time (tl_events s) cache),
      ld_isConnected = shown_connected ws s, ld_error = tl_error s, ld_loading = tl_loading s, ld_demo = tl_demo s,
      ld_threatRatio = threatRatio (tl_events s), ld_lastEventAt = lc_lastEventAt c\<rparr>"

definition useLive :: "live_data option \<Rightarrow> exn + live_data" where
  "useLive ctx = (case ctx of Some d \<Rightarrow> Inr d | None \<Rightarrow> Inl (JsError ''useLive must be used within <LiveProvider>''))"

text \<open>The state clock: zero until the first timer, then read at once and every five seconds.\<close>

record live_clock =
  ck_now :: int
  ck_kickoff :: bool
  ck_interval :: bool

definition clock_mount :: live_clock where
  "clock_mount = \<lparr>ck_now = 0, ck_kickoff = True, ck_interval = True\<rparr>"

definition clock_kickoff :: "int \<Rightarrow> live_clock \<Rightarrow> live_clock" where
  "clock_kickoff t c = (if ck_kickoff c then c\<lparr>ck_now := t, ck_kickoff := False\<rparr> else c)"

definition clock_tick :: "int \<Rightarrow> live_clock \<Rightarrow> live_clock" where
  "clock_tick t c = (if ck_interval c then c\<lparr>ck_now := t\<rparr> else c)"

definition clock_unmount :: "live_clock \<Rightarrow> live_clock" where
  "clock_unmount c = c\<lparr>ck_kickoff := False, ck_interval := False\<rparr>"

section \<open>The event window\<close>

text \<open>What the pages rely on: bounded, the newest event first, nothing invented.\<close>

locale event_window =
  fixes push :: "'e \<Rightarrow> 'e list \<Rightarrow> 'e list" and limit :: nat
  assumes push_newest: "\<exists>rest. push e es = e # rest"
    and push_bounded: "length (push e es) \<le> limit"
    and push_from: "set (push e es) \<subseteq> insert e (set es)"
begin

lemma window_after:
  assumes "arrivals \<noteq> []"
  shows "length (fold push arrivals es) \<le> limit"
    and "hd (fold push arrivals es) = last arrivals"
    and "set (fold push arrivals es) \<subseteq> set arrivals \<union> set es"
proof -
  obtain before e where "arrivals = before @ [e]" using assms by (metis append_butlast_last_id)
  then have *: "fold push arrivals es = push e (fold push before es)" "last arrivals = e" by auto
  show "length (fold push arrivals es) \<le> limit" by (simp add: * push_bounded)
  show "hd (fold push arrivals es) = last arrivals" using push_newest by (metis * list.sel(1))
  show "set (fold push arrivals es) \<subseteq> set arrivals \<union> set es"
  proof (induction arrivals arbitrary: es)
    case (Cons a as)
    have "set (push a es) \<subseteq> insert a (set es)" by (rule push_from)
    with Cons.IH [of "push a es"] show ?case by auto
  qed simp
qed

end

text \<open>A window that started bounded stays so, whether or not events arrive.\<close>

sublocale event_window \<subseteq> bounded: machine push "\<lambda>es. length es \<le> limit"
  by unfold_locales (rule push_bounded)

interpretation sim_window: event_window window_push 50
  by unfold_locales (auto simp: window_push_def dest: in_set_takeD)

interpretation live_window: event_window live_push 50
  by unfold_locales (auto simp: live_push_def dest: in_set_takeD)

lemma live_push_distinct:
  assumes "distinct (map event_key es)"
  shows "distinct (map event_key (live_push e es))"
proof -
  have "distinct (map event_key (e # filter (\<lambda>x. event_key x \<noteq> event_key e) es))"
    using distinct_map_filter [OF assms] by auto
  then show ?thesis unfolding live_push_def by (rule distinct_map_take)
qed

lemma live_events_fold:
  "\<not> tl_demo s \<Longrightarrow> tl_events (fold live_event arrivals s) = fold live_push arrivals (tl_events s)"
  by (induction arrivals arbitrary: s) (auto simp: live_event_def)

interpretation live_keys: machine live_push "\<lambda>es. distinct (map event_key es)"
  by unfold_locales (rule live_push_distinct)

text \<open>
  C31: over any sequence of live events the window holds at most fifty, the latest arrival first,
  only events that arrived or were loaded; and if the loaded window had distinct keys, an event
  that is delivered again moves to the front instead of appearing twice.
\<close>

theorem live_window_laws:
  assumes "arrivals \<noteq> []" "\<not> tl_demo s" "distinct (map event_key (tl_events s))"
  defines "es \<equiv> tl_events (fold live_event arrivals s)"
  shows "length es \<le> 50 \<and> hd es = last arrivals \<and> set es \<subseteq> set arrivals \<union> set (tl_events s)
    \<and> distinct (map event_key es)"
proof -
  have "es = fold live_push arrivals (tl_events s)" by (simp add: es_def live_events_fold assms(2))
  with live_window.window_after [OF assms(1), of "tl_events s"] live_keys.run [OF assms(3), of arrivals]
  show ?thesis by simp
qed

theorem live_window_laws_witness:
  "let e = blank_event\<lparr>ev_id := Some ''a''\<rparr> in
   length (tl_events (fold live_event [e, e] (telemetry_init blank_world \<lparr>ds_seq = 0, ds_rand = 0\<rparr>))) \<le> 50"
  using live_window_laws [of "[e, e]" "telemetry_init blank_world \<lparr>ds_seq = 0, ds_rand = 0\<rparr>" for e]
  by (simp add: telemetry_init_def Let_def)

section \<open>Demo mode\<close>

definition tick_events :: "nat list \<Rightarrow> demo_stream \<Rightarrow> analytics_event list" where
  "tick_events ts ds = fst (foldl (\<lambda>(es, ds) t. let (e, ds') = demoTick t ds in (es @ [e], ds')) ([], ds) ts)"

definition tick_stream :: "nat list \<Rightarrow> demo_stream \<Rightarrow> demo_stream" where
  "tick_stream ts ds = snd (foldl (\<lambda>(es, ds) t. let (e, ds') = demoTick t ds in (es @ [e], ds')) ([], ds) ts)"

lemma tick_snoc:
  "tick_events (ts @ [t]) ds = tick_events ts ds @ [fst (demoTick t (tick_stream ts ds))]"
  "tick_stream (ts @ [t]) ds = snd (demoTick t (tick_stream ts ds))"
  by (auto simp: tick_events_def tick_stream_def Let_def split: prod.splits)

lemma tick_nil [simp]: "tick_events [] ds = []" "tick_stream [] ds = ds"
  by (simp_all add: tick_events_def tick_stream_def)

lemma length_tick_events [simp]: "length (tick_events ts ds) = length ts"
  by (induction ts rule: rev_induct) (simp_all add: tick_snoc)

lemma take_Cons_take: "take 50 (e # take 50 xs) = take 50 (e # xs)"
  by (simp add: take_Cons')

lemma demo_tick_eq:
  "tl_tick_timer s \<Longrightarrow> demoTick t (tl_stream s) = (e, ds) \<Longrightarrow> demo_tick t s = s\<lparr>tl_stream := ds,
     tl_events := take 50 (e # tl_events s), tl_overview := map_option (tick_overview e) (tl_overview s)\<rparr>"
  by (simp add: demo_tick_def window_push_def)

text \<open>The state after some ticks, in terms of the simulated stream.\<close>

lemma demo_ticks:
  assumes "tl_tick_timer s" "tl_overview s = Some ov"
  shows "tl_tick_timer (fold demo_tick ts s)
    \<and> tl_demo (fold demo_tick ts s) = tl_demo s
    \<and> tl_stream (fold demo_tick ts s) = tick_stream ts (tl_stream s)
    \<and> (ts \<noteq> [] \<longrightarrow> tl_events (fold demo_tick ts s) = take 50 (rev (tick_events ts (tl_stream s)) @ tl_events s))
    \<and> (\<exists>r. tl_overview (fold demo_tick ts s) = Some \<lparr>ov_total_events = ov_total_events ov + int (length ts),
           ov_fraud_events = ov_fraud_events ov + int (length (filter flagged (tick_events ts (tl_stream s)))),
           ov_fraud_rate = r\<rparr>)"
proof (induction ts rule: rev_induct)
  case Nil
  have "\<exists>r. ov = \<lparr>ov_total_events = ov_total_events ov, ov_fraud_events = ov_fraud_events ov, ov_fraud_rate = r\<rparr>"
    by (metis overview.surjective unit.exhaust)
  with assms show ?case by simp
next
  case (snoc t ts)
  let ?s = "fold demo_tick ts s"
  obtain e ds where d: "demoTick t (tl_stream ?s) = (e, ds)" by fastforce
  have step: "fold demo_tick (ts @ [t]) s = ?s\<lparr>tl_stream := ds,
      tl_events := take 50 (e # tl_events ?s), tl_overview := map_option (tick_overview e) (tl_overview ?s)\<rparr>"
    using snoc d by (simp add: demo_tick_eq)
  have new: "tick_events (ts @ [t]) (tl_stream s) = tick_events ts (tl_stream s) @ [e]"
    "tick_stream (ts @ [t]) (tl_stream s) = ds"
    using snoc d by (simp_all add: tick_snoc)
  have "take 50 (e # tl_events ?s) = take 50 (e # rev (tick_events ts (tl_stream s)) @ tl_events s)"
  proof (cases "ts = []")
    case False
    with snoc have "tl_events ?s = take 50 (rev (tick_events ts (tl_stream s)) @ tl_events s)" by blast
    then show ?thesis by (simp only: take_Cons_take)
  qed simp
  with snoc show ?case
    unfolding step new by (auto simp: tick_overview_def)
qed

definition demo_started :: "(nat \<Rightarrow> nat) \<Rightarrow> int \<Rightarrow> 'srv telemetry \<Rightarrow> 'srv telemetry" where
  "demo_started clk now s = probe_done clk now False s"

definition demo_events :: "(nat \<Rightarrow> nat) \<Rightarrow> int \<Rightarrow> 'srv telemetry \<Rightarrow> analytics_event list" where
  "demo_events clk now s = demoBackfill clk now 48 30 42 (ds_seq (tl_stream s))"

lemma demo_started_eq:
  "\<not> tl_cancelled s \<Longrightarrow> demo_started clk now s = s\<lparr>tl_demo := True, tl_events := demo_events clk now s,
     tl_overview := Some (demo_overview (demo_events clk now s)), tl_error := None, tl_loading := False,
     tl_tick_timer := True, tl_stream := (tl_stream s)\<lparr>ds_seq := ds_seq (tl_stream s) + 48\<rparr>\<rparr>"
  by (simp add: demo_started_def probe_done_def enter_demo_def demo_events_def Let_def)

text \<open>
  In demo mode the counters stay consistent through any number of ticks: one transaction per
  tick on top of the 128,448 the session starts with, and the fraud counter counts exactly the
  flagged events of the backfill and the stream, never more than all.
\<close>

lemma demo_counters:
  fixes s :: "'srv telemetry" and clk now ts
  assumes "\<not> tl_cancelled s"
  defines "s0 \<equiv> demo_started clk now s"
  shows "\<exists>ov. tl_overview (fold demo_tick ts s0) = Some ov
    \<and> ov_total_events ov = 128448 + int (length ts)
    \<and> ov_fraud_events ov = 1872 + int (length (filter flagged (demo_events clk now s @ tick_events ts (tl_stream s0))))
    \<and> 0 \<le> ov_fraud_events ov \<and> ov_fraud_events ov \<le> ov_total_events ov"
proof -
  have l: "length (demo_events clk now s) = 48" by (simp add: demo_events_def demoBackfill_laws(1))
  have "tl_tick_timer s0" "tl_overview s0 = Some (demo_overview (demo_events clk now s))"
    using assms(1) by (simp_all add: s0_def demo_started_eq)
  from demo_ticks [OF this, of ts] obtain r where o: "tl_overview (fold demo_tick ts s0) = Some
      \<lparr>ov_total_events = 128448 + int (length ts), ov_fraud_events = 1872 + int (length (filter flagged (demo_events clk now s)))
        + int (length (filter flagged (tick_events ts (tl_stream s0)))), ov_fraud_rate = r\<rparr>"
    by (auto simp: demo_overview_def Let_def l)
  have "length (filter flagged (demo_events clk now s)) \<le> 48" using l length_filter_le by metis
  moreover have "length (filter flagged (tick_events ts (tl_stream s0))) \<le> length ts"
    using length_filter_le by (metis length_tick_events)
  ultimately show ?thesis unfolding o by simp
qed

definition idle_telemetry :: "unit telemetry" where
  "idle_telemetry = telemetry_init blank_world \<lparr>ds_seq = 0, ds_rand = live_seed\<rparr>"

lemma demo_counters_witness:
  "\<exists>ov. tl_overview (fold demo_tick [1, 2] (demo_started id 0 idle_telemetry)) = Some ov
    \<and> ov_total_events ov = 128450"
  using demo_counters [where s = idle_telemetry and clk = id and now = 0 and ts = "[1, 2]"]
  by (auto simp: idle_telemetry_def telemetry_init_def)

text \<open>
  In demo mode the charts run backwards and forget the wrong end. The backfill is stored oldest
  first in a window whose newest event must come first, so the series drawn from left to right
  starts with the latest backfill event and goes back in time; and when ticks push the window over
  fifty, it is the latest backfill events that are dropped while the oldest stay.
\<close>

lemma demo_history_reversed:
  fixes s :: "'srv telemetry" and clk now ts
  assumes "\<not> tl_cancelled s" "ts \<noteq> []" "length ts \<le> 50"
  defines "s0 \<equiv> demo_started clk now s"
  shows "sorted_wrt (\<ge>) (map (\<lambda>e. instant (ev_timestamp e)) (rev (tl_events s0)))
    \<and> tl_events (fold demo_tick ts s0)
       = rev (tick_events ts (tl_stream s0)) @ take (50 - length ts) (demo_events clk now s)
    \<and> sorted (map (\<lambda>e. instant (ev_timestamp e)) (demo_events clk now s))"
proof -
  have sorted: "sorted (map (\<lambda>e. instant (ev_timestamp e)) (demo_events clk now s))"
    unfolding demo_events_def by (rule demoBackfill_sorted)
  have s0: "tl_tick_timer s0" "tl_overview s0 = Some (demo_overview (demo_events clk now s))"
    "tl_events s0 = demo_events clk now s"
    using assms(1) by (simp_all add: s0_def demo_started_eq)
  have "sorted_wrt (\<ge>) (map (\<lambda>e. instant (ev_timestamp e)) (rev (tl_events s0)))"
    using sorted by (simp add: s0(3) sorted_wrt_rev rev_map [symmetric])
  moreover have "tl_events (fold demo_tick ts s0)
      = rev (tick_events ts (tl_stream s0)) @ take (50 - length ts) (demo_events clk now s)"
    using demo_ticks [OF s0(1,2), of ts] assms(2,3) by (simp add: s0(3))
  ultimately show ?thesis using sorted by blast
qed

lemma demo_history_reversed_witness:
  "sorted_wrt (\<ge>) (map (\<lambda>e. instant (ev_timestamp e))
     (rev (tl_events (demo_started id 1700000000000 idle_telemetry))))"
  using demo_history_reversed [where s = idle_telemetry and clk = id and now = 1700000000000 and ts = "[1]"]
  by (simp add: idle_telemetry_def telemetry_init_def)

section \<open>Figures\<close>

lemma fl_between:
  assumes "of_int a / 2 ^ k \<le> x" "x \<le> of_int b / 2 ^ k" "\<bar>a\<bar> \<le> 2 ^ 53" "\<bar>b\<bar> \<le> 2 ^ 53"
  shows "of_int a / 2 ^ k \<le> fl x \<and> fl x \<le> of_int b / 2 ^ k"
  using fl_mono [OF assms(1)] fl_mono [OF assms(2)] fl_dyadic [OF refl assms(3), of k]
    fl_dyadic [OF refl assms(4), of k] by simp

text \<open>Dividing by ten and multiplying back is exact after rounding to an integer.\<close>

lemma load_exact:
  assumes "n \<le> 50"
  shows "math_round (fl (fl (of_nat n / 10) * 10)) = int n"
proof -
  define x :: rat where "x = of_nat n / 10"
  define a where "a = \<lfloor>x * 2 ^ 20\<rfloor>"
  have x: "0 \<le> x" "x \<le> 5" using assms by (simp_all add: x_def)
  have a1: "of_int a \<le> x * 2 ^ 20" "x * 2 ^ 20 < of_int a + 1" unfolding a_def by linarith+
  then have "0 \<le> a" "a \<le> 5 * 2 ^ 20" using x unfolding a_def by (simp_all add: floor_le_iff)
  then have fx: "of_int a / 2 ^ 20 \<le> fl x \<and> fl x \<le> of_int (a + 1) / 2 ^ 20"
    using a1 by (intro fl_between) (simp_all add: field_simps)
  have nx: "x * 10 = of_nat n" by (simp add: x_def)
  have "of_nat n - 1 / 4 \<le> fl x * 10" "fl x * 10 \<le> of_nat n + 1 / 4"
    using fx a1 nx by (simp_all add: field_simps)
  then have "of_int (4 * int n - 1) / 2 ^ 2 \<le> fl (fl x * 10) \<and> fl (fl x * 10) \<le> of_int (4 * int n + 1) / 2 ^ 2"
    using assms by (intro fl_between) (simp_all add: field_simps)
  then have "of_nat n - 1 / 4 \<le> fl (fl x * 10)" "fl (fl x * 10) \<le> of_nat n + 1 / 4"
    by (simp_all add: field_simps)
  then show ?thesis unfolding math_round_def x_def [symmetric] by (intro floor_unique) simp_all
qed

lemma load_count_le:
  "length es \<le> 50 \<Longrightarrow> length (filter P es) \<le> 50"
  using length_filter_le le_trans by blast

lemma load_count:
  assumes "length es \<le> 50" "now \<noteq> 0"
  shows "systemLoad now es = int (length (filter (\<lambda>e. case getTime (ev_timestamp e) of
      Some t \<Rightarrow> now - 10000 < t | None \<Rightarrow> False) es))"
proof -
  let ?P = "\<lambda>e. case getTime (ev_timestamp e) of Some t \<Rightarrow> now - 10000 < t | None \<Rightarrow> False"
  have n: "length (filter ?P es) \<le> 50" by (rule load_count_le [OF assms(1)])
  show ?thesis
    using load_exact [OF n] n assms(2) by (cases "es = []") (simp_all add: systemLoad_def Let_def)
qed

text \<open>
  The system load is the number of events of the last ten seconds, not a percentage of a
  ten-event budget: on a window of at most fifty events ten recent events read 10, and the gauge
  cannot exceed 50.
\<close>

lemma systemLoad_counts_events:
  assumes "length es \<le> 50" "now \<noteq> 0"
  shows "systemLoad now es = int (length (filter (\<lambda>e. case getTime (ev_timestamp e) of
      Some t \<Rightarrow> now - 10000 < t | None \<Rightarrow> False) es))
    \<and> 0 \<le> systemLoad now es \<and> systemLoad now es \<le> 50"
  using load_count_le [OF assms(1)] by (simp add: load_count [OF assms])

lemma systemLoad_counts_events_witness:
  "systemLoad 20000 (replicate 10 (blank_event\<lparr>ev_timestamp := Iso 15000\<rparr>)) = 10"
  using systemLoad_counts_events [of "replicate 10 (blank_event\<lparr>ev_timestamp := Iso 15000\<rparr>)" 20000]
  by simp

text \<open>
  The fraud figures are percentages: the threat ratio is between 0 and 100 for every window, in
  demo mode the fraud rate equals it, and the alert count never exceeds the window.
\<close>

lemma metrics_bounds:
  "0 \<le> threatRatio es \<and> threatRatio es \<le> 100
   \<and> me_fraudRate (metrics_of now (s\<lparr>tl_demo := True\<rparr>)) = threatRatio (tl_events s)
   \<and> me_activeAlerts (metrics_of now s) \<le> length (tl_events s)
   \<and> threatRatio [] = 0"
  using percent_of_bounds [of flagged es] by (simp add: threatRatio_def metrics_of_def percent_of_def)

text \<open>The label cache is transparent.\<close>

definition labels_ok :: "(iso \<Rightarrow> string) \<Rightarrow> (iso \<rightharpoonup> string) \<Rightarrow> bool" where
  "labels_ok locale_time cache \<longleftrightarrow> (\<forall>t l. cache t = Some l \<longrightarrow> l = locale_time t)"

lemma history_loop_labels:
  "labels_ok locale_time cache \<Longrightarrow> labels_ok locale_time (snd (history_loop locale_time es cache))
    \<and> map hp_time (fst (history_loop locale_time es cache)) = map (\<lambda>e. locale_time (ev_timestamp e)) es
    \<and> map hp_fraud (fst (history_loop locale_time es cache)) = map (\<lambda>e. if flagged e then 1 else 0) es"
proof (induction es arbitrary: cache)
  case (Cons e es)
  obtain l c where f: "formatTimeLabel locale_time (ev_timestamp e) cache = (l, c)" by fastforce
  with Cons.prems have "l = locale_time (ev_timestamp e)" "labels_ok locale_time c"
    by (auto simp: formatTimeLabel_def labels_ok_def split: option.splits if_splits)
  with Cons.IH [of c] f show ?case by (auto split: prod.splits)
qed simp

text \<open>
  Caching time labels does not change what is drawn: from any cache filled by the program, the
  series has one point per event, in reverse order of the window, with the label of its own
  timestamp and its fraud mark.
\<close>

lemma history_exact:
  assumes "labels_ok locale_time cache"
  shows "map hp_time (fst (history locale_time es cache)) = map (\<lambda>e. locale_time (ev_timestamp e)) (rev es)
    \<and> map hp_fraud (fst (history locale_time es cache)) = map (\<lambda>e. if flagged e then 1 else 0) (rev es)
    \<and> labels_ok locale_time (snd (history locale_time es cache))"
  using history_loop_labels [OF assms] by (simp add: history_def)

lemma history_exact_witness:
  "map hp_time (fst (history (\<lambda>_. ''10:00'') [blank_event, blank_event] Map.empty)) = [''10:00'', ''10:00'']"
  using history_exact [of "\<lambda>_. ''10:00''" Map.empty "[blank_event, blank_event]"]
  by (simp add: labels_ok_def)

section \<open>Loading and unmounting\<close>

text \<open>Overview and window are the bodies of two 2xx answers, requested one after the other.\<close>

definition loaded_from :: "env \<Rightarrow> 'srv api \<Rightarrow> 'srv telemetry \<Rightarrow> 'srv telemetry \<Rightarrow> bool" where
  "loaded_from ev api s s' \<longleftrightarrow> (\<exists>ovr evr ov w1 w2.
     fetchWithRefresh ev (ep_refresh api) (ep_overview api)
       (get_request (getAPIURL ev @ ''/api/v1/analytics/overview'')) (tl_world s) = (Inr ovr, w1)
     \<and> fetchWithRefresh ev (ep_refresh api) (ep_events api)
       (get_request (getAPIURL ev @ ''/api/v1/analytics/events?limit=50'')) w1 = (Inr evr, w2)
     \<and> ok ovr \<and> ok evr \<and> rs_json ovr = Inr ov \<and> rs_json evr = Inr (tl_events s') \<and> tl_overview s' = Some ov)"

text \<open>
  A refresh always ends with the loading flag cleared and never throws; an error leaves the
  last events in place, and without one both answers were 2xx and the window is the server's.
\<close>

lemma telemetry_refresh_outcome:
  "\<exists>s'. telemetry_refresh ev api s = (Inr (), s') \<and> \<not> tl_loading s'
    \<and> (case fst (telemetry_load ev api s) of
         Inl e \<Rightarrow> tl_error s' = Some (message_or e ''Analytics API unavailable'') \<and> tl_events s' = tl_events s
           \<and> tl_demo s' = tl_demo s
       | Inr _ \<Rightarrow> tl_error s' = None \<and> \<not> tl_demo s' \<and> loaded_from ev api s s')"
proof -
  obtain r s1 where l: "telemetry_load ev api s = (r, s1)" by fastforce
  have keep: "tl_events s1 = tl_events s \<and> tl_demo s1 = tl_demo s" if "r = Inl e" for e
    using l that by (auto simp: telemetry_load_def both_def comp_defs on_telemetry_def json_of_def
        split: prod.splits sum.splits if_splits)
  have done1: "tl_error s1 = None \<and> \<not> tl_demo s1 \<and> loaded_from ev api s s1" if "r = Inr u" for u
    using l that by (auto simp: loaded_from_def telemetry_load_def both_def comp_defs on_telemetry_def json_of_def
        split: prod.splits sum.splits if_splits)
  show ?thesis
    using keep done1 by (cases r) (auto simp: telemetry_refresh_def finallyE_def catchE_def modifyE_def l loaded_from_def)
qed

text \<open>
  The timers survive the component. The cleanup functions that would stop them are returned
  from a promise callback and lost: after the probe has answered, unmounting stops neither the
  polling nor the simulated stream, which goes on changing the state.
\<close>

lemma unmount_leaks_timers:
  assumes "\<not> tl_cancelled s"
  shows "tl_poll_timer (unmount (probe_done clk now True s))
    \<and> tl_tick_timer (unmount (probe_done clk now False s))
    \<and> tl_stream (demo_tick t (unmount (probe_done clk now False s))) \<noteq> tl_stream (probe_done clk now False s)"
proof -
  let ?s = "unmount (probe_done clk now False s)"
  have t: "tl_tick_timer ?s" "tl_stream ?s = tl_stream (probe_done clk now False s)"
    using assms by (simp_all add: unmount_def probe_done_def enter_demo_def Let_def)
  obtain e ds where d: "demoTick t (tl_stream ?s) = (e, ds)" by fastforce
  then have "ds_seq ds = ds_seq (tl_stream ?s) + 1" by (rule demoTick_laws(5))
  then have "ds \<noteq> tl_stream ?s" by auto
  with t d assms show ?thesis by (simp add: demo_tick_eq) (simp add: unmount_def probe_done_def)
qed

lemma unmount_leaks_timers_witness: "tl_poll_timer (unmount (probe_done id 0 True idle_telemetry))"
  using unmount_leaks_timers [of idle_telemetry id 0] by (simp add: idle_telemetry_def telemetry_init_def)

text \<open>Until the clock has started the load reads zero, and an unmounted clock stands still.\<close>

lemma load_before_clock: "systemLoad (ck_now clock_mount) es = 0"
  by (simp add: systemLoad_def clock_mount_def)

lemma clock_stops: "clock_tick t (clock_kickoff u (clock_unmount c)) = clock_unmount c"
  by (simp add: clock_tick_def clock_kickoff_def clock_unmount_def)

lemma context_set_once:
  "lc_seen c \<Longrightarrow> \<not> lc_timer c \<Longrightarrow> lc_lastEventAt (context_timer now (context_effect n c)) = lc_lastEventAt c"
  by (simp add: context_effect_def context_timer_def)

end
