(* ===== verification/Telemetry.thy ===== *)
theory Telemetry
  imports Analytics Web_Socket
begin

text \<open>
  The telemetry hook of \<open>hooks/useAnalytics.ts\<close> from mount on, as a machine driven by the answer of
  the backend probe, its timers, the socket and unmounting: which of its two modes it is in, and what
  can change that; and the same hook with the socket that it opens through \<open>hooks/useWebSocket.ts\<close>. The
  \<open>refresh\<close> that the hook returns is called by no component, so it is no input of the machine.
\<close>

section \<open>The machine\<close>

text \<open>The first component says whether the probe is still unanswered.\<close>

type_synonym 'srv hook_state = "bool \<times> 'srv telemetry"

datatype telemetry_input = ProbeAnswer "nat \<Rightarrow> nat" int | PollTimer | TickTimer nat | Arrival analytics_event | Unmount

definition probe_answer :: "env \<Rightarrow> 'srv api \<Rightarrow> (nat \<Rightarrow> nat) \<Rightarrow> int \<Rightarrow> 'srv telemetry \<Rightarrow> 'srv telemetry" where
  "probe_answer ev api clk now s = (case probeBackend ev api (tl_world s) of (r, w) \<Rightarrow>
     let s1 = s\<lparr>tl_world := w\<rparr>; s2 = probe_done clk now (r = Inr True) s1
     in if \<not> tl_cancelled s1 \<and> r = Inr True then snd (telemetry_refresh ev api s2) else s2)"

fun hook_step :: "env \<Rightarrow> 'srv api \<Rightarrow> telemetry_input \<Rightarrow> 'srv hook_state \<Rightarrow> 'srv hook_state" where
  "hook_step ev api (ProbeAnswer clk now) (pending, s) = (if pending then (False, probe_answer ev api clk now s) else (pending, s))"
| "hook_step ev api PollTimer (pending, s) = (pending, if tl_poll_timer s then snd (telemetry_refresh ev api s) else s)"
| "hook_step ev api (TickTimer now) (pending, s) = (pending, demo_tick now s)"
| "hook_step ev api (Arrival e) (pending, s) = (pending, if tl_cancelled s then s else live_event e s)"
| "hook_step ev api Unmount (pending, s) = (pending, unmount s)"

section \<open>What the parts leave alone\<close>

lemma telemetry_refresh_frame:
  "tl_poll_timer (snd (telemetry_refresh ev api s)) = tl_poll_timer s
   \<and> tl_tick_timer (snd (telemetry_refresh ev api s)) = tl_tick_timer s
   \<and> tl_cancelled (snd (telemetry_refresh ev api s)) = tl_cancelled s
   \<and> (tl_demo (snd (telemetry_refresh ev api s)) \<longrightarrow> tl_demo s)"
  by (auto simp: telemetry_refresh_def telemetry_load_def finallyE_def both_def comp_defs on_telemetry_def json_of_def
      split: prod.splits sum.splits if_splits)

lemma demo_tick_frame:
  "tl_poll_timer (demo_tick t s) = tl_poll_timer s \<and> tl_tick_timer (demo_tick t s) = tl_tick_timer s
   \<and> tl_demo (demo_tick t s) = tl_demo s \<and> tl_world (demo_tick t s) = tl_world s
   \<and> tl_error (demo_tick t s) = tl_error s \<and> tl_loading (demo_tick t s) = tl_loading s
   \<and> (\<not> tl_tick_timer s \<longrightarrow> demo_tick t s = s)"
  by (auto simp: demo_tick_def split: prod.split)

lemma live_event_frame:
  "tl_poll_timer (live_event e s) = tl_poll_timer s \<and> tl_tick_timer (live_event e s) = tl_tick_timer s
   \<and> tl_demo (live_event e s) = tl_demo s \<and> (tl_demo s \<longrightarrow> live_event e s = s)"
  by (auto simp: live_event_def)

lemma unmount_frame:
  "tl_poll_timer (unmount s) = tl_poll_timer s \<and> tl_tick_timer (unmount s) = tl_tick_timer s
   \<and> tl_demo (unmount s) = tl_demo s \<and> tl_world (unmount s) = tl_world s
   \<and> tl_error (unmount s) = tl_error s \<and> tl_loading (unmount s) = tl_loading s"
  by (simp add: unmount_def)

section \<open>The modes\<close>

text \<open>No mode before the probe has answered (or for ever, when unmounted first); then one of two.\<close>

definition mode_ok :: "'srv hook_state \<Rightarrow> bool" where
  "mode_ok h \<longleftrightarrow> (case h of (pending, s) \<Rightarrow>
     (tl_demo s \<longleftrightarrow> tl_tick_timer s) \<and> \<not> (tl_poll_timer s \<and> tl_tick_timer s)
     \<and> (pending \<longrightarrow> \<not> tl_poll_timer s \<and> \<not> tl_tick_timer s)
     \<and> (tl_demo s \<longrightarrow> tl_error s = None \<and> \<not> tl_loading s))"

definition in_demo :: "'srv hook_state \<Rightarrow> bool" where
  "in_demo h \<longleftrightarrow> (case h of (pending, s) \<Rightarrow> \<not> pending \<and> tl_demo s)"

definition in_polling :: "'srv hook_state \<Rightarrow> bool" where
  "in_polling h \<longleftrightarrow> (case h of (pending, s) \<Rightarrow> \<not> pending \<and> tl_poll_timer s)"

lemma probe_answer_modes:
  assumes "\<not> tl_poll_timer s" "\<not> tl_tick_timer s" "\<not> tl_demo s"
  shows "mode_ok (False, probe_answer ev api clk now s)"
proof -
  obtain r w where p: "probeBackend ev api (tl_world s) = (r, w)" by fastforce
  let ?s = "s\<lparr>tl_world := w, tl_poll_timer := True\<rparr>"
  show ?thesis
  proof (cases "tl_cancelled s \<or> r \<noteq> Inr True")
    case True
    then show ?thesis using assms p
      by (auto simp: probe_answer_def probe_done_def enter_demo_def mode_ok_def Let_def)
  next
    case False
    then have "probe_answer ev api clk now s = snd (telemetry_refresh ev api ?s)"
      using p by (simp add: probe_answer_def probe_done_def)
    with telemetry_refresh_frame [of ev api ?s] assms show ?thesis by (auto simp: mode_ok_def)
  qed
qed

interpretation hook: machine "hook_step ev api" mode_ok for ev :: env and api :: "'srv api"
proof
  fix h :: "'srv hook_state" and i
  assume ok: "mode_ok h"
  obtain pending s where h: "h = (pending, s)" by (cases h)
  show "mode_ok (hook_step ev api i h)"
  proof (cases i)
    case (ProbeAnswer clk now)
    then show ?thesis using ok probe_answer_modes [of s ev api clk now] by (auto simp: h mode_ok_def)
  next
    case PollTimer
    then show ?thesis using ok telemetry_refresh_frame [of ev api s] by (auto simp: h mode_ok_def)
  next
    case (TickTimer t)
    then show ?thesis using ok demo_tick_frame [of t s] by (simp add: h mode_ok_def)
  next
    case (Arrival e)
    then show ?thesis using ok live_event_frame [of e s] by (simp add: h mode_ok_def)
  next
    case Unmount
    then show ?thesis using ok unmount_frame [of s] by (simp add: h mode_ok_def)
  qed
qed

lemma in_demo_step:
  "mode_ok h \<Longrightarrow> in_demo h \<Longrightarrow> in_demo (hook_step ev api i h) \<and> tl_world (snd (hook_step ev api i h)) = tl_world (snd h)"
  by (cases h; cases i) (simp_all add: in_demo_def mode_ok_def demo_tick_frame live_event_frame unmount_frame)

lemma in_polling_step: "in_polling h \<Longrightarrow> in_polling (hook_step ev api i h)"
  by (cases h; cases i)
    (simp_all add: in_polling_def telemetry_refresh_frame demo_tick_frame live_event_frame unmount_frame)

text \<open>Each mode is a machine of its own: nothing leads out of it.\<close>

interpretation demo_mode: machine "hook_step ev api" "\<lambda>h. mode_ok h \<and> in_demo h" for ev :: env and api :: "'srv api"
  by unfold_locales (simp add: in_demo_step hook.keep)

interpretation polling_mode: machine "hook_step ev api" "\<lambda>h. mode_ok h \<and> in_polling h" for ev :: env and api :: "'srv api"
  by unfold_locales (simp add: in_polling_step hook.keep)

section \<open>The hook with its socket\<close>

text \<open>
  Every rendering passes the address that the stored token gives to \<open>useWebSocket\<close>, in both modes; the
  effect there runs again when the address has changed.
\<close>

type_synonym 'srv live_hook = "'srv hook_state \<times> analytics_event hook"

definition render_socket :: "env \<Rightarrow> 'srv world \<Rightarrow> analytics_event hook \<Rightarrow> analytics_event hook" where
  "render_socket ev w s = (case fst (websocketURL ev w) of Inl e \<Rightarrow> s
     | Inr url \<Rightarrow> if url = h_url s then s else run_effect url (cleanup s))"

text \<open>
  The steps: the inputs of the hook, renderings, events of the socket and its retry timer, the effect
  that pushes the last value received, unmounting, and writes of other code to the storage.
\<close>

inductive live_step :: "env \<Rightarrow> 'srv api \<Rightarrow> 'srv live_hook \<Rightarrow> 'srv live_hook \<Rightarrow> bool" for ev api where
  Input: "(\<And>e. i \<noteq> Arrival e) \<Longrightarrow> i \<noteq> Unmount \<Longrightarrow> live_step ev api (h, s) (hook_step ev api i h, s)"
| Render: "\<not> tl_cancelled (snd h) \<Longrightarrow> live_step ev api (h, s) (h, render_socket ev (tl_world (snd h)) s)"
| SocketEvent: "ws_step s s' \<Longrightarrow> h_gen s' = h_gen s \<Longrightarrow> h_url s' = h_url s \<Longrightarrow> live_step ev api (h, s) (h, s')"
| Received: "h_data s = Some e \<Longrightarrow> live_step ev api (h, s) (hook_step ev api (Arrival e) h, s)"
| Unmounts: "live_step ev api (h, s) (hook_step ev api Unmount h, cleanup s)"
| Storage: "live_step ev api ((pending, t), s) ((pending, t\<lparr>tl_world := (tl_world t)\<lparr>w_storage := m\<rparr>\<rparr>), s)"

inductive_cases live_step_cases: "live_step ev api (h, s) (h', s')"

lemma render_socket_ok: "ws_ok s \<Longrightarrow> ws_ok (render_socket ev w s)"
  by (simp add: render_socket_def run_effect_ok split: sum.split)

lemma storage_modes [simp]:
  "mode_ok (pending, t\<lparr>tl_world := w\<rparr>) = mode_ok (pending, t)" "in_demo (pending, t\<lparr>tl_world := w\<rparr>) = in_demo (pending, t)"
  "in_polling (pending, t\<lparr>tl_world := w\<rparr>) = in_polling (pending, t)"
  by (simp_all add: mode_ok_def in_demo_def in_polling_def)

lemma live_step_ok:
  "live_step ev api (h, s) (h', s') \<Longrightarrow> mode_ok h \<Longrightarrow> ws_ok s \<Longrightarrow> mode_ok h' \<and> ws_ok s'"
  by (elim live_step_cases) (simp_all add: hook.keep render_socket_ok ws_step_ok cleanup_ok del: hook_step.simps)

lemma live_step_demo:
  "live_step ev api (h, s) (h', s') \<Longrightarrow> mode_ok h \<Longrightarrow> in_demo h
    \<Longrightarrow> in_demo h' \<and> w_sent (tl_world (snd h')) = w_sent (tl_world (snd h))"
  by (elim live_step_cases) (simp_all add: in_demo_step del: hook_step.simps)

lemma live_step_polling: "live_step ev api (h, s) (h', s') \<Longrightarrow> in_polling h \<Longrightarrow> in_polling h'"
  by (elim live_step_cases) (simp_all add: in_polling_step del: hook_step.simps)

lemma live_run:
  assumes "(live_step ev api)\<^sup>*\<^sup>* (h, s) (h', s')" "mode_ok h" "ws_ok s"
  shows "mode_ok h' \<and> ws_ok s'
    \<and> (in_demo h \<longrightarrow> in_demo h' \<and> w_sent (tl_world (snd h')) = w_sent (tl_world (snd h)))
    \<and> (in_polling h \<longrightarrow> in_polling h')"
  using assms(1)
proof (induction rule: rtranclp_induct2)
  case refl
  show ?case using assms(2,3) by simp
next
  case (step h1 s1 h2 s2)
  then show ?case
    using live_step_ok [OF step.hyps(2)] live_step_demo [OF step.hyps(2)] live_step_polling [OF step.hyps(2)] by metis
qed

text \<open>A rendering with a token leaves the hook with a socket under way or a retry scheduled.\<close>

lemma rendered_socket:
  assumes "ws_ok s" "fst (websocketURL ev w) = Inr (Some url)"
  shows "h_url (render_socket ev w s) = Some url
    \<and> ((\<exists>i. h_ref (render_socket ev w s) = Some i \<and> live (render_socket ev w s) i)
       \<or> (\<exists>d. h_timer (render_socket ev w s) = Some d \<and> 500 \<le> d \<and> d \<le> 30000))"
proof -
  have "truthy (Some url)" using assms(2) by (auto simp: websocketURL_def readE_def Let_def truthy_def split: if_splits)
  then have u: "h_url (render_socket ev w s) = Some url"
    using assms(2) by (simp add: render_socket_def run_effect_def connect_def)
  with render_socket_ok [OF assms(1), of ev w] show ?thesis by (auto simp: ws_ok_def busy_def resting_def)
qed

text \<open>
  C30: the one probe at mount decides for good. Whatever probe answers, timers, renderings, socket
  events, values received, unmounting and writes to the storage come in whatever order, the hook is in
  demo mode exactly when the simulated stream runs, and then neither polls nor shows an error. In demo
  mode it stays so for ever, makes no further HTTP request, also when the backend comes up, and ignores
  what the socket delivers; once polling it never enters demo mode, also when the backend goes down.
  Either timer, once started, keeps running, also after the component is unmounted. The socket is not
  part of the decision: in either mode a rendering with a stored token leaves a socket under way or a
  retry scheduled.
\<close>

theorem telemetry_mode_final:
  fixes w :: "'srv world" and api :: "'srv api"
  assumes "(live_step ev api)\<^sup>*\<^sup>* ((True, telemetry_init w ds), hook_init) (h, s)"
    and "(live_step ev api)\<^sup>*\<^sup>* (h, s) (h', s')"
  shows "(tl_demo (snd h) \<longleftrightarrow> tl_tick_timer (snd h))
    \<and> (tl_demo (snd h) \<longrightarrow> tl_error (snd h) = None \<and> \<not> tl_loading (snd h) \<and> \<not> tl_poll_timer (snd h)
         \<and> tl_demo (snd h') \<and> tl_tick_timer (snd h') \<and> w_sent (tl_world (snd h')) = w_sent (tl_world (snd h))
         \<and> (\<forall>e. hook_step ev api (Arrival e) h = h))
    \<and> (tl_poll_timer (snd h) \<longrightarrow> tl_poll_timer (snd h') \<and> \<not> tl_demo (snd h'))
    \<and> (\<forall>url. fst (websocketURL ev (tl_world (snd h))) = Inr (Some url) \<longrightarrow>
         (let s1 = render_socket ev (tl_world (snd h)) s in h_url s1 = Some url
           \<and> ((\<exists>i. h_ref s1 = Some i \<and> live s1 i) \<or> (\<exists>d. h_timer s1 = Some d \<and> 500 \<le> d \<and> d \<le> 30000))))"
proof -
  have "mode_ok (True, telemetry_init w ds)" by (simp add: mode_ok_def telemetry_init_def)
  with live_run [OF assms(1)] have ok: "mode_ok h" "ws_ok s" using ws_ok_init by blast+
  note later = live_run [OF assms(2) ok]
  have demo: "tl_demo (snd k) \<longleftrightarrow> in_demo k" "tl_demo (snd k) \<longleftrightarrow> tl_tick_timer (snd k)" "tl_poll_timer (snd k) \<longleftrightarrow> in_polling k"
    "tl_demo (snd k) \<longrightarrow> tl_error (snd k) = None \<and> \<not> tl_loading (snd k) \<and> \<not> tl_poll_timer (snd k)"
    if "mode_ok k" for k :: "'srv hook_state"
    using that by (cases k; auto simp: mode_ok_def in_demo_def in_polling_def)+
  have drop: "hook_step ev api (Arrival e) h = h" if "tl_demo (snd h)" for e
    using that live_event_frame [of e "snd h"] by (cases h) simp
  have ok': "mode_ok h'" using later by blast
  note d = demo [OF ok(1)] and d' = demo [OF ok']
  show ?thesis unfolding Let_def
  proof (intro conjI allI impI)
    fix url assume u: "fst (websocketURL ev (tl_world (snd h))) = Inr (Some url)"
    from rendered_socket [OF ok(2) u] show "h_url (render_socket ev (tl_world (snd h)) s) = Some url"
      "(\<exists>i. h_ref (render_socket ev (tl_world (snd h)) s) = Some i \<and> live (render_socket ev (tl_world (snd h)) s) i)
       \<or> (\<exists>d. h_timer (render_socket ev (tl_world (snd h)) s) = Some d \<and> 500 \<le> d \<and> d \<le> 30000)" by blast+
  qed (use d d' later drop in blast)+
qed

definition offline_api :: "unit api" where
  "offline_api = empty_api\<lparr>ep_overview := \<lambda>rq st. (Inl JsOther, st)\<rparr>"

theorem telemetry_mode_final_witness:
  "\<exists>h s. (live_step local_env offline_api)\<^sup>*\<^sup>* ((True, idle_telemetry), hook_init) (h, s) \<and> tl_demo (snd h)
     \<and> tl_tick_timer (snd (hook_step local_env offline_api Unmount h))"
proof -
  let ?h = "hook_step local_env offline_api (ProbeAnswer id 0) (True, idle_telemetry)"
  have demo: "tl_demo (snd ?h)"
    by (simp add: probe_answer_def probeBackend_def comp_defs authHeaders_def do_fetch_def offline_api_def
        local_env_def idle_telemetry_def telemetry_init_def probe_done_def enter_demo_def Let_def)
  have 1: "(live_step local_env offline_api)\<^sup>*\<^sup>* ((True, idle_telemetry), hook_init) (?h, hook_init)"
    by (intro r_into_rtranclp live_step.Input) simp_all
  have 2: "(live_step local_env offline_api)\<^sup>*\<^sup>* (?h, hook_init) (hook_step local_env offline_api Unmount ?h, cleanup hook_init)"
    by (intro r_into_rtranclp live_step.Unmounts)
  note final = telemetry_mode_final [where w = blank_world and ds = "\<lparr>ds_seq = 0, ds_rand = live_seed\<rparr>",
      folded idle_telemetry_def, OF 1 2]
  show ?thesis by (intro exI conjI, rule 1, rule demo) (use final demo in blast)
qed

end
