(* ===== verification/Analytics_Page.thy ===== *)
theory Analytics_Page
  imports Analytics
begin

text \<open>
  The charts of \<open>app/analytics/page.tsx\<close>: the polled rollups and the series derived from them and
  from the live window. Counter objects are association lists in insertion order (property names
  that look like array indices or belong to \<open>Object.prototype\<close>, which JavaScript treats
  differently, are not event types or actions of the system).
\<close>

record 'srv charts_page =
  cp_world :: "'srv world"
  cp_rate :: "rate_point list"
  cp_geo :: "(string \<times> int) list"
  cp_threats :: "(string \<times> int) list"

definition on_charts :: "('srv world, 'a) comp \<Rightarrow> ('srv charts_page, 'a) comp" where
  "on_charts m s = (case m (cp_world s) of (r, w) \<Rightarrow> (r, s\<lparr>cp_world := w\<rparr>))"

text \<open>\<open>load\<close>, at mount and every minute; a rejection would give an empty series.\<close>

definition charts_load :: "(int \<Rightarrow> nat) \<Rightarrow> int \<Rightarrow> env \<Rightarrow> 'srv api \<Rightarrow> ('srv charts_page, unit) comp" where
  "charts_load hours now ev api =
     bindE (catchE (on_charts (fetchFraudRate hours now ev api)) (\<lambda>_. returnE [])) (\<lambda>rate.
     bindE (modifyE (\<lambda>s. s\<lparr>cp_rate := rate\<rparr>)) (\<lambda>_.
     bindE (catchE (on_charts (fetchGeo ev api)) (\<lambda>_. returnE [])) (\<lambda>geo.
     bindE (modifyE (\<lambda>s. s\<lparr>cp_geo := geo\<rparr>)) (\<lambda>_.
     bindE (catchE (on_charts (fetchTopThreats ev api)) (\<lambda>_. returnE [])) (\<lambda>thr.
     modifyE (\<lambda>s. s\<lparr>cp_threats := thr\<rparr>))))))"

record hour_bar =
  hb_time :: string
  hb_volume :: int
  hb_blocked :: int

definition hourlyData :: "(iso \<Rightarrow> string) \<Rightarrow> rate_point list \<Rightarrow> history_point list \<Rightarrow> hour_bar list" where
  "hourlyData short_time series hist =
     (if series \<noteq> []
      then map (\<lambda>p. \<lparr>hb_time = short_time (rp_bucket p), hb_volume = rp_total p, hb_blocked = rp_fraud p\<rparr>) series
      else map (\<lambda>h. \<lparr>hb_time = hp_time h, hb_volume = int (hp_transactions h), hb_blocked = int (hp_fraud h)\<rparr>) hist)"

definition geoSeries :: "(string \<times> int) list \<Rightarrow> (string \<times> int) list" where
  "geoSeries geo = take 12 geo"

section \<open>Counters\<close>

text \<open>\<open>counts[k] = (counts[k] ?? 0) + 1\<close>.\<close>

fun bump :: "string \<Rightarrow> (string \<times> nat) list \<Rightarrow> (string \<times> nat) list" where
  "bump k [] = [(k, 1)]"
| "bump k ((l, n) # cs) = (if l = k then (l, n + 1) # cs else (l, n) # bump k cs)"

definition fraud_counts :: "analytics_event list \<Rightarrow> (string \<times> nat) list" where
  "fraud_counts es = foldl (\<lambda>cs e. if flagged e then bump (ev_type e) cs else cs) [] es"

definition palette :: "string list" where
  "palette = [''#f43f5e'', ''#f97316'', ''#eab308'', ''#06b6d4'', ''#818cf8'']"

definition fraudTypes :: "analytics_event list \<Rightarrow> (string \<times> nat \<times> string) list" where
  "fraudTypes es = map (\<lambda>(i, (name, n)). (name, n, palette ! (i mod 5))) (enumerate 0 (fraud_counts es))"

definition action_counts :: "analytics_event list \<Rightarrow> (string \<times> nat) list" where
  "action_counts es = foldl (\<lambda>cs e. if truthy (ev_action e) then bump (the (ev_action e)) cs else cs) [] es"

definition action_color :: "string \<Rightarrow> string" where
  "action_color a = (if a = ''ALLOW'' then ''#10b981'' else if a = ''REVIEW'' then ''#eab308''
     else if a = ''CHALLENGE'' then ''#f97316'' else ''#f43f5e'')"

definition actionBreakdown :: "analytics_event list \<Rightarrow> (string \<times> nat \<times> string) list" where
  "actionBreakdown es = filter (\<lambda>d. 0 < fst (snd d))
     (map (\<lambda>a. (a, default (map_of (action_counts es) a) 0, action_color a))
       [''ALLOW'', ''REVIEW'', ''CHALLENGE'', ''BLOCK''])"

definition totalScored :: "analytics_event list \<Rightarrow> nat" where
  "totalScored es = foldl (\<lambda>s d. s + fst (snd d)) 0 (actionBreakdown es)"

text \<open>
  The score histogram. \<open>buckets[i].count += 1\<close> throws a \<open>TypeError\<close> when there is no bucket \<open>i\<close>.
\<close>

definition bucket_index :: "rat \<Rightarrow> int" where
  "bucket_index s = min 4 \<lfloor>fl (s / 20)\<rfloor>"

fun bucket_loop :: "analytics_event list \<Rightarrow> nat list \<Rightarrow> exn + nat list" where
  "bucket_loop [] bs = Inr bs"
| "bucket_loop (e # es) bs =
     (let i = bucket_index (default (ev_score e) 0) in
      case get_at bs i of
        None \<Rightarrow> Inl (JsError ''Cannot read properties of undefined (reading 'count')'')
      | Some n \<Rightarrow> bucket_loop es (bs[nat i := n + 1]))"

definition scoreBuckets :: "analytics_event list \<Rightarrow> exn + nat list" where
  "scoreBuckets es = bucket_loop es [0, 0, 0, 0, 0]"

definition low_risk :: "nat list \<Rightarrow> nat" where
  "low_risk bs = bs ! 0 + bs ! 1"

definition high_risk :: "nat list \<Rightarrow> nat" where
  "high_risk bs = bs ! 3 + bs ! 4"

section \<open>The counters count\<close>

lemma bump_map_of: "map_of (bump k cs) l = (if l = k then Some (default (map_of cs k) 0 + 1) else map_of cs l)"
  by (induction k cs rule: bump.induct) auto

lemma bump_keys: "fst ` set (bump k cs) = insert k (fst ` set cs)"
  by (induction k cs rule: bump.induct) auto

lemma bump_distinct: "distinct (map fst cs) \<Longrightarrow> distinct (map fst (bump k cs))"
proof (induction k cs rule: bump.induct)
  case (2 k l n cs)
  have "l \<noteq> k \<Longrightarrow> l \<notin> fst ` set (bump k cs)" using 2(2) by (auto simp: bump_keys)
  with 2 show ?case by auto
qed simp

lemma bump_sum: "sum_list (map snd (bump k cs)) = sum_list (map snd cs) + 1"
  by (induction k cs rule: bump.induct) auto

text \<open>A counting loop over the events that satisfy a test.\<close>

lemma count_loop:
  fixes P :: "'e \<Rightarrow> bool" and f es
  assumes "distinct (map fst cs)"
  defines "r \<equiv> foldl (\<lambda>cs e. if P e then bump (f e) cs else cs) cs es"
  shows "distinct (map fst r) \<and> sum_list (map snd r) = sum_list (map snd cs) + length (filter P es)
    \<and> (\<forall>k. default (map_of r k) 0 = default (map_of cs k) 0 + length (filter (\<lambda>e. P e \<and> f e = k) es))"
  using assms(1) unfolding r_def
proof (induction es arbitrary: cs)
  case (Cons e es)
  show ?case
  proof (cases "P e")
    case True
    have "distinct (map fst (bump (f e) cs))" by (rule bump_distinct [OF Cons.prems])
    from Cons.IH [OF this] True show ?thesis by (auto simp: bump_sum bump_map_of)
  next
    case False
    then show ?thesis using Cons.IH [OF Cons.prems] by (simp cong: conj_cong)
  qed
qed simp

text \<open>
  The typology chart partitions the flagged events: its types are distinct, the slice of a type
  is the number of flagged events of that type, and the slices add up to the alert count.
\<close>

lemma fraudTypes_partition:
  "distinct (map fst (fraudTypes es))
   \<and> sum_list (map (\<lambda>d. fst (snd d)) (fraudTypes es)) = length (filter flagged es)
   \<and> (\<forall>k. default (map_of (fraud_counts es) k) 0 = length (filter (\<lambda>e. flagged e \<and> ev_type e = k) es))"
proof -
  have m: "map fst (fraudTypes es) = map fst (fraud_counts es)"
    "map (\<lambda>d. fst (snd d)) (fraudTypes es) = map snd (fraud_counts es)"
    unfolding fraudTypes_def
    by (simp_all add: comp_def split_def) (simp_all flip: map_map [of _ snd, unfolded comp_def])
  show ?thesis
    unfolding m fraud_counts_def using count_loop [of "[]" flagged ev_type es] by simp
qed

lemma bump_pos: "\<forall>c \<in> set cs. 0 < snd c \<Longrightarrow> \<forall>c \<in> set (bump k cs). 0 < snd c"
  by (induction k cs rule: bump.induct) auto

lemma count_loop_pos:
  "\<forall>c \<in> set cs. 0 < snd c \<Longrightarrow> \<forall>c \<in> set (foldl (\<lambda>cs e. if P e then bump (f e) cs else cs) cs es). 0 < snd c"
proof (induction es arbitrary: cs)
  case (Cons e es)
  then show ?case using bump_pos [of cs "f e"] by (cases "P e") simp_all
qed simp

lemma fraudTypes_pos: "list_all (\<lambda>d. 0 < fst (snd d)) (fraudTypes es)"
proof -
  have "\<forall>c \<in> set (fraud_counts es). 0 < snd c"
    using count_loop_pos [of "[]" flagged ev_type es] by (simp add: fraud_counts_def)
  then show ?thesis
    by (fastforce simp: fraudTypes_def list_all_iff in_set_enumerate_eq dest: nth_mem)
qed

text \<open>
  The radial chart counts decisions: the total in its centre is the number of events whose
  decision is one of the four it shows, and every bar is positive.
\<close>

lemma totalScored_counts:
  "totalScored es = length (filter (\<lambda>e. ev_action e \<in> {Some ''ALLOW'', Some ''REVIEW'', Some ''CHALLENGE'', Some ''BLOCK''}) es)
   \<and> list_all (\<lambda>d. 0 < fst (snd d)) (actionBreakdown es)"
proof -
  let ?n = "\<lambda>a. length (filter (\<lambda>e. ev_action e = Some a) es)"
  have "default (map_of (action_counts es) a) 0 = ?n a" if "a \<noteq> []" for a
  proof -
    have "default (map_of (action_counts es) a) 0
        = length (filter (\<lambda>e. truthy (ev_action e) \<and> the (ev_action e) = a) es)"
      using count_loop [of "[]" "\<lambda>e. truthy (ev_action e)" "\<lambda>e. the (ev_action e)" es]
      by (simp add: action_counts_def)
    moreover have "filter (\<lambda>e. truthy (ev_action e) \<and> the (ev_action e) = a) es = filter (\<lambda>e. ev_action e = Some a) es"
      using that by (intro filter_cong) (auto simp: truthy_def split: option.splits)
    ultimately show ?thesis by simp
  qed
  then have "totalScored es = ?n ''ALLOW'' + ?n ''REVIEW'' + ?n ''CHALLENGE'' + ?n ''BLOCK''"
    by (simp add: totalScored_def actionBreakdown_def)
  moreover have "?n ''ALLOW'' + ?n ''REVIEW'' + ?n ''CHALLENGE'' + ?n ''BLOCK''
      = length (filter (\<lambda>e. ev_action e \<in> {Some ''ALLOW'', Some ''REVIEW'', Some ''CHALLENGE'', Some ''BLOCK''}) es)"
    by (induction es) auto
  ultimately show ?thesis by (simp add: actionBreakdown_def list_all_iff)
qed

section \<open>The histogram\<close>

lemma bucket_index_range: "0 \<le> s \<Longrightarrow> 0 \<le> bucket_index s \<and> bucket_index s < 5"
  using dbl.ge_0 [of "s / 20"] by (auto simp: bucket_index_def)

lemma fl_neg: "x < 0 \<Longrightarrow> fl x < 0"
  using fl_pos_pos [of "- x"] by (auto simp: fl_def)

lemma bucket_index_neg: "s < 0 \<Longrightarrow> bucket_index s < 0"
  using fl_neg [of "s / 20"] by (auto simp: bucket_index_def min_def)

lemma sum_list_update_add: "i < length bs \<Longrightarrow> sum_list (bs[i := bs ! i + (1::nat)]) = sum_list bs + 1"
proof (induction bs arbitrary: i)
  case (Cons b bs)
  then show ?case by (cases i) auto
qed simp

lemma bucket_loop_ok:
  assumes "\<forall>e \<in> set es. 0 \<le> default (ev_score e) 0" "length bs = 5"
  shows "\<exists>r. bucket_loop es bs = Inr r \<and> length r = 5 \<and> sum_list r = sum_list bs + length es"
  using assms
proof (induction es arbitrary: bs)
  case (Cons e es)
  let ?i = "bucket_index (default (ev_score e) 0)"
  have i: "0 \<le> ?i" "?i < 5" using Cons.prems(1) bucket_index_range by auto
  then have g: "get_at bs ?i = Some (bs ! nat ?i)" using Cons.prems(2) by (simp add: get_at_def)
  have "length (bs[nat ?i := bs ! nat ?i + 1]) = 5" using Cons.prems(2) by simp
  from Cons.IH [OF _ this] Cons.prems(1) obtain r where
    "bucket_loop es (bs[nat ?i := bs ! nat ?i + 1]) = Inr r" "length r = 5"
    "sum_list r = sum_list (bs[nat ?i := bs ! nat ?i + 1]) + length es" by auto
  moreover have "sum_list (bs[nat ?i := bs ! nat ?i + 1]) = sum_list bs + 1"
    using i Cons.prems(2) by (intro sum_list_update_add) auto
  ultimately show ?case using g by (simp add: Let_def)
qed simp

text \<open>
  When no score is negative, the histogram is built and its five buckets account for every
  event of the window; low and high risk together never exceed it.
\<close>

lemma scoreBuckets_total:
  assumes "\<forall>e \<in> set es. 0 \<le> default (ev_score e) 0"
  shows "\<exists>bs. scoreBuckets es = Inr bs \<and> length bs = 5 \<and> sum_list bs = length es
    \<and> low_risk bs + high_risk bs \<le> length es"
proof -
  obtain r where r: "bucket_loop es [0, 0, 0, 0, 0] = Inr r" "length r = 5" "sum_list r = length es"
    using bucket_loop_ok [OF assms, of "[0, 0, 0, 0, 0]"] by auto
  obtain a b c d e where "r = [a, b, c, d, e]" using r(2) by (auto simp: numeral_eq_Suc length_Suc_conv)
  with r show ?thesis by (auto simp: scoreBuckets_def low_risk_def high_risk_def)
qed

lemma scoreBuckets_total_witness:
  "\<exists>bs. scoreBuckets [blank_event\<lparr>ev_score := Some 85\<rparr>, blank_event] = Inr bs \<and> sum_list bs = 2"
  using scoreBuckets_total [of "[blank_event\<lparr>ev_score := Some 85\<rparr>, blank_event]"]
  by (auto simp: blank_event_def)

text \<open>
  A single event with a negative score makes the page throw: the histogram indexes a bucket
  that does not exist.
\<close>

lemma scoreBuckets_negative_throws:
  assumes "\<forall>x \<in> set before. 0 \<le> default (ev_score x) 0" "ev_score e = Some s" "s < 0"
  shows "\<exists>m. scoreBuckets (before @ e # after) = Inl (JsError m)"
proof -
  have "\<exists>m. bucket_loop (before @ e # after) bs = Inl (JsError m)" if "length bs = 5" for bs
    using that assms(1)
  proof (induction before arbitrary: bs)
    case Nil
    then show ?case using bucket_index_neg [OF assms(3)] assms(2) by (simp add: Let_def get_at_def)
  next
    case (Cons x xs)
    then show ?case by (auto simp: Let_def split: option.split)
  qed
  then show ?thesis unfolding scoreBuckets_def by simp
qed

lemma scoreBuckets_negative_throws_witness:
  "\<exists>m. scoreBuckets ([] @ blank_event\<lparr>ev_score := Some (- 1)\<rparr> # []) = Inl (JsError m)"
  using scoreBuckets_negative_throws [of "[]" "blank_event\<lparr>ev_score := Some (- 1)\<rparr>" "- 1" "[]"] by simp

end
