(* ===== verification/System_Health.thy ===== *)
theory System_Health
  imports Analytics
begin

text \<open>
  \<open>app/system/page.tsx\<close>: the service probes, the derived rows and the overall verdict, together
  with the gateway's health handler (\<open>gateway/cmd/main.go\<close>) the first probe talks to.
\<close>

section \<open>The gateway's answer\<close>

text \<open>A property of a decoded JSON object, as the probe may find it.\<close>

datatype json_field = FieldAbsent | FieldBool bool | FieldString string

record health_body =
  hb_status :: json_field
  hb_redis :: json_field
  hb_auth_key :: json_field

text \<open>
  The handler writes \<open>"redis":true\<close> or \<open>false\<close>, without quotes, and the other two fields as
  strings; it answers 200 when both dependencies are fine and 503 otherwise.
\<close>

definition health_handler :: "bool \<Rightarrow> bool \<Rightarrow> health_body response" where
  "health_handler redisOK keyOK =
     (let healthy = redisOK \<and> keyOK in
      \<lparr>rs_status = (if healthy then 200 else 503),
       rs_json = Inr \<lparr>hb_status = FieldString (if healthy then ''ok'' else ''degraded''),
         hb_redis = FieldBool redisOK,
         hb_auth_key = FieldString (if keyOK then ''ok'' else ''error'')\<rparr>\<rparr>)"

section \<open>Probes\<close>

definition rarrow :: string where
  "rarrow = [CHR 0xE2, CHR 0x86, CHR 0x92]"

definition larrow :: string where
  "larrow = [CHR 0xE2, CHR 0x86, CHR 0x90]"

datatype service_status = Checking | StatusOk | Degraded | Down

record probe =
  pr_status :: service_status
  pr_detail :: "string option"
  pr_latency :: int

definition unreachable :: probe where
  "unreachable = \<lparr>pr_status = Down, pr_detail = Some ''Unreachable'', pr_latency = 0\<rparr>"

definition http_detail :: "nat \<Rightarrow> string" where
  "http_detail status = ''HTTP '' @ dec status"

text \<open>What \<open>fetch\<close> settled to, and the measured time, to the verdict of each probe.\<close>

definition gateway_probe :: "exn + health_body response \<Rightarrow> rat \<Rightarrow> probe" where
  "gateway_probe r elapsed = (case r of Inl e \<Rightarrow> unreachable
     | Inr res \<Rightarrow> let latencyMs = math_round elapsed in
         if \<not> ok res then \<lparr>pr_status = Degraded, pr_detail = Some (http_detail (rs_status res)), pr_latency = latencyMs\<rparr>
         else (case rs_json res of Inl e \<Rightarrow> unreachable
           | Inr body \<Rightarrow>
               let healthy = hb_redis body = FieldString ''true'' \<or> hb_redis body = FieldString ''ok'' in
               \<lparr>pr_status = (if healthy then StatusOk else Degraded),
                pr_detail = Some (if healthy then ''Redis + auth key OK'' else ''Dependency degraded''),
                pr_latency = latencyMs\<rparr>))"

definition auth_probe :: "exn + 'b response \<Rightarrow> rat \<Rightarrow> probe" where
  "auth_probe r elapsed = (case r of Inl e \<Rightarrow> unreachable
     | Inr res \<Rightarrow>
         if \<not> ok res then \<lparr>pr_status = Degraded, pr_detail = Some (http_detail (rs_status res)), pr_latency = math_round elapsed\<rparr>
         else \<lparr>pr_status = StatusOk, pr_detail = Some ''JWT signing key available'', pr_latency = math_round elapsed\<rparr>)"

definition analytics_probe :: "exn + 'b response \<Rightarrow> rat \<Rightarrow> probe" where
  "analytics_probe r elapsed = (case r of Inl e \<Rightarrow> unreachable
     | Inr res \<Rightarrow>
         if rs_status res = 401
         then \<lparr>pr_status = Degraded, pr_detail = Some ''Auth required (expired token)'', pr_latency = math_round elapsed\<rparr>
         else if \<not> ok res then \<lparr>pr_status = Degraded, pr_detail = Some (http_detail (rs_status res)), pr_latency = math_round elapsed\<rparr>
         else \<lparr>pr_status = StatusOk, pr_detail = Some ''ClickHouse responding'', pr_latency = math_round elapsed\<rparr>)"

section \<open>The page\<close>

text \<open>The rows, by service key, in insertion order.\<close>

type_synonym probe_state = "(string \<times> probe) list"

definition simulated :: "string \<Rightarrow> string" where
  "simulated rest = ''Simulated '' @ middot @ '' '' @ rest"

definition demoProbes :: "nat \<Rightarrow> probe_state" where
  "demoProbes n = [
     (''gateway'', \<lparr>pr_status = StatusOk, pr_detail = Some (simulated ''routing 100% of traffic''), pr_latency = 24\<rparr>),
     (''auth'', \<lparr>pr_status = StatusOk, pr_detail = Some (simulated ''RS256 keys rotating''), pr_latency = 31\<rparr>),
     (''analytics'', \<lparr>pr_status = StatusOk, pr_detail = Some (simulated ''batch inserts flowing''), pr_latency = 42\<rparr>),
     (''websocket'', \<lparr>pr_status = StatusOk, pr_detail = Some (''Simulated stream '' @ middot @ '' 1.4s cadence''), pr_latency = 0\<rparr>),
     (''clickhouse'', \<lparr>pr_status = Degraded, pr_detail = Some (simulated ''2 of 3 replicas healthy''), pr_latency = 12\<rparr>),
     (''risk'', \<lparr>pr_status = StatusOk, pr_detail = Some (simulated (dec n @ '' events in window'')), pr_latency = 18\<rparr>)]"

definition live_probes :: "probe \<Rightarrow> probe \<Rightarrow> probe \<Rightarrow> bool \<Rightarrow> nat \<Rightarrow> probe_state" where
  "live_probes gw au an isConn n = [
     (''gateway'', gw), (''auth'', au), (''analytics'', an),
     (''websocket'', \<lparr>pr_status = (if isConn then StatusOk else Down),
        pr_detail = Some (if isConn then ''Streaming live events'' else ''Reconnecting'' @ ellipsis), pr_latency = 0\<rparr>),
     (''clickhouse'', an\<lparr>pr_detail := Some (if pr_status an = StatusOk then ''Serving queries'' else ''Degraded'')\<rparr>),
     (''risk'', \<lparr>pr_status = (if pr_status an = StatusOk \<and> 0 < n then StatusOk else Degraded),
        pr_detail = Some (if 0 < n then dec n @ '' events buffered'' else ''No recent decisions''), pr_latency = 0\<rparr>)]"

definition runProbes :: "bool \<Rightarrow> probe \<Rightarrow> probe \<Rightarrow> probe \<Rightarrow> bool \<Rightarrow> nat \<Rightarrow> probe_state" where
  "runProbes demo gw au an isConn n = (if demo then demoProbes n else live_probes gw au an isConn n)"

text \<open>The services of the page, in the order of the table; three of them have a probe of their own.\<close>

record service_row =
  sv_key :: string
  sv_name :: string
  sv_probed :: bool
  sv_detail :: "string option"

definition SERVICES :: "service_row list" where
  "SERVICES = [
     \<lparr>sv_key = ''gateway'', sv_name = ''API Gateway'', sv_probed = True, sv_detail = None\<rparr>,
     \<lparr>sv_key = ''auth'', sv_name = ''Auth Service'', sv_probed = True, sv_detail = None\<rparr>,
     \<lparr>sv_key = ''analytics'', sv_name = ''Analytics API'', sv_probed = True, sv_detail = None\<rparr>,
     \<lparr>sv_key = ''websocket'', sv_name = ''WebSocket Stream'', sv_probed = False, sv_detail = Some ''Live event stream''\<rparr>,
     \<lparr>sv_key = ''clickhouse'', sv_name = ''ClickHouse OLAP'', sv_probed = False, sv_detail = Some ''Proxied via analytics API probe''\<rparr>,
     \<lparr>sv_key = ''risk'', sv_name = ''Risk Engine (ML)'', sv_probed = False, sv_detail = Some ''Proxied via gateway (protected)''\<rparr>]"

definition probe_request :: "env \<Rightarrow> string \<Rightarrow> request" where
  "probe_request ev path = get_request (getAPIURL ev @ path)"

text \<open>The analytics probe adds the stored token; unlike the fetch wrapper it never refreshes it.\<close>

definition analytics_request :: "env \<Rightarrow> 'srv world \<Rightarrow> request" where
  "analytics_request ev w = (probe_request ev ''/api/v1/analytics/overview'')\<lparr>rq_headers :=
     (if truthy (w_storage w access_key) then [''Authorization'' \<mapsto> ''Bearer '' @ the (w_storage w access_key)] else Map.empty)\<rparr>"

definition send_probe :: "('srv, 'b) endpoint \<Rightarrow> request \<Rightarrow> (exn + 'b response \<Rightarrow> probe) \<Rightarrow> 'srv world \<Rightarrow> probe \<times> 'srv world" where
  "send_probe ep rq verdict w = (case do_fetch ep rq w of (r, w') \<Rightarrow> (verdict r, w'))"

record 'srv system_page =
  sy_world :: "'srv world"
  sy_probes :: probe_state
  sy_probing :: bool
  sy_nowTs :: int

text \<open>
  One run. The three requests are independent and run left to right here; \<open>elapsed\<close> are the times
  they took, \<open>now\<close> the clock at the end, \<open>health\<close> the gateway's health endpoint.
\<close>

definition probe_run :: "env \<Rightarrow> ('srv, health_body) endpoint \<Rightarrow> 'srv api \<Rightarrow> bool \<Rightarrow> bool \<Rightarrow> nat \<Rightarrow> rat \<times> rat \<times> rat \<Rightarrow> int
    \<Rightarrow> 'srv system_page \<Rightarrow> 'srv system_page" where
  "probe_run ev health api demo isConn n elapsed now s =
     (if demo then s\<lparr>sy_probes := demoProbes n, sy_nowTs := now, sy_probing := False\<rparr>
      else case elapsed of (t1, t2, t3) \<Rightarrow>
        let (gw, w1) = send_probe health (probe_request ev ''/health'') (\<lambda>r. gateway_probe r t1) (sy_world s);
            (au, w2) = send_probe (ep_public_key api) (probe_request ev ''/api/v1/auth/public-key'') (\<lambda>r. auth_probe r t2) w1;
            (an, w3) = send_probe (ep_overview api) (analytics_request ev w2) (\<lambda>r. analytics_probe r t3) w2
        in s\<lparr>sy_world := w3, sy_probes := live_probes gw au an isConn n, sy_nowTs := now, sy_probing := False\<rparr>)"

text \<open>
  The effect depends on \<open>runProbes\<close>, which is remade when \<open>isConnected\<close>, \<open>events.length\<close> or \<open>demo\<close>
  changes: over a sequence of renderings it starts a run at the first and at every change.
\<close>

definition probe_kicks :: "(bool \<times> nat \<times> bool) list \<Rightarrow> nat" where
  "probe_kicks renders = length (remdups_adj renders)"

definition row_detail :: "probe_state \<Rightarrow> service_row \<Rightarrow> string" where
  "row_detail ps sv = default (or_else (case map_of ps (sv_key sv) of None \<Rightarrow> None | Some p \<Rightarrow> pr_detail p) (sv_detail sv)) emdash"

definition pipeline_steps :: "nat \<Rightarrow> (string \<times> bool) list" where
  "pipeline_steps n = map (\<lambda>step. (step, 0 < n))
     [''auth.events '' @ rarrow @ '' Kafka'', ''risk-engine '' @ rarrow @ '' risk.decisions'',
      ''analytics '' @ rarrow @ '' ClickHouse'', ''dashboard '' @ larrow @ '' WebSocket'']"

definition overall :: "probe_state \<Rightarrow> service_status" where
  "overall ps = (if ps = [] then Checking
     else if list_ex (\<lambda>(k, p). pr_status p = Down) ps then Down
     else if list_ex (\<lambda>(k, p). pr_status p = Degraded) ps then Degraded else StatusOk)"

definition row_status :: "probe_state \<Rightarrow> string \<Rightarrow> service_status" where
  "row_status ps key = default (map_option pr_status (map_of ps key)) Checking"

fun status_label :: "service_status \<Rightarrow> string" where
  "status_label StatusOk = ''OPERATIONAL''"
| "status_label Degraded = ''DEGRADED''"
| "status_label Down = ''DOWN''"
| "status_label Checking = ''PROBING''"

definition overall_label :: "bool \<Rightarrow> service_status \<Rightarrow> string" where
  "overall_label demo st = (if demo then ''SIMULATED'' else case st of
     Checking \<Rightarrow> ''PROBING'' @ ellipsis | StatusOk \<Rightarrow> ''OK'' | Degraded \<Rightarrow> ''DEGRADED'' | Down \<Rightarrow> ''DOWN'')"

definition latency_text :: "probe option \<Rightarrow> string" where
  "latency_text p = (case p of None \<Rightarrow> emdash
     | Some q \<Rightarrow> if pr_latency q \<noteq> 0 then dec_int (pr_latency q) @ ''ms'' else emdash)"

text \<open>\<open>Last event {Math.max(0, Math.round((nowTs - lastEventAt) / 1000))}s ago\<close>.\<close>

definition last_event_age :: "int \<Rightarrow> live_context \<Rightarrow> int option" where
  "last_event_age nowTs c = map_option (\<lambda>t. max 0 (math_round (fl (of_int (nowTs - t) / 1000))))
     (case lc_lastEventAt c of Some t \<Rightarrow> if t = 0 then None else Some t | None \<Rightarrow> None)"

section \<open>The verdict\<close>

fun severity :: "service_status \<Rightarrow> nat" where
  "severity Checking = 0"
| "severity StatusOk = 0"
| "severity Degraded = 1"
| "severity Down = 2"

text \<open>
  The overall verdict is the worst of the rows: it is as severe as some row and at least as
  severe as every row; it is OK exactly when no probed row is degraded or down.
\<close>

lemma overall_is_worst:
  assumes "ps \<noteq> []"
  shows "severity (overall ps) = Max (severity ` pr_status ` snd ` set ps)
    \<and> (overall ps = StatusOk \<longleftrightarrow> (\<forall>k p. (k, p) \<in> set ps \<longrightarrow> pr_status p \<notin> {Degraded, Down}))"
proof -
  let ?S = "severity ` pr_status ` snd ` set ps"
  have fin: "finite ?S" "?S \<noteq> {}" using assms by auto
  have row: "(k, p) \<in> set ps \<Longrightarrow> severity (pr_status p) \<in> ?S" for k p by force
  obtain k0 p0 where p0: "(k0, p0) \<in> set ps" using assms by (cases ps) auto
  consider k p where "(k, p) \<in> set ps" "pr_status p = overall ps"
    | "overall ps = StatusOk" "pr_status p0 = Checking"
  proof (cases "overall ps")
    case StatusOk
    then show ?thesis using that p0 assms by (cases "pr_status p0") (auto simp: overall_def list_ex_iff split: if_splits)
  qed (use that assms in \<open>auto simp: overall_def list_ex_iff split: if_splits\<close>)
  then have "severity (overall ps) \<in> ?S"
    using row p0 by cases (metis, metis severity.simps(1,2))
  moreover have "x \<le> severity (overall ps)" if "x \<in> ?S" for x
  proof -
    from that obtain k p where "(k, p) \<in> set ps" "x = severity (pr_status p)" by auto
    then show ?thesis by (cases "pr_status p") (auto simp: overall_def list_ex_iff)
  qed
  ultimately have "severity (overall ps) = Max ?S" using fin by (metis Max_eqI)
  moreover have "overall ps = StatusOk \<longleftrightarrow> (\<forall>k p. (k, p) \<in> set ps \<longrightarrow> pr_status p \<notin> {Degraded, Down})"
    using assms by (auto simp: overall_def list_ex_iff)
  ultimately show ?thesis ..
qed

lemma overall_is_worst_witness: "severity (overall (demoProbes 0)) = 1"
proof -
  have ne: "demoProbes 0 \<noteq> []" by (simp add: demoProbes_def)
  from overall_is_worst [OF ne] show ?thesis by (simp add: demoProbes_def)
qed

text \<open>
  The page can never report a healthy system. The probe looks for the string "true" while the
  gateway sends the boolean true, so the gateway row is never OK, whatever the state of Redis and
  of the signing key, and with it the overall verdict is degraded at best.
\<close>

lemma gateway_never_ok:
  "pr_status (gateway_probe (Inr (health_handler redisOK keyOK)) t) = Degraded
   \<and> overall (runProbes False (gateway_probe (Inr (health_handler redisOK keyOK)) t) au an isConn n) \<noteq> StatusOk"
proof -
  have d: "pr_status (gateway_probe (Inr (health_handler redisOK keyOK)) t) = Degraded"
    by (simp add: gateway_probe_def health_handler_def ok_def Let_def)
  then show ?thesis by (simp add: runProbes_def live_probes_def overall_def)
qed

text \<open>
  The age of the last event is the age of the first: once the context has recorded an event,
  no later arrival changes the instant, so the displayed age only grows while events stream in.
\<close>

lemma last_event_age_grows:
  fixes arrivals :: "(nat \<times> int) list"
  assumes "lc_seen c" "\<not> lc_timer c" "lc_lastEventAt c = Some t" "t \<noteq> 0" "nowTs \<le> nowTs'"
  defines "c' \<equiv> fold (\<lambda>(n, clock) c. context_timer clock (context_effect n c)) arrivals c"
  shows "lc_lastEventAt c' = Some t
    \<and> (\<exists>a b. last_event_age nowTs c = Some a \<and> last_event_age nowTs' c' = Some b \<and> a \<le> b)"
proof -
  have keep: "lc_seen d \<and> \<not> lc_timer d \<and> lc_lastEventAt d = Some t \<Longrightarrow>
      lc_lastEventAt (fold (\<lambda>(n, clock) c. context_timer clock (context_effect n c)) as d) = Some t" for as d
    by (induction as arbitrary: d) (auto simp: context_timer_def context_effect_def split: prod.splits)
  then have c': "lc_lastEventAt c' = Some t" using assms(1-3) by (simp add: c'_def)
  have "math_round (fl (of_int (nowTs - t) / 1000)) \<le> math_round (fl (of_int (nowTs' - t) / 1000))"
    using assms(5) by (intro math_round_mono fl_mono divide_right_mono) auto
  with c' assms(3,4) show ?thesis by (simp add: last_event_age_def)
qed

lemma last_event_age_grows_witness:
  "last_event_age 61000 (fold (\<lambda>(n, clock) c. context_timer clock (context_effect n c)) [(2, 60000)]
     \<lparr>lc_lastEventAt = Some 1000, lc_seen = True, lc_timer = False\<rparr>) \<noteq> None"
  using last_event_age_grows [where c = "\<lparr>lc_lastEventAt = Some 1000, lc_seen = True, lc_timer = False\<rparr>"
      and t = 1000 and nowTs = 61000 and nowTs' = 61000 and arrivals = "[(2, 60000)]"]
  by auto

section \<open>Runs\<close>

lemma send_probe_world:
  "snd (send_probe ep rq verdict w) = w\<lparr>w_server := snd (ep rq (w_server w)), w_sent := w_sent w @ [rq]\<rparr>"
  by (simp add: send_probe_def do_fetch_world)

text \<open>
  A probe run outside demo mode sends exactly its three requests, with the stored token on the
  analytics one, leaves the stored session as it is, also when the token has expired, ends with
  the button enabled and gives a verdict for every service of the table.
\<close>

lemma probe_run_sends:
  fixes s :: "'srv system_page" and api :: "'srv api" and health :: "('srv, health_body) endpoint"
    and ev isConn n elapsed now
  defines "s' \<equiv> probe_run ev health api False isConn n elapsed now s"
  shows "w_sent (sy_world s') = w_sent (sy_world s) @ [probe_request ev ''/health'',
      probe_request ev ''/api/v1/auth/public-key'', analytics_request ev (sy_world s)]
    \<and> w_storage (sy_world s') = w_storage (sy_world s) \<and> w_location (sy_world s') = w_location (sy_world s)
    \<and> \<not> sy_probing s' \<and> map fst (sy_probes s') = map sv_key SERVICES"
proof -
  obtain t1 t2 t3 where e: "elapsed = (t1, t2, t3)" by (cases elapsed)
  let ?w1 = "snd (send_probe health (probe_request ev ''/health'') (\<lambda>r. gateway_probe r t1) (sy_world s))"
  let ?w2 = "snd (send_probe (ep_public_key api) (probe_request ev ''/api/v1/auth/public-key'') (\<lambda>r. auth_probe r t2) ?w1)"
  have a: "analytics_request ev ?w2 = analytics_request ev (sy_world s)"
    by (simp add: analytics_request_def send_probe_world)
  show ?thesis unfolding s'_def
    by (simp add: probe_run_def e split_def Let_def a)
      (simp add: send_probe_world live_probes_def SERVICES_def)
qed

text \<open>
  While a live window fills from empty to fifty events, every new event starts another run of all
  probes: 51 of them, not one per thirty seconds.
\<close>

lemma probe_kicks_fill: "probe_kicks (map (\<lambda>n. (c, n, d)) [0..<51]) = 51"
proof -
  have "distinct (map (\<lambda>n::nat. (c, n, d)) [0..<51])" by (simp add: distinct_map inj_on_def)
  then show ?thesis by (simp add: probe_kicks_def remdups_adj_distinct)
qed

end
