(* ===== verification/Top_Bar.thy ===== *)
theory Top_Bar
  imports Session Events
begin

text \<open>
  The navigation chrome: \<open>components/layout/TopBar.tsx\<close> (command palette, notifications, clock,
  status pill), and the navigation list of \<open>components/layout/Sidebar.tsx\<close>.
\<close>

section \<open>Navigation targets\<close>

record nav_target =
  nt_label :: string
  nt_href :: string

definition NAV_TARGETS :: "nav_target list" where
  "NAV_TARGETS = [\<lparr>nt_label = ''Command Center'', nt_href = ''/''\<rparr>,
     \<lparr>nt_label = ''Threat Intel'', nt_href = ''/threats''\<rparr>,
     \<lparr>nt_label = ''Rules Engine'', nt_href = ''/rules''\<rparr>,
     \<lparr>nt_label = ''Transactions'', nt_href = ''/transactions''\<rparr>,
     \<lparr>nt_label = ''Analytics'', nt_href = ''/analytics''\<rparr>,
     \<lparr>nt_label = ''System Health'', nt_href = ''/system''\<rparr>]"

text \<open>The sidebar lists the same pages with a hint.\<close>

record nav_item = nav_target +
  ni_hint :: string

definition navItems :: "nav_item list" where
  "navItems = [\<lparr>nt_label = ''Command Center'', nt_href = ''/'', ni_hint = ''Live overview''\<rparr>,
     \<lparr>nt_label = ''Threat Intel'', nt_href = ''/threats'', ni_hint = ''Map & feed''\<rparr>,
     \<lparr>nt_label = ''Rules Engine'', nt_href = ''/rules'', ni_hint = ''Manage policy''\<rparr>,
     \<lparr>nt_label = ''Transactions'', nt_href = ''/transactions'', ni_hint = ''Event ledger''\<rparr>,
     \<lparr>nt_label = ''Analytics'', nt_href = ''/analytics'', ni_hint = ''Deep-dive''\<rparr>,
     \<lparr>nt_label = ''System Health'', nt_href = ''/system'', ni_hint = ''Services''\<rparr>]"

definition isActive :: "string \<Rightarrow> nav_item \<Rightarrow> bool" where
  "isActive pathname item \<longleftrightarrow> pathname = nt_href item \<or> pathname = nt_href item @ ''/''"

text \<open>The entries of the sidebar: label, hint, target, and whether the entry is marked.\<close>

definition sidebar_entries :: "string \<Rightarrow> (string \<times> string \<times> string \<times> bool) list" where
  "sidebar_entries pathname = map (\<lambda>item. (nt_label item, ni_hint item, nt_href item, isActive pathname item)) navItems"

section \<open>The command palette\<close>

datatype result = NavResult string string | EntityResult string string "string option"

fun result_href :: "result \<Rightarrow> string" where
  "result_href (NavResult label href) = href"
| "result_href (EntityResult label href ip) = href"

definition nav_matches :: "string \<Rightarrow> nav_target \<Rightarrow> bool" where
  "nav_matches q t \<longleftrightarrow> q = [] \<or> str_includes (toLowerCase (nt_label t)) q \<or> str_includes (toLowerCase (nt_href t)) q"

definition optional_includes :: "string option \<Rightarrow> string \<Rightarrow> bool" where
  "optional_includes v q = (case v of None \<Rightarrow> False | Some s \<Rightarrow> str_includes (toLowerCase s) q)"

definition entity_result :: "analytics_event \<Rightarrow> result" where
  "entity_result e = EntityResult
     (default (ev_ip e) ''unknown'' @ '' '' @ middot @ '' '' @ default (ev_action e) (ev_type e))
     (''/threats?q='' @ encodeURIComponent (default (ev_ip e) '''')) (ev_ip e)"

definition palette_results :: "nav_target list \<Rightarrow> analytics_event list \<Rightarrow> string \<Rightarrow> result list" where
  "palette_results navTargets events query = (let q = toLowerCase (trim query);
     nav = map (\<lambda>t. NavResult (nt_label t) (nt_href t)) (filter (nav_matches q) navTargets);
     ips = (if q \<noteq> [] then map entity_result (take 5
       (filter (\<lambda>e. optional_includes (ev_ip e) q \<or> optional_includes (ev_user_id e) q) events)) else [])
     in take 8 (nav @ ips))"

text \<open>
  The palette's state lives while the bar is mounted: \<open>paletteOpen\<close> of the bar, \<open>query\<close> and
  \<open>selected\<close> of the palette, the addresses given to \<open>window.location.assign\<close>, and whether the
  notifications and the user menu are open.
\<close>

record bar_state =
  pl_open :: bool
  pl_query :: string
  pl_selected :: int
  pl_assigned :: "string list"
  bell_open :: bool
  menu_open :: bool

definition bar_init :: bar_state where
  "bar_init = \<lparr>pl_open = False, pl_query = '''', pl_selected = 0, pl_assigned = [],
     bell_open = False, menu_open = False\<rparr>"

definition palette_close :: "bar_state \<Rightarrow> bar_state" where
  "palette_close s = s\<lparr>pl_query := '''', pl_open := False\<rparr>"

definition clampedSelected :: "result list \<Rightarrow> bar_state \<Rightarrow> int" where
  "clampedSelected results s = min (pl_selected s) (max 0 (int (length results) - 1))"

definition go_target :: "string \<Rightarrow> string" where
  "go_target href = (if startsWith href ''/'' \<and> \<not> endsWith href ''/'' \<and> \<not> str_includes href ''?'' \<and> href \<noteq> ''/''
     then href @ ''/'' else href)"

definition go :: "string \<Rightarrow> bar_state \<Rightarrow> bar_state" where
  "go href s = (palette_close s)\<lparr>pl_assigned := pl_assigned s @ [go_target href]\<rparr>"

datatype bar_input = OpenClick | KeyDown bool bool string | Type string | PaletteKey string
  | MouseEnter nat | ResultClick nat | BackdropClick
  | BellClick | BellLeave | MenuClick | MenuLeave

definition onKey :: "bool \<Rightarrow> bool \<Rightarrow> string \<Rightarrow> bar_state \<Rightarrow> bar_state" where
  "onKey meta ctrl key s = (if (meta \<or> ctrl) \<and> toLowerCase key = ''k'' then s\<lparr>pl_open := \<not> pl_open s\<rparr> else s)"

definition onKeyDown :: "result list \<Rightarrow> string \<Rightarrow> bar_state \<Rightarrow> bar_state" where
  "onKeyDown results key s =
     (if key = ''ArrowDown'' then s\<lparr>pl_selected := min (pl_selected s + 1) (int (length results) - 1)\<rparr>
      else if key = ''ArrowUp'' then s\<lparr>pl_selected := max (pl_selected s - 1) 0\<rparr>
      else if key = ''Enter'' \<and> get_at results (clampedSelected results s) \<noteq> None
      then go (result_href (the (get_at results (clampedSelected results s)))) s
      else if key = ''Escape'' then palette_close s else s)"

text \<open>
  One input, against the events on screen at that moment. The inputs of the panel need it open;
  the backdrop closes it without clearing the query. \<open>BellLeave\<close> stands for a click beside the open
  notifications or on one of them, \<open>MenuLeave\<close> for a click beside the open user menu.
\<close>

fun bar_step :: "analytics_event list \<Rightarrow> bar_input \<Rightarrow> bar_state \<Rightarrow> bar_state" where
  "bar_step events OpenClick s = s\<lparr>pl_open := True\<rparr>"
| "bar_step events (KeyDown meta ctrl key) s = onKey meta ctrl key s"
| "bar_step events (Type query) s = (if pl_open s then s\<lparr>pl_query := query\<rparr> else s)"
| "bar_step events (PaletteKey key) s = (if pl_open s
     then onKeyDown (palette_results NAV_TARGETS events (pl_query s)) key s else s)"
| "bar_step events (MouseEnter i) s = (if pl_open s \<and> i < length (palette_results NAV_TARGETS events (pl_query s))
     then s\<lparr>pl_selected := int i\<rparr> else s)"
| "bar_step events (ResultClick i) s = (let results = palette_results NAV_TARGETS events (pl_query s) in
     if pl_open s \<and> i < length results then go (result_href (results ! i)) s else s)"
| "bar_step events BackdropClick s = (if pl_open s then s\<lparr>pl_open := False\<rparr> else s)"
| "bar_step events BellClick s = s\<lparr>bell_open := \<not> bell_open s\<rparr>"
| "bar_step events BellLeave s = (if bell_open s then s\<lparr>bell_open := False\<rparr> else s)"
| "bar_step events MenuClick s = s\<lparr>menu_open := \<not> menu_open s\<rparr>"
| "bar_step events MenuLeave s = (if menu_open s then s\<lparr>menu_open := False\<rparr> else s)"

definition bar_run :: "(analytics_event list \<times> bar_input) list \<Rightarrow> bar_state \<Rightarrow> bar_state" where
  "bar_run ins s = foldl (\<lambda>s (events, i). bar_step events i s) s ins"

section \<open>Notifications, clock and status\<close>

definition notification_alerts :: "analytics_event list \<Rightarrow> analytics_event list" where
  "notification_alerts events = take 8 (filter flagged events)"

definition notification_badge :: "analytics_event list \<Rightarrow> string option" where
  "notification_badge events = (let n = length (notification_alerts events) in
     if n > 0 then Some (if n > 9 then ''9+'' else dec n) else None)"

text \<open>A row: the red icon of a blocked event, the headline and the source.\<close>

definition notification_row :: "analytics_event \<Rightarrow> bool \<times> string \<times> string" where
  "notification_row a = (ev_action a = Some ''BLOCK'',
     default (ev_action a) '''' @ '' '' @ middot @ '' score '' @ default (map_option (toFixed 1) (ev_score a)) ''-'',
     default (ev_ip a) ''unknown source'')"

definition two_digits :: "nat \<Rightarrow> string" where
  "two_digits n = padStart 2 (CHR ''0'') (dec n)"

text \<open>The clock, from the milliseconds of \<open>now\<close>.\<close>

definition mission_clock :: "int \<Rightarrow> string" where
  "mission_clock now = (let hh = nat ((now div 3600000) mod 24); mm = nat ((now div 60000) mod 60);
       ss = nat ((now div 1000) mod 60)
     in two_digits hh @ '':'' @ two_digits mm @ '':'' @ two_digits ss)"

definition status_pill :: "bool \<Rightarrow> bool \<Rightarrow> string" where
  "status_pill demo isConnected = (if demo then ''DEMO'' else if isConnected then ''LIVE'' else ''OFFLINE'')"

section \<open>Results\<close>

lemma palette_results_length: "length (palette_results ts es q) \<le> 8"
  by (simp add: palette_results_def Let_def)

lemma palette_results_blank:
  assumes "trim query = []"
  shows "palette_results NAV_TARGETS es query = map (\<lambda>t. NavResult (nt_label t) (nt_href t)) NAV_TARGETS"
proof -
  have "length NAV_TARGETS \<le> 8" by (simp add: NAV_TARGETS_def)
  moreover have "nav_matches [] = (\<lambda>t. True)" by (simp add: nav_matches_def fun_eq_iff)
  ultimately show ?thesis using assms by (simp add: palette_results_def toLowerCase_def)
qed

text \<open>What a result of a query has in common with it.\<close>

fun result_hit :: "nav_target list \<Rightarrow> analytics_event list \<Rightarrow> string \<Rightarrow> result \<Rightarrow> bool" where
  "result_hit ts es q (NavResult label href) = (\<exists>t \<in> set ts. label = nt_label t \<and> href = nt_href t
     \<and> (str_includes (toLowerCase label) q \<or> str_includes (toLowerCase href) q))"
| "result_hit ts es q (EntityResult label href ip) = (\<exists>e \<in> set es. entity_result e = EntityResult label href ip
     \<and> (optional_includes (ev_ip e) q \<or> optional_includes (ev_user_id e) q))"

lemma entity_hit:
  assumes "e \<in> set es" "optional_includes (ev_ip e) q \<or> optional_includes (ev_user_id e) q"
  shows "result_hit ts es q (entity_result e)"
  using assms by (auto simp: entity_result_def)

lemma nav_hit: "t \<in> set ts \<Longrightarrow> nav_matches q t \<Longrightarrow> result_hit ts es q (NavResult (nt_label t) (nt_href t))"
  by (auto simp: nav_matches_def str_includes_def)

lemma palette_results_hit:
  "r \<in> set (palette_results ts es query) \<Longrightarrow> toLowerCase (trim query) \<noteq> []
   \<Longrightarrow> result_hit ts es (toLowerCase (trim query)) r"
  by (auto simp: palette_results_def Let_def dest!: in_set_takeD intro!: nav_hit entity_hit
      simp del: result_hit.simps)

lemma go_target_slash: "startsWith href ''/'' \<Longrightarrow> \<not> str_includes href ''?'' \<Longrightarrow> endsWith (go_target href) ''/''"
  by (auto simp: go_target_def endsWith_def)

lemma go_target_query: "str_includes href ''?'' \<Longrightarrow> go_target href = href"
  by (simp add: go_target_def)

text \<open>
  The palette offers at most eight results; with a blank query they are the six pages, and
  otherwise every one of them contains the query, a page in its label or address, an event in its
  source address or user. Choosing an event opens the threats page with the source address as a
  query parameter that decodes to it.
\<close>

lemma palette_offers_matches:
  assumes "r \<in> set (palette_results NAV_TARGETS es query)"
  shows "length (palette_results NAV_TARGETS es query) \<le> 8
    \<and> (if trim query = [] then \<exists>t \<in> set NAV_TARGETS. r = NavResult (nt_label t) (nt_href t)
       else result_hit NAV_TARGETS es (toLowerCase (trim query)) r)
    \<and> (\<forall>label href ip. r = EntityResult label href (Some ip)
         \<longrightarrow> go_target href = ''/threats?q='' @ encodeURIComponent ip
           \<and> decodeURIComponent (drop 11 (go_target href)) = ip)"
proof (intro conjI allI impI)
  show "length (palette_results NAV_TARGETS es query) \<le> 8" by (rule palette_results_length)
  show "if trim query = [] then \<exists>t \<in> set NAV_TARGETS. r = NavResult (nt_label t) (nt_href t)
       else result_hit NAV_TARGETS es (toLowerCase (trim query)) r"
    using assms palette_results_hit [OF assms] by (auto simp: palette_results_blank toLowerCase_def)
next
  fix label href ip assume r: "r = EntityResult label href (Some ip)"
  then obtain e where "entity_result e = r"
    using assms by (auto simp: palette_results_def Let_def dest!: in_set_takeD split: if_split_asm)
  with r have h: "href = ''/threats?q='' @ encodeURIComponent ip" by (auto simp: entity_result_def default_def)
  then have "href = ''/threats'' @ ''?'' @ (''q='' @ encodeURIComponent ip)" by simp
  then have "str_includes href ''?''" unfolding str_includes_def by (metis sublist_appendI)
  with h show "go_target href = ''/threats?q='' @ encodeURIComponent ip" by (simp add: go_target_query)
  with h show "decodeURIComponent (drop 11 (go_target href)) = ip" by (simp add: decode_encode)
qed

lemma palette_offers_matches_witness:
  "decodeURIComponent (drop 11 (go_target ''/threats?q=10.0.0.7'')) = ''10.0.0.7''"
proof -
  let ?e = "blank_event\<lparr>ev_ip := Some ''10.0.0.7'', ev_action := Some ''BLOCK''\<rparr>"
  have "EntityResult (''10.0.0.7 '' @ middot @ '' BLOCK'') ''/threats?q=10.0.0.7'' (Some ''10.0.0.7'')
      \<in> set (palette_results NAV_TARGETS [?e] ''0.7'')" by code_simp
  from palette_offers_matches [OF this] show ?thesis by blast
qed

section \<open>Selecting a result\<close>

text \<open>Whether no arrow key was pressed over an empty result list.\<close>

fun arrows_safe :: "bar_state \<Rightarrow> (analytics_event list \<times> bar_input) list \<Rightarrow> bool" where
  "arrows_safe s [] \<longleftrightarrow> True"
| "arrows_safe s ((events, i) # ins) \<longleftrightarrow>
     (i = PaletteKey ''ArrowDown'' \<and> pl_open s \<longrightarrow> palette_results NAV_TARGETS events (pl_query s) \<noteq> [])
     \<and> arrows_safe (bar_step events i s) ins"

lemma bar_run_Cons: "bar_run ((events, i) # ins) s = bar_run ins (bar_step events i s)"
  by (simp add: bar_run_def)

lemmas bar_ops = onKey_def onKeyDown_def palette_close_def go_def

lemma bar_step_selected:
  "0 \<le> pl_selected s \<Longrightarrow> arrows_safe s [(events, i)] \<Longrightarrow> 0 \<le> pl_selected (bar_step events i s)"
  by (cases i) (auto simp: bar_ops Let_def Suc_le_eq)

lemma bar_run_selected: "0 \<le> pl_selected s \<Longrightarrow> arrows_safe s ins \<Longrightarrow> 0 \<le> pl_selected (bar_run ins s)"
proof (induction s ins rule: arrows_safe.induct)
  case (2 s events i ins)
  then show ?case using bar_step_selected [of s events i] by (simp add: bar_run_Cons)
qed (simp add: bar_run_def)

text \<open>
  As long as the arrow key was never pressed over an empty result list, the highlighted row is
  always one of the results, and Enter opens exactly that one, closes the palette and clears the
  query, however the results changed under the selection.
\<close>

lemma palette_enter_navigates:
  assumes "arrows_safe bar_init ins" and s: "s = bar_run ins bar_init" and "pl_open s"
    and results: "results = palette_results NAV_TARGETS events (pl_query s)" and "results \<noteq> []"
  shows "\<exists>i < length results. clampedSelected results s = int i
    \<and> bar_step events (PaletteKey ''Enter'') s = s\<lparr>pl_open := False, pl_query := '''',
        pl_assigned := pl_assigned s @ [go_target (result_href (results ! i))]\<rparr>"
proof -
  have "0 \<le> pl_selected s" using bar_run_selected [of bar_init ins] assms(1) s by (simp add: bar_init_def)
  then obtain i where i: "clampedSelected results s = int i" "i < length results"
    using assms(5) by (intro that [of "nat (clampedSelected results s)"])
      (auto simp: clampedSelected_def nat_less_iff min_def max_def Suc_le_eq)
  with assms(3) results show ?thesis by (intro exI [of _ i]) (simp add: bar_ops get_at_def)
qed

lemma palette_enter_navigates_witness:
  "pl_assigned (bar_step [] (PaletteKey ''Enter'')
     (bar_run [([], OpenClick), ([], PaletteKey ''ArrowDown''), ([], Type ''rul'')] bar_init)) = [''/rules/'']"
proof -
  let ?ins = "[([], OpenClick), ([], PaletteKey ''ArrowDown''), ([], Type ''rul'')]"
  have safe: "arrows_safe bar_init ?ins" by code_simp
  have "pl_open (bar_run ?ins bar_init)" by code_simp
  moreover have r: "palette_results NAV_TARGETS [] (pl_query (bar_run ?ins bar_init))
      = [NavResult ''Rules Engine'' ''/rules'']" by code_simp
  ultimately obtain i where "i < 1" and e: "bar_step [] (PaletteKey ''Enter'') (bar_run ?ins bar_init)
      = (bar_run ?ins bar_init)\<lparr>pl_open := False, pl_query := '''', pl_assigned := pl_assigned (bar_run ?ins bar_init)
          @ [go_target (result_href ([NavResult ''Rules Engine'' ''/rules''] ! i))]\<rparr>"
    using palette_enter_navigates [OF safe refl _ refl, of "[]"] by auto
  moreover have "pl_assigned (bar_run ?ins bar_init) = []" by code_simp
  moreover have "go_target ''/rules'' = ''/rules/''" by code_simp
  ultimately show ?thesis by simp
qed

text \<open>
  Pressing the down arrow over an empty result list leaves the selection at -1, and then Enter
  does nothing even when the next query has results: no row is highlighted and nothing is opened.
\<close>

lemma palette_dead_enter:
  fixes events' :: "analytics_event list" and qb :: string
  assumes "pl_open s" "0 \<le> pl_selected s" "palette_results NAV_TARGETS events qa = []"
  defines "s' \<equiv> bar_run [(events, Type qa), (events, PaletteKey ''ArrowDown''), (events', Type qb)] s"
  shows "clampedSelected (palette_results NAV_TARGETS events' qb) s' = -1
    \<and> bar_step events' (PaletteKey ''Enter'') s' = s'"
proof -
  have s': "s' = s\<lparr>pl_query := qb, pl_selected := -1\<rparr>"
    using assms(1-3) unfolding s'_def by (simp add: bar_run_def onKeyDown_def)
  then have c: "clampedSelected (palette_results NAV_TARGETS events' qb) s' = -1"
    by (simp add: clampedSelected_def)
  moreover have "bar_step events' (PaletteKey ''Enter'') s' = s'"
    using c s' by (simp add: onKeyDown_def get_at_def)
  ultimately show ?thesis by blast
qed

lemma palette_dead_enter_witness:
  "palette_results NAV_TARGETS [] ''rul'' = [NavResult ''Rules Engine'' ''/rules'']
   \<and> pl_assigned (bar_step [] (PaletteKey ''Enter'') (bar_run [([], Type ''zzz''), ([], PaletteKey ''ArrowDown''),
        ([], Type ''rul'')] (bar_init\<lparr>pl_open := True\<rparr>))) = []"
proof -
  let ?s = "bar_init\<lparr>pl_open := True\<rparr>"
  have "palette_results NAV_TARGETS [] ''zzz'' = []" by code_simp
  then have "bar_step [] (PaletteKey ''Enter'') (bar_run [([], Type ''zzz''), ([], PaletteKey ''ArrowDown''),
        ([], Type ''rul'')] ?s) = bar_run [([], Type ''zzz''), ([], PaletteKey ''ArrowDown''), ([], Type ''rul'')] ?s"
    using palette_dead_enter [where s = ?s and events = "[]" and qa = "''zzz''" and events' = "[]" and qb = "''rul''"] by (simp add: bar_init_def)
  moreover have "pl_assigned (bar_run [([], Type ''zzz''), ([], PaletteKey ''ArrowDown''), ([], Type ''rul'')] ?s) = []"
    by code_simp
  moreover have "palette_results NAV_TARGETS [] ''rul'' = [NavResult ''Rules Engine'' ''/rules'']" by code_simp
  ultimately show ?thesis by simp
qed

section \<open>Alerts and navigation\<close>

text \<open>
  The badge shows the number of flagged events, but never more than the eight rows of the list:
  its \<open>9+\<close> branch cannot be taken.
\<close>

lemma notification_badge_caps:
  "notification_badge events = (if filter flagged events = [] then None
     else Some (dec (min 8 (length (filter flagged events)))))"
  by (auto simp: notification_badge_def notification_alerts_def Let_def min_def)

text \<open>The page a palette entry opens is the one the sidebar marks, and no path marks two.\<close>

lemma sidebar_marks_target:
  "map (\<lambda>t. map nt_href (filter (isActive (go_target (nt_href t))) navItems)) NAV_TARGETS
   = map (\<lambda>t. [nt_href t]) NAV_TARGETS"
  by code_simp

lemma sidebar_marks_one: "length (filter (isActive pathname) navItems) \<le> 1"
proof (cases "pathname \<in> set (concat (map (\<lambda>t. [nt_href t, nt_href t @ ''/'']) navItems))")
  case True
  then show ?thesis by (auto simp: navItems_def isActive_def)
next
  case False
  then have "filter (isActive pathname) navItems = []" by (auto simp: filter_empty_conv isActive_def)
  then show ?thesis by simp
qed

lemma dec_small: "n < 10 \<Longrightarrow> dec n = [digit_char n]"
  by (simp add: dec_def radix_string_def radix_digits.simps)

lemma two_digits_length: "n < 100 \<Longrightarrow> length (two_digits n) = 2"
proof -
  assume "n < 100"
  then have "length (radix_digits 10 n) \<in> {1, 2}"
    using radix_digits.simps [of 10 n] radix_digits.simps [of 10 "n div 10"] by (auto split: if_split_asm)
  then show ?thesis by (auto simp: two_digits_def padStart_def dec_def radix_string_def)
qed

lemma clock_text_length:
  "h < 100 \<Longrightarrow> m < 100 \<Longrightarrow> t < 100
   \<Longrightarrow> length (two_digits h @ '':'' @ two_digits m @ '':'' @ two_digits t) = 8"
  by (simp add: two_digits_length)

lemma nat_mod_100: "0 < k \<Longrightarrow> k \<le> 100 \<Longrightarrow> nat (x mod k) < 100" for k :: int
  using pos_mod_bound [of k x] by linarith

lemma mission_clock_shape: "length (mission_clock now) = 8"
  unfolding mission_clock_def Let_def by (intro clock_text_length nat_mod_100) simp_all

end
