(* ===== verification/Shell.thy ===== *)
theory Shell
  imports Top_Bar
begin

text \<open>
  The application chrome around a page: \<open>components/layout/AppShell.tsx\<close> (which pages get it,
  when the boot overlay is shown, the ticker line) and, from \<open>components/hud/HUDAmbientLayer.tsx\<close>,
  the boot overlay and the ticker band. Time is in milliseconds since the overlay was mounted.
\<close>

section \<open>Which pages get the chrome\<close>

definition isLogin :: "string \<Rightarrow> bool" where
  "isLogin pathname \<longleftrightarrow> pathname = ''/login'' \<or> pathname = ''/login/''"

text \<open>What \<open>AppShell\<close> renders for a path, given the state of the gate around the chrome.\<close>

datatype shell_view = BarePage | Redirecting | Chrome

definition AppShell :: "string \<Rightarrow> gate \<Rightarrow> shell_view" where
  "AppShell pathname g = (if isLogin pathname then BarePage else if gate_open g then Chrome else Redirecting)"

definition demo_banner :: "bool \<Rightarrow> (string \<times> string) option" where
  "demo_banner demo = (if demo then Some (''DEMO MODE'', emdash
     @ '' simulated live telemetry (no backend connected). Run the platform locally for real data.'') else None)"

text \<open>
  The effect of the shell that decides on the overlay. The stored item is only ever written here,
  as \<open>String(Date.now())\<close>, and is represented by that number. The result is the new item and
  whether the overlay is scheduled.
\<close>

definition boot_gate :: "nat \<Rightarrow> nat option \<Rightarrow> nat option \<times> bool" where
  "boot_gate now stored = (let last = default stored 0 in
     if int now - int last > 45000 then (Some now, True) else (stored, False))"

fun boot_loads :: "nat list \<Rightarrow> nat option \<Rightarrow> nat list" where
  "boot_loads [] stored = []"
| "boot_loads (now # loads) stored = (let (stored', boots) = boot_gate now stored in
     if boots then now # boot_loads loads stored' else boot_loads loads stored')"

definition ticker_line :: "analytics_event \<Rightarrow> string" where
  "ticker_line e = default (ev_action e) ''ALLOW'' @ '' '' @ middot @ '' '' @ default (ev_ip e) ''unknown''
     @ '' '' @ middot @ '' RISK '' @ default (map_option (toFixed 1) (ev_score e)) emdash"

definition tickerItems :: "analytics_event list \<Rightarrow> bool \<Rightarrow> bool \<Rightarrow> string list" where
  "tickerItems events isConnected demo =
     [''SENTINEL TELEMETRY LINK ACTIVE'', ''DECISIONS BUFFERED: '' @ dec (length events),
      if isConnected then ''WS UPLINK: STABLE'' else ''WS UPLINK: RECONNECTING'']
     @ map ticker_line (take 8 events)
     @ (if demo then [''DEMO MODE '' @ emdash @ '' SIMULATED TELEMETRY''] else [])"

text \<open>The band shows the items twice, for a seamless loop, or nothing.\<close>

definition TelemetryTicker :: "bool \<Rightarrow> string list \<Rightarrow> string list option" where
  "TelemetryTicker reduceMotion items = (if reduceMotion \<or> items = [] then None else Some (items @ items))"

section \<open>The boot overlay\<close>

definition BOOT_LINES :: "string list" where
  "BOOT_LINES = [''SENTINEL CORE v4.2.1 '' @ emdash @ '' initializing'' @ ellipsis,
     ''mounting secure enclave '' @ ellipsis @ '' OK'',
     ''loading threat models [rules, velocity, ml-gbt] '' @ ellipsis @ '' OK'',
     ''establishing kafka streams '' @ ellipsis @ '' 6 partitions online'',
     ''clickhouse olap '' @ ellipsis @ '' 3 replicas verified'',
     ''syncing geo-intelligence db '' @ ellipsis @ '' 241,930 ranges'',
     ''verifying jwt ring (rs256) '' @ ellipsis @ '' keys valid'',
     ''calibrating anomaly detectors '' @ ellipsis @ '' done'',
     ''ALL SYSTEMS NOMINAL '' @ emdash @ '' WELCOME, OPERATOR'']"

datatype boot_phase = Boot | Online | Done

datatype boot_callback = SetOnline | SetDone | CallOnDone

text \<open>
  The component's state with its pending timers: the counter \<open>i\<close> of the current run of the
  effect, the next firing of its interval, the timeout of the reduced-motion branch, and the
  timeouts that no cleanup clears. \<open>bo_left\<close> records that \<open>onDone\<close> was called.
\<close>

record boot =
  bo_i :: nat
  bo_visible :: nat
  bo_phase :: boot_phase
  bo_interval :: "nat option"
  bo_skip :: "nat option"
  bo_timeouts :: "(nat \<times> boot_callback) list"
  bo_left :: bool

definition boot_init :: boot where
  "boot_init = \<lparr>bo_i = 0, bo_visible = 0, bo_phase = Boot, bo_interval = None, bo_skip = None,
     bo_timeouts = [], bo_left = False\<rparr>"

definition boot_effect :: "bool \<Rightarrow> nat \<Rightarrow> boot \<Rightarrow> boot" where
  "boot_effect reduceMotion now s = (if reduceMotion then s\<lparr>bo_skip := Some (now + 150)\<rparr>
     else s\<lparr>bo_i := 0, bo_interval := Some (now + 160)\<rparr>)"

definition boot_cleanup :: "boot \<Rightarrow> boot" where
  "boot_cleanup s = s\<lparr>bo_interval := None, bo_skip := None\<rparr>"

definition boot_line :: "nat \<Rightarrow> boot \<Rightarrow> boot" where
  "boot_line now s = (let i = bo_i s + 1; s' = s\<lparr>bo_i := i, bo_visible := i\<rparr> in
     if i \<ge> length BOOT_LINES
     then s'\<lparr>bo_interval := None, bo_timeouts := bo_timeouts s
       @ [(now + 320, SetOnline), (now + 1150, SetDone), (now + 1450, CallOnDone)]\<rparr>
     else s'\<lparr>bo_interval := Some (now + 160)\<rparr>)"

fun boot_call :: "boot_callback \<Rightarrow> boot \<Rightarrow> boot" where
  "boot_call SetOnline s = s\<lparr>bo_phase := Online\<rparr>"
| "boot_call SetDone s = s\<lparr>bo_phase := Done\<rparr>"
| "boot_call CallOnDone s = s\<lparr>bo_left := True\<rparr>"

text \<open>The timers that are due at one millisecond.\<close>

definition boot_timers :: "nat \<Rightarrow> boot \<Rightarrow> boot" where
  "boot_timers now s =
     (let s1 = (if bo_interval s = Some now then boot_line now s else s);
          s2 = (if bo_skip s1 = Some now then s1\<lparr>bo_skip := None, bo_left := True\<rparr> else s1)
      in fold (\<lambda>p. boot_call (snd p)) (filter (\<lambda>p. fst p = now) (bo_timeouts s2))
           (s2\<lparr>bo_timeouts := filter (\<lambda>p. fst p \<noteq> now) (bo_timeouts s2)\<rparr>))"

text \<open>
  The overlay over time. The shell passes \<open>() => setBooting(false)\<close>, a new function at each of its
  renderings, and \<open>onDone\<close> is a dependency of the effect: at the times in \<open>renders\<close> the effect is
  cleaned up and run again.
\<close>

fun boot_at :: "bool \<Rightarrow> (nat \<Rightarrow> bool) \<Rightarrow> nat \<Rightarrow> boot" where
  "boot_at reduceMotion renders 0 = boot_effect reduceMotion 0 boot_init"
| "boot_at reduceMotion renders (Suc t) = (let s = boot_timers (Suc t) (boot_at reduceMotion renders t) in
     if renders (Suc t) then boot_effect reduceMotion (Suc t) (boot_cleanup s) else s)"

definition boot_log :: "boot \<Rightarrow> string list" where
  "boot_log s = map (\<lambda>(i, line). ''['' @ toUpperCase (padStart 4 (CHR ''0'') (radix_string 16 (i * 137 + 40))) @ ''] '' @ line)
     (enumerate 0 (take (bo_visible s) BOOT_LINES))"

definition boot_progress :: "boot \<Rightarrow> rat" where
  "boot_progress s = fl (fl (of_nat (bo_visible s) / of_nat (length BOOT_LINES)) * 100)"

section \<open>The gate\<close>

lemma boot_gate_gap:
  assumes "sorted loads" "\<forall>t \<in> set loads. default stored 0 \<le> t" "b \<in> set (boot_loads loads stored)"
  shows "default stored 0 + 45000 < b"
  using assms
proof (induction loads arbitrary: stored)
  case (Cons now loads)
  show ?case
  proof (cases "int now - int (default stored 0) > 45000")
    case True
    with Cons.prems have "b = now \<or> b \<in> set (boot_loads loads (Some now))"
      by (auto simp: boot_gate_def Let_def)
    moreover have "now + 45000 < b" if "b \<in> set (boot_loads loads (Some now))"
      using Cons.IH [of "Some now"] Cons.prems that by (simp add: default_def)
    ultimately show ?thesis using True by linarith
  next
    case False
    then show ?thesis using Cons.IH [of stored] Cons.prems by (simp add: boot_gate_def Let_def)
  qed
qed simp

text \<open>
  However often the pages are loaded, two boot overlays are always more than 45 seconds apart.
\<close>

lemma boots_apart:
  assumes "sorted loads"
  shows "sorted_wrt (\<lambda>a b. a + 45000 < b) (boot_loads loads stored)"
  using assms
proof (induction loads arbitrary: stored)
  case (Cons now loads)
  then show ?case using boot_gate_gap [of loads "Some now"]
    by (auto simp: Let_def boot_gate_def default_def)
qed simp

lemma boots_apart_witness: "boot_loads [50000, 60000, 95000, 95001] None = [50000, 95001] \<and> 50000 + 45000 < (95001::nat)"
proof -
  have "boot_loads [50000, 60000, 95000, 95001] None = [50000, 95001]"
    by (simp add: Let_def boot_gate_def default_def)
  with boots_apart [of "[50000, 60000, 95000, 95001]" None] show ?thesis by simp
qed

section \<open>Does the overlay end?\<close>

lemma BOOT_LINES_length [simp]: "length BOOT_LINES = 9"
  by (simp add: BOOT_LINES_def)

text \<open>While the effect that started at \<open>e\<close> is running and has not printed all lines.\<close>

definition booting_since :: "nat \<Rightarrow> nat \<Rightarrow> boot \<Rightarrow> bool" where
  "booting_since e t s \<longleftrightarrow> e \<le> t \<and> t - e < 1440 \<and> bo_i s = (t - e) div 160
     \<and> bo_interval s = Some (e + 160 * (bo_i s + 1)) \<and> bo_skip s = None \<and> bo_timeouts s = []
     \<and> bo_phase s = Boot \<and> \<not> bo_left s \<and> bo_visible s \<le> 8"

lemma booting_start: "bo_timeouts s = [] \<Longrightarrow> bo_phase s = Boot \<Longrightarrow> \<not> bo_left s \<Longrightarrow> bo_visible s \<le> 8
    \<Longrightarrow> booting_since t t (boot_effect False t (boot_cleanup s))"
  by (simp add: booting_since_def boot_effect_def boot_cleanup_def)

lemma boot_timers_idle:
  "bo_interval s \<noteq> Some t \<Longrightarrow> bo_skip s \<noteq> Some t \<Longrightarrow> bo_timeouts s = [] \<Longrightarrow> boot_timers t s = s"
  by (simp add: boot_timers_def Let_def)

lemma booting_line:
  assumes "bo_interval s = Some t" "bo_skip s = None" "bo_timeouts s = []" "bo_i s + 1 < 9"
  shows "boot_timers t s = s\<lparr>bo_i := bo_i s + 1, bo_visible := bo_i s + 1, bo_interval := Some (t + 160)\<rparr>"
  using assms by (simp add: boot_timers_def boot_line_def Let_def)

lemma booting_sinceD:
  "booting_since e t s \<Longrightarrow> e \<le> t \<and> bo_i s = (t - e) div 160 \<and> bo_interval s = Some (e + 160 * (bo_i s + 1))
     \<and> bo_skip s = None \<and> bo_timeouts s = [] \<and> bo_phase s = Boot \<and> \<not> bo_left s \<and> bo_visible s \<le> 8"
  unfolding booting_since_def by blast

lemma booting_step:
  assumes b: "booting_since e t s" and in_time: "Suc t - e < 1440"
  shows "booting_since e (Suc t) (boot_timers (Suc t) s)"
proof -
  obtain i where i: "bo_i s = i" by simp
  note f = booting_sinceD [OF b, unfolded i]
  then have e: "e \<le> t" and div: "i = (t - e) div 160" and tm: "bo_interval s = Some (e + 160 * (i + 1))"
    and rest: "bo_skip s = None" "bo_timeouts s = []" "bo_phase s = Boot" "\<not> bo_left s" "bo_visible s \<le> 8"
    by blast+
  from div have low: "160 * i \<le> t - e" "t - e < 160 * (i + 1)"
    using mult_div_mod_eq [of 160 "t - e"] mod_less_divisor [OF zero_less_numeral, of "t - e"] by (simp_all add: dividend_less_times_div)
  show ?thesis
  proof (cases "Suc t = e + 160 * (i + 1)")
    case True
    then have d: "Suc t - e = 160 * (i + 1)" by simp
    have "i + 1 < 9" using in_time unfolding d by simp
    then have s': "boot_timers (Suc t) s = s\<lparr>bo_i := i + 1, bo_visible := i + 1, bo_interval := Some (Suc t + 160)\<rparr>"
      using booting_line [of s "Suc t", unfolded i] tm rest(1,2) unfolding True [symmetric] by blast
    have "(Suc t - e) div 160 = i + 1" unfolding d by (rule nonzero_mult_div_cancel_left) simp
    moreover have "Suc t + 160 = e + 160 * (i + 1 + 1)" unfolding True by (simp add: algebra_simps)
    ultimately show ?thesis
      unfolding s' booting_since_def using rest e in_time \<open>i + 1 < 9\<close> by simp
  next
    case False
    then have "bo_interval s \<noteq> Some (Suc t)" using tm by simp
    then have s': "boot_timers (Suc t) s = s" using rest by (intro boot_timers_idle) simp_all
    have "160 * i \<le> Suc t - e" "Suc t - e < 160 * (i + 1)" using low e False by linarith+
    then have "(Suc t - e) div 160 = i" by (intro div_nat_eqI) (simp_all add: algebra_simps)
    then show ?thesis unfolding s' booting_since_def using rest e in_time tm i by simp
  qed
qed

lemma boot_restarted:
  assumes gap: "\<And>t. \<exists>r. t < r \<and> r < t + 1440 \<and> renders r"
  shows "\<exists>e. booting_since e t (boot_at False renders t) \<and> (\<forall>r. e < r \<and> r \<le> t \<longrightarrow> \<not> renders r)"
proof (induction t)
  case 0
  have "booting_since 0 0 (boot_effect False 0 boot_init)"
    by (simp add: booting_since_def boot_effect_def boot_init_def)
  then show ?case by (intro exI [of _ 0]) simp
next
  case (Suc t)
  then obtain e where b: "booting_since e t (boot_at False renders t)"
    and quiet: "\<forall>r. e < r \<and> r \<le> t \<longrightarrow> \<not> renders r" by blast
  let ?s = "boot_timers (Suc t) (boot_at False renders t)"
  from gap [of e] obtain r where r: "e < r" "r < e + 1440" "renders r" by blast
  with quiet have "t < r" by (meson not_le)
  with r have fresh: "booting_since e (Suc t) ?s" by (intro booting_step [OF b]) simp
  show ?case
  proof (cases "renders (Suc t)")
    case True
    with fresh have "booting_since (Suc t) (Suc t) (boot_at False renders (Suc t))"
      by (simp add: Let_def booting_start booting_since_def [of e])
    then show ?thesis by (intro exI [of _ "Suc t"]) auto
  next
    case False
    with fresh quiet show ?thesis by (intro exI [of _ e]) (auto simp: Let_def le_Suc_eq)
  qed
qed

text \<open>
  C39: the boot overlay never ends while the shell renders at least every 1.4 seconds: the last line
  is never printed and \<open>onDone\<close> never called. The simulated stream renders the shell every 1400
  milliseconds, and the nine lines take 1440.
\<close>

theorem boot_never_ends:
  assumes "\<And>t. \<exists>r. t < r \<and> r \<le> t + 1400 \<and> renders r"
  shows "\<not> bo_left (boot_at False renders t) \<and> bo_phase (boot_at False renders t) = Boot
    \<and> bo_visible (boot_at False renders t) < length BOOT_LINES"
proof -
  have "\<exists>r. t < r \<and> r < t + 1440 \<and> renders r" for t
  proof -
    obtain r where "t < r" "r \<le> t + 1400" "renders r" using assms by blast
    then have "r < t + 1440" by linarith
    with \<open>t < r\<close> \<open>renders r\<close> show ?thesis by blast
  qed
  from boot_restarted [OF this, of t] show ?thesis by (auto simp: booting_since_def)
qed

theorem boot_never_ends_witness: "\<not> bo_left (boot_at False (\<lambda>t. t mod 1400 = 50) 1000000)"
proof -
  have "\<exists>r. t < r \<and> r \<le> t + 1400 \<and> r mod 1400 = 50" for t :: nat
  proof -
    obtain q m where qm: "t + 1350 = 1400 * q + m" "m < 1400"
      using mult_div_mod_eq [of 1400 "t + 1350"] mod_less_divisor [of 1400 "t + 1350"] by (metis zero_less_numeral)
    then have "t < 1400 * q + 50" and "1400 * q + 50 \<le> t + 1400" by linarith+
    moreover have "(1400 * q + 50) mod 1400 = 50" by simp
    ultimately show ?thesis by blast
  qed
  from boot_never_ends [of "\<lambda>t. t mod 1400 = 50", OF this] show ?thesis by blast
qed

lemma boot_call_timeouts [simp]: "bo_timeouts (boot_call c s) = bo_timeouts s"
  by (cases c) simp_all

lemma boot_calls_timeouts [simp]: "bo_timeouts (fold (\<lambda>p. boot_call (snd p)) ps s) = bo_timeouts s"
  by (induction ps arbitrary: s) simp_all

lemma boot_calls_left: "bo_left s \<or> CallOnDone \<in> snd ` set ps \<Longrightarrow> bo_left (fold (\<lambda>p. boot_call (snd p)) ps s)"
proof (induction ps arbitrary: s)
  case (Cons p ps)
  then show ?case by (cases "snd p") auto
qed simp

lemma boot_line_keeps: "set (bo_timeouts s) \<subseteq> set (bo_timeouts (boot_line t s))" "bo_left (boot_line t s) = bo_left s"
  by (auto simp: boot_line_def Let_def)

lemma boot_timers_keep:
  "p \<in> set (bo_timeouts s) \<Longrightarrow> fst p \<noteq> t \<Longrightarrow> p \<in> set (bo_timeouts (boot_timers t s))"
  using boot_line_keeps(1) [of s t] by (auto simp: boot_timers_def Let_def)

lemma boot_timers_left: "bo_left s \<or> (t, CallOnDone) \<in> set (bo_timeouts s) \<Longrightarrow> bo_left (boot_timers t s)"
  using boot_line_keeps [where s = s and t = t] unfolding boot_timers_def Let_def
  by (intro boot_calls_left) (force simp: image_iff)

lemma boot_render_keeps [simp]:
  "bo_timeouts (boot_effect r t (boot_cleanup s)) = bo_timeouts s" "bo_left (boot_effect r t (boot_cleanup s)) = bo_left s"
  by (simp_all add: boot_effect_def boot_cleanup_def)

lemma boot_pending:
  assumes "(d, CallOnDone) \<in> set (bo_timeouts (boot_at r renders t))" "t < d"
  shows "t + k < d \<Longrightarrow> (d, CallOnDone) \<in> set (bo_timeouts (boot_at r renders (t + k)))"
  using assms by (induction k) (auto simp: Let_def intro!: boot_timers_keep)

lemma boot_leaves:
  assumes "(d, CallOnDone) \<in> set (bo_timeouts (boot_at r renders t))" "t < d"
  shows "bo_left (boot_at r renders (d + k))"
proof (induction k)
  case 0
  obtain m where m: "d = Suc (t + m)" using assms(2) less_iff_Suc_add by auto
  then have "(d, CallOnDone) \<in> set (bo_timeouts (boot_at r renders (t + m)))"
    using boot_pending [OF assms, of m] by simp
  with m show ?case by (simp add: Let_def boot_timers_left)
next
  case (Suc k)
  then show ?case by (simp add: Let_def boot_timers_left)
qed

lemma boot_undisturbed:
  "t < 1440 \<Longrightarrow> \<forall>r. 0 < r \<and> r \<le> t \<longrightarrow> \<not> renders r \<Longrightarrow> booting_since 0 t (boot_at False renders t)"
proof (induction t)
  case 0
  then show ?case by (simp add: booting_since_def boot_effect_def boot_init_def)
next
  case (Suc t)
  then show ?case using booting_step [of 0 t "boot_at False renders t"] by (simp add: Let_def)
qed

text \<open>
  When the shell does not render during the first 1440 milliseconds, the overlay prints all
  lines and is gone from 2890 milliseconds on, whatever renders later: the final timeouts are not
  cancelled by a restart of the effect.
\<close>

lemma boot_ends_undisturbed:
  assumes "\<forall>r. 0 < r \<and> r \<le> 1440 \<longrightarrow> \<not> renders r" and "2890 \<le> t"
  shows "bo_left (boot_at False renders t)"
proof -
  let ?s = "boot_at False renders 1439"
  have b: "booting_since 0 1439 ?s" using assms(1) by (intro boot_undisturbed) simp_all
  then have "bo_i ?s = 8" "bo_interval ?s = Some 1440" "bo_skip ?s = None" "bo_timeouts ?s = []"
    by (simp_all add: booting_since_def)
  then have "(2890, CallOnDone) \<in> set (bo_timeouts (boot_timers 1440 ?s))"
    by (simp add: boot_timers_def boot_line_def Let_def)
  moreover have "boot_at False renders 1440 = boot_timers 1440 ?s"
    using assms(1) boot_at.simps(2) [of False renders 1439] by (simp add: Let_def)
  ultimately have "(2890, CallOnDone) \<in> set (bo_timeouts (boot_at False renders 1440))" by simp
  moreover obtain k where "t = 2890 + k" using assms(2) le_Suc_ex by blast
  ultimately show ?thesis using boot_leaves [of 2890 False renders 1440 k] by simp
qed

lemma boot_ends_undisturbed_witness: "bo_left (boot_at False (\<lambda>t. t = 2000) 3000)"
  using boot_ends_undisturbed [of "\<lambda>t. t = 2000" 3000] by simp

end
