(* ===== verification/Ambient.thy ===== *)
theory Ambient
  imports JS_Number
begin

text \<open>
  The two particle canvases: the constellation behind the pages (\<open>HUDAmbientLayer\<close> of
  \<open>components/hud/HUDAmbientLayer.tsx\<close>) and the starfield of the sign-in page (\<open>LoginStarfield\<close> of
  \<open>app/login/page.tsx\<close>): the motion of the particles, the links drawn between them, and the animation
  loop both repeat, with its visibility handler and cleanup. The loop is stated for any particles and
  the function that advances one in a canvas of given size. \<open>sqroot\<close> and \<open>sine\<close> are \<open>Math.sqrt\<close> and
  \<open>Math.sin\<close>; a list of five draws of \<open>Math.random()\<close> makes one particle.
\<close>

section \<open>Particles\<close>

record particle =
  pa_x :: rat
  pa_y :: rat
  pa_vx :: rat
  pa_vy :: rat
  pa_r :: rat

text \<open>\<open>Math.min(window.devicePixelRatio || 1, 2)\<close>, and the integer a canvas dimension is set to.\<close>

definition dpr :: "rat \<Rightarrow> rat" where
  "dpr ratio = min (if ratio \<noteq> 0 then ratio else 1) 2"

definition canvas_size :: "rat \<Rightarrow> rat \<Rightarrow> int" where
  "canvas_size inner d = \<lfloor>fl (inner * d)\<rfloor>"

definition random_velocity :: "rat \<Rightarrow> rat \<Rightarrow> rat" where
  "random_velocity d r = fl (fl (fl (r - 1 / 2) * fl (22 / 100)) * d)"

definition random_radius :: "rat \<Rightarrow> rat \<Rightarrow> rat" where
  "random_radius d r = fl (fl (fl (r * (3 / 2)) + fl (8 / 10)) * d)"

fun new_particle :: "int \<Rightarrow> int \<Rightarrow> rat \<Rightarrow> rat list \<Rightarrow> particle" where
  "new_particle width height d [a, b, c, e, f] = \<lparr>pa_x = fl (a * of_int width), pa_y = fl (b * of_int height),
     pa_vx = random_velocity d c, pa_vy = random_velocity d e, pa_r = random_radius d f\<rparr>"
| "new_particle width height d _ = \<lparr>pa_x = 0, pa_y = 0, pa_vx = 0, pa_vy = 0, pa_r = 0\<rparr>"

text \<open>One step along one axis: advance, and turn round outside the canvas.\<close>

definition move_axis :: "int \<Rightarrow> rat \<times> rat \<Rightarrow> rat \<times> rat" where
  "move_axis bound xv = (let x = fl (fst xv + snd xv) in
     (x, if x < 0 \<or> of_int bound < x then - snd xv else snd xv))"

definition move :: "int \<Rightarrow> int \<Rightarrow> particle \<Rightarrow> particle" where
  "move width height p = (let (x, vx) = move_axis width (pa_x p, pa_vx p); (y, vy) = move_axis height (pa_y p, pa_vy p)
     in p\<lparr>pa_x := x, pa_y := y, pa_vx := vx, pa_vy := vy\<rparr>)"

section \<open>Links\<close>

definition link_dist :: "rat \<Rightarrow> rat" where
  "link_dist d = fl (175 * d)"

definition dist2 :: "particle \<Rightarrow> particle \<Rightarrow> rat" where
  "dist2 a b = (let dx = fl (pa_x a - pa_x b); dy = fl (pa_y a - pa_y b) in fl (fl (dx * dx) + fl (dy * dy)))"

definition link_alpha :: "(rat \<Rightarrow> rat) \<Rightarrow> rat \<Rightarrow> particle \<Rightarrow> particle \<Rightarrow> rat option" where
  "link_alpha sqroot d a b = (let d2 = dist2 a b; l = link_dist d in
     if d2 < fl (l * l)
     then (let alpha = fl (fl (42 / 100) * fl (1 - fl (sqroot d2 / l))) in if alpha \<le> fl (2 / 100) then None else Some alpha)
     else None)"

fun links :: "(rat \<Rightarrow> rat) \<Rightarrow> rat \<Rightarrow> particle list \<Rightarrow> (particle \<times> particle \<times> rat) list" where
  "links sqroot d [] = []"
| "links sqroot d (a # ps) = List.map_filter (\<lambda>b. map_option (\<lambda>alpha. (a, b, alpha)) (link_alpha sqroot d a b)) ps @ links sqroot d ps"

definition particle_color :: "rat \<Rightarrow> particle \<Rightarrow> string" where
  "particle_color d p = (if pa_r p > 2 * d then ''rgba(129, 140, 248, 0.85)'' else ''rgba(103, 232, 249, 0.9)'')"

text \<open>The frozen variant uses \<open>Math.hypot\<close> and draws every link, however faint.\<close>

definition frozen_alpha :: "(rat \<Rightarrow> rat \<Rightarrow> rat) \<Rightarrow> rat \<Rightarrow> particle \<Rightarrow> particle \<Rightarrow> rat option" where
  "frozen_alpha hypot d a b = (let e = hypot (fl (pa_x a - pa_x b)) (fl (pa_y a - pa_y b)); l = link_dist d in
     if e < l then Some (fl (fl (42 / 100) * fl (1 - fl (e / l)))) else None)"

section \<open>The loop\<close>

text \<open>
  \<open>lo_pending\<close> lists the animation frames requested and not yet run, \<open>lo_raf\<close> the last id, which is
  the only one the cleanup cancels. Frames run only while the page is visible. The listeners are
  attached while \<open>lo_mounted\<close>.
\<close>

record 'p loop =
  lo_pending :: "nat list"
  lo_raf :: nat
  lo_running :: bool
  lo_visible :: bool
  lo_mounted :: bool
  lo_width :: int
  lo_height :: int
  lo_particles :: "'p list"

definition request_frame :: "'p loop \<Rightarrow> 'p loop" where
  "request_frame s = s\<lparr>lo_pending := lo_pending s @ [lo_raf s + 1], lo_raf := lo_raf s + 1\<rparr>"

definition start_loop :: "int \<Rightarrow> int \<Rightarrow> rat \<Rightarrow> rat list list \<Rightarrow> particle loop" where
  "start_loop width height d draws = request_frame \<lparr>lo_pending = [], lo_raf = 0, lo_running = True, lo_visible = True,
     lo_mounted = True, lo_width = width, lo_height = height,
     lo_particles = map (new_particle width height d) (take 85 draws)\<rparr>"

definition loop_tick :: "(int \<Rightarrow> int \<Rightarrow> 'p \<Rightarrow> 'p) \<Rightarrow> 'p loop \<Rightarrow> 'p loop" where
  "loop_tick adv s = (if \<not> lo_running s then s
     else request_frame (s\<lparr>lo_particles := map (adv (lo_width s) (lo_height s)) (lo_particles s)\<rparr>))"

definition ambient_tick :: "particle loop \<Rightarrow> particle loop" where
  "ambient_tick = loop_tick move"

text \<open>One display frame runs the callbacks that were requested before it.\<close>

definition display_frame :: "(int \<Rightarrow> int \<Rightarrow> 'p \<Rightarrow> 'p) \<Rightarrow> 'p loop \<Rightarrow> 'p loop" where
  "display_frame adv s = (if lo_visible s then ((loop_tick adv ^^ length (lo_pending s)) (s\<lparr>lo_pending := []\<rparr>)) else s)"

definition onVisibility :: "bool \<Rightarrow> 'p loop \<Rightarrow> 'p loop" where
  "onVisibility visible s = (let s' = s\<lparr>lo_running := visible\<rparr> in if visible then request_frame s' else s')"

definition stop_loop :: "'p loop \<Rightarrow> 'p loop" where
  "stop_loop s = s\<lparr>lo_running := False, lo_pending := filter (\<lambda>i. i \<noteq> lo_raf s) (lo_pending s), lo_mounted := False\<rparr>"

datatype loop_event = DisplayFrame | Visibility bool | ResizeTo int int | StopLoop

fun loop_step :: "(int \<Rightarrow> int \<Rightarrow> 'p \<Rightarrow> 'p) \<Rightarrow> loop_event \<Rightarrow> 'p loop \<Rightarrow> 'p loop" where
  "loop_step adv DisplayFrame s = display_frame adv s"
| "loop_step adv (Visibility v) s = (let s' = s\<lparr>lo_visible := v\<rparr> in if lo_mounted s then onVisibility v s' else s')"
| "loop_step adv (ResizeTo w h) s = (if lo_mounted s then s\<lparr>lo_width := w, lo_height := h\<rparr> else s)"
| "loop_step adv StopLoop s = (if lo_mounted s then stop_loop s else s)"

section \<open>The starfield\<close>

record star =
  st_x :: rat
  st_y :: rat
  st_r :: rat
  st_tw :: rat
  st_sp :: rat

text \<open>\<open>Math.PI\<close>; the width of the parent when there is one, half the window otherwise.\<close>

definition js_pi :: rat where
  "js_pi = 884279719003555 / 281474976710656"

definition star_canvas :: "rat option \<Rightarrow> rat \<Rightarrow> rat \<Rightarrow> int" where
  "star_canvas rect fallback d = canvas_size (default rect fallback) d"

fun new_star :: "int \<Rightarrow> int \<Rightarrow> rat \<Rightarrow> rat list \<Rightarrow> star" where
  "new_star width height d [a, b, c, e, f] = \<lparr>st_x = fl (a * of_int width), st_y = fl (b * of_int height),
     st_r = fl (fl (fl (c * fl (11 / 10)) * d) + fl (3 / 10)), st_tw = fl (fl (e * js_pi) * 2),
     st_sp = fl (fl (8 / 1000) + fl (f * fl (2 / 100)))\<rparr>"
| "new_star width height d _ = \<lparr>st_x = 0, st_y = 0, st_r = 0, st_tw = 0, st_sp = 0\<rparr>"

definition twinkle :: "int \<Rightarrow> int \<Rightarrow> star \<Rightarrow> star" where
  "twinkle width height s = s\<lparr>st_tw := fl (st_tw s + st_sp s)\<rparr>"

definition star_alpha :: "(rat \<Rightarrow> rat) \<Rightarrow> star \<Rightarrow> rat" where
  "star_alpha sine s = fl (fl (22 / 100) + fl (\<bar>sine (st_tw s)\<bar> * (1 / 2)))"

definition start_stars :: "int \<Rightarrow> int \<Rightarrow> rat \<Rightarrow> rat list list \<Rightarrow> star loop" where
  "start_stars width height d draws = request_frame \<lparr>lo_pending = [], lo_raf = 0, lo_running = True, lo_visible = True,
     lo_mounted = True, lo_width = width, lo_height = height, lo_particles = map (new_star width height d) (take 46 draws)\<rparr>"

text \<open>The starfield has no resize handler.\<close>

definition star_step :: "loop_event \<Rightarrow> star loop \<Rightarrow> star loop" where
  "star_step e s = (case e of ResizeTo _ _ \<Rightarrow> s | _ \<Rightarrow> loop_step twinkle e s)"

section \<open>How many loops run\<close>

lemma ambient_ticks:
  assumes "lo_running s"
  shows "(loop_tick adv ^^ n) s = s\<lparr>lo_pending := lo_pending s @ [lo_raf s + 1..<lo_raf s + n + 1], lo_raf := lo_raf s + n,
    lo_particles := map (adv (lo_width s) (lo_height s) ^^ n) (lo_particles s)\<rparr>"
proof (induction n)
  case (Suc n)
  let ?s = "(loop_tick adv ^^ n) s"
  have "(loop_tick adv ^^ Suc n) s = loop_tick adv ?s" by simp
  also have "\<dots> = s\<lparr>lo_pending := lo_pending s @ [lo_raf s + 1..<lo_raf s + Suc n + 1], lo_raf := lo_raf s + Suc n,
    lo_particles := map (adv (lo_width s) (lo_height s) ^^ Suc n) (lo_particles s)\<rparr>"
    using assms by (simp add: Suc.IH loop_tick_def request_frame_def comp_def)
  finally show ?case .
qed simp

lemma hide_show:
  assumes "lo_mounted s" "lo_visible s" "lo_running s"
  shows "fold (loop_step adv) [Visibility False, Visibility True] s = request_frame s"
  using assms by (simp add: onVisibility_def request_frame_def Let_def)

lemma hide_show_cycles:
  assumes "lo_mounted s" "lo_visible s" "lo_running s"
  shows "fold (loop_step adv) (concat (replicate k [Visibility False, Visibility True])) s = (request_frame ^^ k) s"
  using assms
proof (induction k arbitrary: s)
  case (Suc k)
  have "lo_mounted (request_frame s) \<and> lo_visible (request_frame s) \<and> lo_running (request_frame s)"
    using Suc.prems by (simp add: request_frame_def)
  with Suc.IH [of "request_frame s"] hide_show [OF Suc.prems] show ?case
    by (simp add: funpow_swap1)
qed simp

lemma request_frames:
  "(request_frame ^^ k) s = s\<lparr>lo_pending := lo_pending s @ [lo_raf s + 1..<lo_raf s + k + 1], lo_raf := lo_raf s + k\<rparr>"
  by (induction k) (simp_all add: request_frame_def)

text \<open>
  Hiding and showing the page starts another loop each time, on either canvas. The frame that was pending when
  the page was hidden is still pending when the handler requests a new one: after \<open>k\<close> such cycles
  every display frame moves each particle \<open>k + 1\<close> times, and so does every later one.
\<close>

lemma ambient_loops_multiply:
  fixes s :: "'p loop" and k :: nat and adv
  assumes "lo_mounted s" "lo_visible s" "lo_running s" "length (lo_pending s) = 1"
  defines "s' \<equiv> fold (loop_step adv) (concat (replicate k [Visibility False, Visibility True])) s"
  shows "lo_particles (display_frame adv s') = map (adv (lo_width s) (lo_height s) ^^ (k + 1)) (lo_particles s)
    \<and> length (lo_pending (display_frame adv s')) = k + 1"
proof -
  have s': "s' = s\<lparr>lo_pending := lo_pending s @ [lo_raf s + 1..<lo_raf s + k + 1], lo_raf := lo_raf s + k\<rparr>"
    unfolding s'_def hide_show_cycles [OF assms(1-3)] by (rule request_frames)
  then have "length (lo_pending s') = k + 1" "lo_visible s'" "lo_running s'" using assms(2-4) by simp_all
  then show ?thesis
    using ambient_ticks [of "s'\<lparr>lo_pending := []\<rparr>" "k + 1"] by (simp add: display_frame_def s')
qed

lemma ambient_loops_multiply_witness:
  "length (lo_pending (display_frame twinkle (fold (loop_step twinkle) (concat (replicate 3 [Visibility False, Visibility True]))
     (start_stars 800 600 1 [])))) = 4"
  using ambient_loops_multiply [where s = "start_stars 800 600 1 []" and k = 3 and adv = twinkle] by (simp add: start_stars_def request_frame_def)

section \<open>Stopping\<close>

lemma stopped_step:
  assumes "\<not> lo_running s" "\<not> lo_mounted s"
  shows "\<not> lo_running (loop_step adv e s) \<and> \<not> lo_mounted (loop_step adv e s) \<and> lo_particles (loop_step adv e s) = lo_particles s"
proof -
  have "(loop_tick adv ^^ n) t = t" if "\<not> lo_running t" for n t
    using that by (induction n) (simp_all add: loop_tick_def)
  then show ?thesis using assms by (cases e) (simp_all add: display_frame_def Let_def)
qed

interpretation stopped_machine: machine "loop_step adv" "\<lambda>s. \<not> lo_running s \<and> \<not> lo_mounted s"
  for adv :: "int \<Rightarrow> int \<Rightarrow> 'p \<Rightarrow> 'p"
  by unfold_locales (simp add: stopped_step)

text \<open>Unmounting stops every loop, however many there are: nothing moves afterwards.\<close>

lemma ambient_stops:
  "lo_mounted s \<Longrightarrow> lo_particles (fold (loop_step adv) (StopLoop # es) s) = lo_particles s"
proof -
  assume "lo_mounted s"
  have "lo_particles (fold (loop_step adv) es (stop_loop s)) = lo_particles (stop_loop s)"
    by (rule stopped_machine.run_frame [where f = lo_particles]) (simp_all add: stopped_step stop_loop_def)
  with \<open>lo_mounted s\<close> show ?thesis by (simp add: stop_loop_def)
qed

section \<open>Where particles go\<close>

text \<open>A particle left outside by a shrinking canvas turns round at every step and stays there.\<close>

lemma particle_stranded:
  assumes "of_int bound < x" "0 < v" "fl (x + v) = x + v" "fl (x + v - v) = x"
  shows "(move_axis bound ^^ (2 * n)) (x, v) = (x, v)"
proof -
  have "of_int bound < x + v" using assms(1,2) by linarith
  then have "move_axis bound (x, v) = (x + v, - v)" using assms(3) by (simp add: move_axis_def Let_def)
  moreover have "move_axis bound (x + v, - v) = (x, v)" using assms by (simp add: move_axis_def Let_def)
  ultimately have two: "move_axis bound (move_axis bound (x, v)) = (x, v)" by simp
  show ?thesis by (induction n) (simp_all add: two)
qed

text \<open>Inside the canvas the speed is kept and only its sign changes.\<close>

lemma move_axis_speed: "\<bar>snd (move_axis bound xv)\<bar> = \<bar>snd xv\<bar>"
  by (simp add: move_axis_def Let_def)

lemma link_alpha_visible:
  assumes "link_alpha sqroot d a b = Some alpha"
  shows "fl (2 / 100) < alpha"
  using assms by (auto simp: link_alpha_def Let_def split: if_splits)

section \<open>The stars\<close>

text \<open>The opacity of a star stays between 0.22 and 0.72, up to one rounding.\<close>

lemma star_alpha_range:
  assumes "\<And>x. \<bar>sine x\<bar> \<le> 1"
  shows "fl (22 / 100) \<le> star_alpha sine s \<and> star_alpha sine s \<le> fl (fl (22 / 100) + 1 / 2)"
proof -
  let ?a = "fl (\<bar>sine (st_tw s)\<bar> * (1 / 2))"
  have "0 \<le> \<bar>sine (st_tw s)\<bar> * (1 / 2)" "\<bar>sine (st_tw s)\<bar> * (1 / 2) \<le> 1 / 2" using assms [of "st_tw s"] by simp_all
  then have "fl 0 \<le> ?a" "?a \<le> fl (1 / 2)" by (intro fl_mono; simp)+
  moreover have "fl 0 = 0" "fl (1 / 2) = 1 / 2" by code_simp+
  ultimately have "fl (22 / 100) + 0 \<le> fl (22 / 100) + ?a" "fl (22 / 100) + ?a \<le> fl (22 / 100) + 1 / 2" by simp_all
  then have "fl (fl (22 / 100) + 0) \<le> star_alpha sine s" "star_alpha sine s \<le> fl (fl (22 / 100) + 1 / 2)"
    unfolding star_alpha_def by (intro fl_mono; simp)+
  moreover have "fl (fl (22 / 100)) = fl (22 / 100)" by code_simp
  ultimately show ?thesis by simp
qed

text \<open>A frame moves no star: it only advances its phase.\<close>

lemma twinkle_frame: "st_x (twinkle w h s) = st_x s \<and> st_y (twinkle w h s) = st_y s \<and> st_r (twinkle w h s) = st_r s"
  by (simp add: twinkle_def)

end
