(* ===== verification/Pages.thy ===== *)
theory Pages
  imports Analytics_Page Threats Widgets
begin

text \<open>
  What the pages show of the shared data: the command center (\<open>app/page.tsx\<close>), the state and panels
  of the threats page (\<open>app/threats/page.tsx\<close>), the panels of the analytics page
  (\<open>app/analytics/page.tsx\<close>) and of the ledger (\<open>app/transactions/page.tsx\<close>), with the props they pass
  to \<open>HUDStatChip\<close>, \<open>MetricCard\<close> and \<open>Gauge\<close>. A panel is the data its markup interpolates;
  \<open>show_number\<close> is the conversion of a number to a string.
\<close>

section \<open>Chips, cards and gauges\<close>

record stat_chip =
  ch_label :: string
  ch_value :: string
  ch_tone :: string

record metric_card =
  mc_title :: string
  mc_value :: rat
  mc_format :: number_format
  mc_trend :: "(rat \<times> bool) option"
  mc_ring :: "rat option"

definition trend_label :: "(rat \<Rightarrow> string) \<Rightarrow> rat \<times> bool \<Rightarrow> string" where
  "trend_label show_number t = (if snd t then ''+'' else ''-'') @ show_number \<bar>fst t\<bar> @ ''%''"

text \<open>The stroke of the ring, where the card has one: its colour and the part that is left out.\<close>

definition card_ring :: "metric_card \<Rightarrow> (string \<times> rat) option" where
  "card_ring c = map_option (\<lambda>r. (ring_color r, ring_offset r)) (mc_ring c)"

record gauge =
  ga_value :: rat
  ga_max :: rat
  ga_label :: string
  ga_unit :: string
  ga_danger :: rat
  ga_warn :: rat

text \<open>The default props.\<close>

definition new_gauge :: "rat \<Rightarrow> string \<Rightarrow> string \<Rightarrow> gauge" where
  "new_gauge value label unit = \<lparr>ga_value = value, ga_max = 100, ga_label = label, ga_unit = unit,
     ga_danger = 66, ga_warn = 33\<rparr>"

definition gauge_tone :: "gauge \<Rightarrow> string" where
  "gauge_tone g = gauge_color (gauge_pct (ga_value g) (ga_max g)) (ga_danger g) (ga_warn g)"

text \<open>Colour, angle of the needle and readout.\<close>

definition gauge_view :: "gauge \<Rightarrow> string \<times> rat \<times> string" where
  "gauge_view g = (gauge_tone g, gauge_needle (gauge_pct (ga_value g) (ga_max g)),
     toFixed 1 (ga_value g) @ ga_unit g)"

section \<open>The command center\<close>

definition command_chips :: "analytics_event list \<Rightarrow> bool \<Rightarrow> stat_chip list" where
  "command_chips events isConnected =
    [\<lparr>ch_label = ''Events'', ch_value = dec (length events), ch_tone = ''cyan''\<rparr>,
     \<lparr>ch_label = ''Threats'', ch_value = dec (length (filter flagged events)),
      ch_tone = (if list_ex (\<lambda>e. ev_action e = Some ''BLOCK'') events then ''rose'' else ''amber'')\<rparr>,
     \<lparr>ch_label = ''Uplink'', ch_value = (if isConnected then ''SYNC'' else ''DOWN''),
      ch_tone = (if isConnected then ''emerald'' else ''rose'')\<rparr>]"

definition buffered_text :: "analytics_event list \<Rightarrow> string" where
  "buffered_text events = dec (length events) @ '' events buffered''"

definition connection_label :: "bool \<Rightarrow> string" where
  "connection_label isConnected = (if isConnected then ''SYSTEM ONLINE'' else ''CONNECTION LOST'')"

definition degraded_banner :: "string option \<Rightarrow> string option" where
  "degraded_banner err = (if truthy err
     then Some (''Telemetry degraded: '' @ the err @ '' '' @ emdash @ '' showing last known state.'') else None)"

datatype chart_panel = LoadingChart | AreaChart "history_point list" | AwaitingTelemetry

definition volume_panel :: "bool \<Rightarrow> history_point list \<Rightarrow> chart_panel" where
  "volume_panel loading hist = (if loading then LoadingChart else if hist \<noteq> [] then AreaChart hist else AwaitingTelemetry)"

text \<open>The left row; \<open>None\<close> is the pair of skeletons shown while loading.\<close>

definition metric_row :: "bool \<Rightarrow> metrics \<Rightarrow> rat \<Rightarrow> metric_card list option" where
  "metric_row loading m ratio = (if loading then None else Some
    [\<lparr>mc_title = ''Total Processed'', mc_value = of_int (me_totalTransactions m), mc_format = NumberFormat,
      mc_trend = Some (ratio, False), mc_ring = None\<rparr>,
     \<lparr>mc_title = ''Fraud Rate'', mc_value = me_fraudRate m, mc_format = PercentFormat,
      mc_trend = Some (ratio, False), mc_ring = None\<rparr>])"

definition side_cards :: "metrics \<Rightarrow> bool \<Rightarrow> metric_card list" where
  "side_cards m isConnected =
    [\<lparr>mc_title = ''Active Alerts'', mc_value = of_nat (me_activeAlerts m), mc_format = NumberFormat,
      mc_trend = None, mc_ring = None\<rparr>,
     \<lparr>mc_title = ''Stream Health'', mc_value = (if isConnected then 100 else 0), mc_format = PercentFormat,
      mc_trend = None, mc_ring = Some (if isConnected then 100 else 0)\<rparr>]"

definition fraud_gauge :: "metrics \<Rightarrow> gauge" where
  "fraud_gauge m = (new_gauge (me_fraudRate m) ''Fraud Rate'' ''%'')\<lparr>ga_danger := 50, ga_warn := 25\<rparr>"

definition load_gauge :: "metrics \<Rightarrow> gauge" where
  "load_gauge m = (new_gauge (of_int (me_systemLoad m)) ''Load'' ''%'')\<lparr>ga_danger := 80, ga_warn := 60\<rparr>"

section \<open>The threats page\<close>

definition threats_chips :: "analytics_event list \<Rightarrow> stat_chip list" where
  "threats_chips events =
    [\<lparr>ch_label = ''Buffer'', ch_value = dec (length events), ch_tone = ''cyan''\<rparr>,
     \<lparr>ch_label = ''Blocked'', ch_value = dec (length (filter (\<lambda>e. ev_action e = Some ''BLOCK'') events)), ch_tone = ''rose''\<rparr>]"

definition threat_gauges :: "analytics_event list \<Rightarrow> gauge list" where
  "threat_gauges events = [new_gauge (blockedRatio events) ''Block Rate'' ''%'',
     (new_gauge (challengeRatio events) ''Challenge Rate'' ''%'')\<lparr>ga_warn := 40\<rparr>,
     (new_gauge (peakScore events) ''Peak Risk'' '''')\<lparr>ga_danger := 80, ga_warn := 60\<rparr>]"

text \<open>
  The state of the page: the window of the last rendering, the selection, the filter, the rollup
  and the set of alerted keys, with the world and the notification queue it acts on.
\<close>

record 'srv threats_page =
  tp_world :: "'srv world"
  tp_toasts :: toast_state
  tp_events :: "analytics_event list"
  tp_selected :: "geo_threat option"
  tp_filter :: map_filter
  tp_rollup :: "(string \<times> int) list"
  tp_alerted :: "string set"

definition threats_mount :: "'srv world \<Rightarrow> toast_state \<Rightarrow> 'srv threats_page" where
  "threats_mount w ts = \<lparr>tp_world = w, tp_toasts = ts, tp_events = [], tp_selected = None,
     tp_filter = AllThreats, tp_rollup = [], tp_alerted = {}\<rparr>"

text \<open>\<open>load\<close>, at mount and every minute.\<close>

definition geo_load :: "env \<Rightarrow> 'srv api \<Rightarrow> 'srv threats_page \<Rightarrow> 'srv threats_page" where
  "geo_load ev api s = (case fetchGeo ev api (tp_world s) of (r, w) \<Rightarrow>
     s\<lparr>tp_world := w, tp_rollup := (case r of Inl e \<Rightarrow> [] | Inr rows \<Rightarrow> rows)\<rparr>)"

text \<open>A rendering with a new window, after which the alert effect runs.\<close>

definition threats_render :: "analytics_event list \<Rightarrow> 'srv threats_page \<Rightarrow> 'srv threats_page" where
  "threats_render events s = (case alert_scan (tp_alerted s) events of (alerted, ts) \<Rightarrow>
     s\<lparr>tp_events := events, tp_alerted := alerted, tp_toasts := fold push_toast (map snd ts) (tp_toasts s)\<rparr>)"

abbreviation shown_threats :: "'srv threats_page \<Rightarrow> geo_threat list" where
  "shown_threats s \<equiv> page_threats (tp_filter s) (tp_events s)"

datatype threats_input = NewWindow "analytics_event list" | FilterClick map_filter | MarkerClick map_threat
  | CloseDetail | GeoTimer

fun threats_step :: "env \<Rightarrow> 'srv api \<Rightarrow> threats_input \<Rightarrow> 'srv threats_page \<Rightarrow> 'srv threats_page" where
  "threats_step ev api (NewWindow events) s = threats_render events s"
| "threats_step ev api (FilterClick mode) s = s\<lparr>tp_filter := mode\<rparr>"
| "threats_step ev api (MarkerClick t) s = s\<lparr>tp_selected := select_threat (shown_threats s) t (tp_selected s)\<rparr>"
| "threats_step ev api CloseDetail s = s\<lparr>tp_selected := None\<rparr>"
| "threats_step ev api GeoTimer s = geo_load ev api s"

definition map_subtitle :: "'srv threats_page \<Rightarrow> string" where
  "map_subtitle s = dec (length (shown_threats s)) @ '' active sources '' @ middot @ '' Natural Earth projection''"

text \<open>The detail panel: address, decision, score, position, time and badge. \<open>time\<close> is \<open>toLocaleString\<close>.\<close>

definition degree_sign :: string where
  "degree_sign = [CHR 0xC2, CHR 0xB0]"

definition detail_panel :: "(iso \<Rightarrow> string) \<Rightarrow> 'srv threats_page
    \<Rightarrow> (string \<times> string \<times> string \<times> string \<times> string \<times> risk_level) option" where
  "detail_panel time s = map_option (\<lambda>t. (mt_ip t, mt_action t, toFixed 1 (mt_score t),
     toFixed 1 (mt_lat t) @ degree_sign @ '', '' @ toFixed 1 (mt_lon t) @ degree_sign,
     time (mt_time t), riskLevel (mt_score t))) (tp_selected s)"

definition origins_subtitle :: "(string \<times> int) list \<Rightarrow> string" where
  "origins_subtitle rollup = (if rollup \<noteq> []
     then ''ClickHouse geo rollup '' @ middot @ '' '' @ dec (length rollup) @ '' countries'' else ''Awaiting geo data'')"

text \<open>The table, or the skeleton while there is no data.\<close>

definition origins_panel :: "(string \<times> int) list \<Rightarrow> (string \<times> rat option \<times> int) list option" where
  "origins_panel rollup = (if rollup \<noteq> [] then Some (geo_rows rollup) else None)"

section \<open>The analytics page\<close>

definition charts_subtitle :: "bool \<Rightarrow> string" where
  "charts_subtitle demo = (if demo then ''Simulated rollups (demo mode) '' else ''24-hour ClickHouse rollups '')
     @ middot @ '' auto-refresh 60s''"

definition charts_banner :: "string option \<Rightarrow> string option" where
  "charts_banner err = (if truthy err
     then Some (''Live window degraded: '' @ the err @ '' '' @ emdash @ '' rollups below still render from ClickHouse.'')
     else None)"

definition hourly_subtitle :: "rate_point list \<Rightarrow> string" where
  "hourly_subtitle series = (if series \<noteq> [] then ''ClickHouse hourly rollup (24h)'' else ''Live event window'')"

definition geo_subtitle :: "(string \<times> int) list \<Rightarrow> string" where
  "geo_subtitle series = (if series \<noteq> [] then ''Top '' @ dec (length series) @ '' countries by volume'' else ''Awaiting geo data'')"

definition cell_palette :: "string list" where
  "cell_palette = [''#22d3ee'', ''#818cf8'', ''#f97316'', ''#f43f5e'', ''#eab308'']"

text \<open>The bars with the colour of their cells, or the hint to seed the data.\<close>

definition geo_chart :: "(string \<times> int) list \<Rightarrow> ((string \<times> int) \<times> string) list option" where
  "geo_chart geo = (if geoSeries geo \<noteq> []
     then Some (map (\<lambda>(i, g). (g, cell_palette ! (i mod 5))) (enumerate 0 (geoSeries geo))) else None)"

definition source_rows :: "(string \<times> int) list \<Rightarrow> (string \<times> int \<times> nat) list option" where
  "source_rows srcs = (if srcs \<noteq> [] then Some (map (\<lambda>(i, (src, n)). (src, n, i + 1)) (enumerate 0 srcs)) else None)"

definition radial_data :: "analytics_event list \<Rightarrow> (string \<times> nat \<times> string) list" where
  "radial_data events = (if actionBreakdown events \<noteq> [] then actionBreakdown events else [(''none'', 1, ''#1e293b'')])"

definition radial_domain :: "analytics_event list \<Rightarrow> nat" where
  "radial_domain events = max 1 (totalScored events)"

definition pie_data :: "analytics_event list \<Rightarrow> (string \<times> nat \<times> string) list" where
  "pie_data events = (if fraudTypes events \<noteq> [] then fraudTypes events else [(''No fraud events'', 1, ''#1e293b'')])"

definition pie_cells :: "analytics_event list \<Rightarrow> string list" where
  "pie_cells events = (if fraudTypes events \<noteq> [] then map (\<lambda>d. snd (snd d)) (fraudTypes events) else [''#1e293b''])"

definition pie_centre :: "metrics \<Rightarrow> string" where
  "pie_centre m = toFixed 2 (me_fraudRate m) @ ''%''"

definition bucket_bars :: "nat list \<Rightarrow> (string \<times> nat \<times> string) list" where
  "bucket_bars counts = map2 (\<lambda>(range, fill) n. (range, n, fill))
     [(''0-20'', ''#10b981''), (''20-40'', ''#84cc16''), (''40-60'', ''#eab308''), (''60-80'', ''#f97316''),
      (''80-100'', ''#f43f5e'')] counts"

section \<open>The ledger\<close>

definition tx_header :: "string \<Rightarrow> analytics_event list \<Rightarrow> string" where
  "tx_header flt events = dec (length (tx_filtered flt events)) @ '' events in window''"

definition tx_banner :: "string option \<Rightarrow> string option" where
  "tx_banner err = (if truthy err then Some (''Telemetry degraded: '' @ the err) else None)"

definition tx_volume :: "history_point list \<Rightarrow> history_point list option" where
  "tx_volume hist = (if hist \<noteq> [] then Some hist else None)"

definition tx_subtitle :: "string \<Rightarrow> string" where
  "tx_subtitle flt = ''Action: '' @ flt"

definition tx_empty :: "string \<Rightarrow> analytics_event list \<Rightarrow> bool" where
  "tx_empty flt events \<longleftrightarrow> tx_filtered flt events = []"

section \<open>The figures of the pages agree\<close>

lemma flagged_parts:
  "length (filter flagged es) = length (tx_filtered ''BLOCK'' es) + length (tx_filtered ''CHALLENGE'' es)"
  by (induction es) (auto simp: flagged_def tx_filtered_def)

text \<open>
  One window, one count. The threats chip and the alerts card of the command center, the slices of
  the typology chart and the two filters of the ledger all show the same number of flagged events, the
  blocked chip is the ledger's blocked count, and in demo mode the fraud gauge shows the threat ratio
  of the same window.
\<close>

lemma figures_agree:
  fixes s :: "'srv telemetry" and now :: int and isConnected :: bool
  defines "es \<equiv> tl_events s" and "m \<equiv> metrics_of now s"
  shows "ch_value (command_chips es isConnected ! 1) = dec (me_activeAlerts m)
    \<and> mc_value (side_cards m isConnected ! 0) = of_nat (me_activeAlerts m)
    \<and> sum_list (map (\<lambda>d. fst (snd d)) (fraudTypes es)) = me_activeAlerts m
    \<and> length (tx_filtered ''BLOCK'' es) + length (tx_filtered ''CHALLENGE'' es) = me_activeAlerts m
    \<and> ch_value (threats_chips es ! 1) = dec (length (tx_filtered ''BLOCK'' es))
    \<and> ga_value (fraud_gauge (metrics_of now (s\<lparr>tl_demo := True\<rparr>))) = threatRatio es"
  using fraudTypes_partition [of es] flagged_parts [of es]
  by (simp add: es_def m_def command_chips_def side_cards_def threats_chips_def fraud_gauge_def new_gauge_def
      metrics_of_def threatRatio_def tx_filtered_def)

section \<open>Gauges\<close>

lemma gauge_needle_range: "- 135 \<le> fst (snd (gauge_view g)) \<and> fst (snd (gauge_view g)) \<le> 135"
  using gauge_needle_bounds gauge_pct_bounds by (simp add: gauge_view_def)

text \<open>A gauge at most half full, with thresholds above fifty, keeps the calm colour.\<close>

lemma gauge_calm:
  assumes "ga_max g = 100" "ga_value g \<le> 50" "50 < ga_danger g" "50 < ga_warn g"
  shows "gauge_tone g = ''#22d3ee''"
proof -
  let ?p = "gauge_pct (ga_value g) (ga_max g)"
  have "fl (ga_value g / 100) \<le> fl (1 / 2)" using assms(2) by (intro fl_mono) simp
  then have "?p \<le> 1 / 2"
    using assms(1) fl_half(1) by (simp add: gauge_pct_def)
  then have "?p * 100 \<le> 50" by linarith
  then have "fl (?p * 100) \<le> 50" by (intro dbl.le_numeral) simp_all
  with assms(3,4) show ?thesis by (simp add: gauge_tone_def gauge_color_def)
qed

text \<open>
  The load gauge of the command center never leaves its calm colour: the load of a window of at
  most fifty events is at most fifty, while the gauge warns from sixty and turns to danger at eighty.
\<close>

lemma load_gauge_never_warns:
  assumes "length (tl_events s) \<le> 50"
  shows "gauge_tone (load_gauge (metrics_of now s)) = ''#22d3ee''"
proof -
  have "systemLoad now (tl_events s) \<le> 50"
    using load_count [OF assms] load_count_le [OF assms] by (cases "now = 0") (simp_all add: systemLoad_def)
  then have "(of_int (systemLoad now (tl_events s)) :: rat) \<le> 50" by linarith
  then show ?thesis by (intro gauge_calm) (simp_all add: load_gauge_def new_gauge_def metrics_of_def)
qed

lemma load_gauge_never_warns_witness:
  "gauge_tone (load_gauge (metrics_of 5000 (idle_telemetry\<lparr>tl_events := replicate 50 blank_event\<rparr>))) = ''#22d3ee''"
  by (rule load_gauge_never_warns) simp

lemma live_load_gauge_calm:
  assumes "length (tl_events s) \<le> 50" "\<not> tl_demo s"
  shows "gauge_tone (load_gauge (metrics_of now (fold live_event arrivals s))) = ''#22d3ee''"
  using live_window.bounded.run [OF assms(1)]
  by (intro load_gauge_never_warns) (simp add: live_events_fold assms(2))

text \<open>The badge of the peak score is the worst badge of the window.\<close>

lemma peak_level: "riskLevel (peakScore es) = Max (insert LOW ((\<lambda>e. riskLevel (default (ev_score e) 0)) ` set es))"
proof -
  let ?S = "insert 0 ((\<lambda>e. default (ev_score e) 0) ` set es)"
  have "riskLevel (Max ?S) = Max (riskLevel ` ?S)" by (rule mono_Max_commute [OF riskLevel_mono]) simp_all
  moreover have "riskLevel 0 = LOW" by (simp add: riskLevel_def)
  ultimately show ?thesis by (simp add: peakScore_def foldl_max_spec image_image)
qed

text \<open>The ring of a connected stream is full, and drawn in the danger colour.\<close>

lemma healthy_ring_is_red: "card_ring (side_cards m True ! 1) = Some (''#f43f5e'', 0)"
  by (simp add: card_ring_def side_cards_def ring_color_def ring_offset_def)

section \<open>Charts\<close>

lemma sum_list_member_le: "x \<in> set xs \<Longrightarrow> f x \<le> sum_list (map f xs)" for f :: "'a \<Rightarrow> nat"
  by (induction xs) auto

lemma foldl_sum: "foldl (\<lambda>n d. n + f d) n ds = n + sum_list (map f ds)" for f :: "'a \<Rightarrow> nat"
  by (induction ds arbitrary: n) simp_all

lemma totalScored_sum: "totalScored es = sum_list (map (\<lambda>d. fst (snd d)) (actionBreakdown es))"
  by (simp add: totalScored_def foldl_sum)

text \<open>
  The two round charts are never empty and well scaled, for an empty window too: every bar of the
  radial chart is positive and within its domain, the slices of the donut are positive and add up to the
  number of flagged events (or one), and every slice has a cell.
\<close>

lemma round_charts_scaled:
  "radial_data es \<noteq> [] \<and> list_all (\<lambda>d. 0 < fst (snd d) \<and> fst (snd d) \<le> radial_domain es) (radial_data es)
   \<and> pie_data es \<noteq> [] \<and> list_all (\<lambda>d. 0 < fst (snd d)) (pie_data es)
   \<and> sum_list (map (\<lambda>d. fst (snd d)) (pie_data es)) = max 1 (length (filter flagged es))
   \<and> length (pie_cells es) = length (pie_data es)"
proof -
  have "list_all (\<lambda>d. 0 < fst (snd d) \<and> fst (snd d) \<le> radial_domain es) (radial_data es)"
  proof (cases "actionBreakdown es = []")
    case False
    then show ?thesis
      using totalScored_counts [of es] sum_list_member_le [of _ "actionBreakdown es" "\<lambda>d. fst (snd d)"]
      by (auto simp: radial_data_def radial_domain_def list_all_iff totalScored_sum le_max_iff_disj)
  qed (simp add: radial_data_def radial_domain_def)
  moreover have "list_all (\<lambda>d. 0 < fst (snd d)) (pie_data es)"
    using fraudTypes_pos [of es] by (auto simp: pie_data_def)
  moreover have "sum_list (map (\<lambda>d. fst (snd d)) (pie_data es)) = max 1 (length (filter flagged es))"
  proof (cases "fraudTypes es")
    case Nil
    with fraudTypes_partition [of es] show ?thesis by (simp add: pie_data_def)
  next
    case (Cons d ds)
    then have "0 < fst (snd d)" using fraudTypes_pos [of es] by simp
    with Cons fraudTypes_partition [of es] show ?thesis by (simp add: pie_data_def)
  qed
  ultimately show ?thesis by (simp add: radial_data_def pie_data_def pie_cells_def)
qed

section \<open>The threats page over time\<close>

text \<open>The windows a run of inputs delivered.\<close>

fun windows_of :: "threats_input list \<Rightarrow> analytics_event list list" where
  "windows_of [] = []"
| "windows_of (NewWindow es # is) = es # windows_of is"
| "windows_of (_ # is) = windows_of is"

definition selection_ok :: "analytics_event set \<Rightarrow> 'srv threats_page \<Rightarrow> bool" where
  "selection_ok es s \<longleftrightarrow> set (tp_events s) \<subseteq> es \<and> (\<forall>t. tp_selected s = Some t \<longrightarrow>
     (\<exists>e \<in> es. placeable AllThreats e \<and> t = placed e))"

lemma shown_threats_placed:
  "t \<in> set (page_threats flt es) \<Longrightarrow> \<exists>e \<in> set es. placeable AllThreats e \<and> t = placed e"
proof -
  assume "t \<in> set (page_threats flt es)"
  then obtain e where "e \<in> set (first_by threat_key (filter (placeable flt) es))" "t = placed e"
    by (auto simp: page_threats_def threat_loop_spec)
  then have "e \<in> set es" "placeable flt e" "t = placed e"
    using first_by_subset [of threat_key "filter (placeable flt) es"] by auto
  then show ?thesis by (auto simp: placeable_def)
qed

lemma select_threat_mem:
  "select_threat threats t sel = Some u \<Longrightarrow> u \<in> set threats \<or> sel = Some u"
  by (auto simp: select_threat_def find_Some_iff split: option.splits)

lemma threats_step_selection:
  assumes "selection_ok es s"
  shows "selection_ok (es \<union> set (concat (windows_of [i]))) (threats_step ev api i s)"
proof (cases i)
  case (MarkerClick t)
  with assms show ?thesis
    by (auto simp: selection_ok_def dest!: select_threat_mem shown_threats_placed)
qed (use assms in \<open>auto simp: selection_ok_def threats_render_def geo_load_def split: prod.split\<close>)

lemma threats_run_selection:
  "selection_ok es s \<Longrightarrow> selection_ok (es \<union> set (concat (windows_of is))) (fold (threats_step ev api) is s)"
proof (induction "is" arbitrary: es s)
  case (Cons i "is")
  have "set (concat (windows_of (i # is))) = set (concat (windows_of [i])) \<union> set (concat (windows_of is))"
    by (cases i) auto
  with Cons.IH [OF threats_step_selection [OF Cons.prems, of i ev api]] show ?case by (simp add: Un_assoc)
qed simp

lemma threats_run_alerts:
  "tp_toasts (fold (threats_step ev api) is s)
   = fold push_toast (map snd (alert_run (tp_alerted s) (windows_of is))) (tp_toasts s)"
proof (induction "is" arbitrary: s)
  case (Cons i "is")
  then show ?case
    by (cases i) (auto simp: threats_render_def geo_load_def split: prod.split)
qed simp

text \<open>
  Over any sequence of windows, clicks and rollup timers the detail panel of the threats page shows
  the marker of an event that was delivered and could be placed, and the notification queue is the one
  the alert effect builds from the windows alone: neither clicks nor rollups raise or lose an alert.
\<close>

lemma threats_page_run:
  fixes w :: "'srv world" and ins :: "threats_input list" and ev api ts
  defines "s \<equiv> fold (threats_step ev api) ins (threats_mount w ts)"
  shows "(case tp_selected s of None \<Rightarrow> detail_panel time s = None
      | Some t \<Rightarrow> \<exists>e \<in> set (concat (windows_of ins)). placeable AllThreats e \<and> t = placed e)
    \<and> tp_toasts s = alert_toasts (windows_of ins) ts"
proof -
  have "selection_ok {} (threats_mount w ts)" by (simp add: selection_ok_def threats_mount_def)
  from threats_run_selection [OF this, of ins ev api] have "selection_ok (set (concat (windows_of ins))) s"
    by (simp add: s_def)
  moreover have "tp_toasts s = alert_toasts (windows_of ins) ts"
    unfolding s_def threats_run_alerts alert_toasts_def by (simp add: threats_mount_def)
  ultimately show ?thesis by (auto simp: selection_ok_def detail_panel_def split: option.split)
qed

text \<open>A selection outlives its marker: the filter hides the source, the panel still shows it.\<close>

lemma selection_outlives_marker:
  assumes "tp_selected s = Some t"
  shows "tp_selected (fold (threats_step ev api) [FilterClick BlockedOnly, NewWindow []] s) = Some t
    \<and> shown_threats (fold (threats_step ev api) [FilterClick BlockedOnly, NewWindow []] s) = []"
  using assms by (simp add: threats_render_def page_threats_def)

end
