(* ===== verification/Panels.thy ===== *)
theory Panels
  imports Threats System_Health Top_Bar Login
begin

text \<open>
  The shared presentational components and panels, as the data and state behind their markup: the
  tilting card (\<open>components/ui/TiltCard.tsx\<close>), the glass panel, skeletons and brand mark, the area
  chart with its tooltip (\<open>components/charts/TransactionAreaChart.tsx\<close>), the scope of the tactical
  radar, the service cards, the drop-downs of the top bar, and the password field and feature list
  of the sign-in page.

  \<open>mix a b x\<close> is the interpolation \<open>useTransform(v, [0, 1], [a, b])\<close> of the animation library, and
  \<open>show_number\<close> the conversion of a number to a string.
\<close>

section \<open>The tilting card\<close>

record rect =
  rc_left :: rat
  rc_top :: rat
  rc_width :: rat
  rc_height :: rat

record tilt =
  tc_px :: rat
  tc_py :: rat

datatype tilt_input = MouseMove rat rat | MouseLeave

definition tilt_init :: tilt where
  "tilt_init = \<lparr>tc_px = 1 / 2, tc_py = 1 / 2\<rparr>"

text \<open>The reference to the element may be empty; its rectangle has an extent when it is not.\<close>

fun tilt_step :: "bool \<Rightarrow> rect option \<Rightarrow> tilt_input \<Rightarrow> tilt \<Rightarrow> tilt" where
  "tilt_step reduceMotion r (MouseMove x y) s = (case r of None \<Rightarrow> s
     | Some rc \<Rightarrow> if reduceMotion then s
         else \<lparr>tc_px = fl (fl (x - rc_left rc) / rc_width rc), tc_py = fl (fl (y - rc_top rc) / rc_height rc)\<rparr>)"
| "tilt_step reduceMotion r MouseLeave s = \<lparr>tc_px = 1 / 2, tc_py = 1 / 2\<rparr>"

text \<open>The targets of the two springs, and the glare; no style under reduced motion.\<close>

definition tilt_style :: "(rat \<Rightarrow> rat \<Rightarrow> rat \<Rightarrow> rat) \<Rightarrow> bool \<Rightarrow> rat \<Rightarrow> tilt \<Rightarrow> (rat \<times> rat \<times> rat) option" where
  "tilt_style mix reduceMotion maxTilt s = (if reduceMotion then None
     else Some (mix maxTilt (- maxTilt) (tc_py s), mix (- maxTilt) maxTilt (tc_px s), 900))"

definition glare :: "(rat \<Rightarrow> string) \<Rightarrow> (rat \<Rightarrow> rat \<Rightarrow> rat \<Rightarrow> rat) \<Rightarrow> bool \<Rightarrow> tilt \<Rightarrow> string option" where
  "glare show_number mix reduceMotion s = (if reduceMotion then None
     else Some (''radial-gradient(circle at '' @ show_number (mix 0 100 (tc_px s)) @ ''% ''
       @ show_number (mix 0 100 (tc_py s)) @ ''%, rgba(255,255,255,0.09) 0%, transparent 55%)''))"

text \<open>The pointer is on the card when the browser reports a movement over it.\<close>

definition on_card :: "rect \<Rightarrow> rat \<Rightarrow> rat \<Rightarrow> bool" where
  "on_card rc x y \<longleftrightarrow> rc_left rc \<le> x \<and> x \<le> rc_left rc + rc_width rc \<and> rc_top rc \<le> y \<and> y \<le> rc_top rc + rc_height rc
     \<and> 0 < rc_width rc \<and> 0 < rc_height rc \<and> fl (rc_width rc) = rc_width rc \<and> fl (rc_height rc) = rc_height rc"

lemma fraction_range:
  assumes "0 \<le> d" "d \<le> w" "0 < w" "fl w = w"
  shows "0 \<le> fl (fl d / w) \<and> fl (fl d / w) \<le> 1"
proof -
  have "0 \<le> fl d" "fl d \<le> w" using dbl.ge_0 [OF assms(1)] fl_mono [OF assms(2)] assms(4) by simp_all
  then have "0 \<le> fl d / w" "fl d / w \<le> of_int 1" using assms(3) by (simp_all add: divide_le_eq)
  with dbl.le_int [of 1 "fl d / w"] dbl.ge_0 show ?thesis by simp
qed

text \<open>
  The tilt stays within the maximum on every path of the pointer over the card, and vanishes when
  the pointer leaves.
\<close>

definition tilt_ok :: "tilt \<Rightarrow> bool" where
  "tilt_ok s \<longleftrightarrow> 0 \<le> tc_px s \<and> tc_px s \<le> 1 \<and> 0 \<le> tc_py s \<and> tc_py s \<le> 1"

lemma tilt_step_ok:
  assumes "tilt_ok s" "\<And>rc x y. r = Some rc \<Longrightarrow> i = MouseMove x y \<Longrightarrow> on_card rc x y"
  shows "tilt_ok (tilt_step reduceMotion r i s)"
proof (cases i)
  case (MouseMove x y)
  show ?thesis
  proof (cases r)
    case (Some rc)
    with assms(2) MouseMove have "on_card rc x y" by blast
    then have "0 \<le> fl (fl (x - rc_left rc) / rc_width rc) \<and> fl (fl (x - rc_left rc) / rc_width rc) \<le> 1"
      "0 \<le> fl (fl (y - rc_top rc) / rc_height rc) \<and> fl (fl (y - rc_top rc) / rc_height rc) \<le> 1"
      by (intro fraction_range; simp add: on_card_def)+
    with Some MouseMove assms(1) show ?thesis by (simp add: tilt_ok_def)
  qed (use assms MouseMove in simp)
qed (simp add: tilt_ok_def)

lemma tilt_bounded:
  assumes "tilt_ok s" "0 \<le> m" "tilt_style mix reduceMotion m s = Some (rx, ry, p)"
    and "\<And>a b x. 0 \<le> x \<Longrightarrow> x \<le> 1 \<Longrightarrow> min a b \<le> mix a b x \<and> mix a b x \<le> max a b"
  shows "\<bar>rx\<bar> \<le> m \<and> \<bar>ry\<bar> \<le> m"
  using assms(4) [of "tc_py s" m "- m"] assms(4) [of "tc_px s" "- m" m] assms(1-3)
  by (auto simp: tilt_style_def tilt_ok_def abs_le_iff split: if_splits)

lemma tilt_reduced: "fold (tilt_step True r) is tilt_init = tilt_init"
proof (induction "is")
  case (Cons i ms)
  have "tilt_step True r i tilt_init = tilt_init" by (cases i) (auto simp: tilt_init_def split: option.split)
  with Cons show ?case by simp
qed simp

section \<open>Glass panel, skeletons and brand mark\<close>

definition glass_classes :: "bool \<Rightarrow> bool \<Rightarrow> bool \<Rightarrow> string list" where
  "glass_classes premium spotlight reduceMotion =
     [if premium then ''glass-panel-premium'' else ''glass-panel'',
      ''group relative flex flex-col overflow-hidden rounded-2xl transition-[border-color,box-shadow] duration-300'']
     @ (if spotlight \<and> \<not> reduceMotion then [''spotlight-card''] else [])"

text \<open>The header is there when there is a title or an action; the subtitle only inside it.\<close>

definition glass_header :: "string option \<Rightarrow> string option \<Rightarrow> bool \<Rightarrow> (string option \<times> string option \<times> bool) option" where
  "glass_header title subtitle action = (if truthy title \<or> action
     then Some (if truthy title then title else None, if truthy subtitle then subtitle else None, action) else None)"

lemma glass_subtitle_lost: "glass_header None (Some s) False = None"
  by (simp add: glass_header_def)

text \<open>Bars of the chart skeleton (height in percent, delay), and the delays of the rows of the others.\<close>

definition skeleton_bars :: "(rat \<times> rat) list" where
  "skeleton_bars = map (\<lambda>(i, h). (fl (h * 100), fl (fl (1 / 10) + fl (of_nat i * fl (5 / 100)))))
     (enumerate 0 (map fl [35 / 100, 55 / 100, 42 / 100, 7 / 10, 1 / 2, 8 / 10, 62 / 100, 9 / 10, 7 / 10, 95 / 100,
        78 / 100, 55 / 100]))"

definition table_skeleton :: "nat \<Rightarrow> rat list" where
  "table_skeleton rows = map (\<lambda>i. fl (of_nat i * fl (6 / 100))) [0..<rows]"

definition feed_skeleton :: "nat \<Rightarrow> rat list" where
  "feed_skeleton items = map (\<lambda>i. fl (of_nat i * fl (7 / 100))) [0..<items]"

text \<open>The three trackers of the emblem: centre, colour, rotation (none under reduced motion), period, delay.\<close>

definition brand_orbits :: "bool \<Rightarrow> (rat \<times> string \<times> int option \<times> rat \<times> rat) list" where
  "brand_orbits reduceMotion = map (\<lambda>i.
     (24 + [16, 39 / 2, 13] ! i, [''#22d3ee'', ''#818cf8'', ''#34d399''] ! i,
      if reduceMotion then None else Some (if i mod 2 = 0 then 360 else - 360),
      9 + of_nat i * 4, fl (of_nat i * fl (13 / 10)))) [0..<3]"

definition brand_lockup :: "bool \<Rightarrow> nat \<times> (string \<times> string) option" where
  "brand_lockup small = (if small then (28, None) else (36, Some (''SENTINEL'', ''Fraud Intelligence Command Center'')))"

section \<open>The area chart\<close>

definition tick_label :: "(rat \<Rightarrow> string) \<Rightarrow> rat \<Rightarrow> string" where
  "tick_label show_number val = (if val \<ge> 1000 then toFixed 1 (fl (val / 1000)) @ ''k'' else show_number val)"

record tooltip_entry =
  te_dataKey :: string
  te_name :: "string option"
  te_value :: rat
  te_color :: string

text \<open>Nothing unless the chart is hovered over data; then the label and a row per series.\<close>

definition glass_tooltip :: "bool \<Rightarrow> tooltip_entry list option \<Rightarrow> string
    \<Rightarrow> (string \<times> (string \<times> rat \<times> string) list) option" where
  "glass_tooltip active payload label = (if \<not> active \<or> default (map_option length payload) 0 = 0 then None
     else Some (label, map (\<lambda>e. (default (te_name e) (te_dataKey e), te_value e, te_color e)) (the payload)))"

definition draw_duration :: "bool \<Rightarrow> nat" where
  "draw_duration reduceMotion = (if reduceMotion then 0 else 900)"

text \<open>The two areas: data key, stroke, fill, colour of the active dot, duration, animated.\<close>

definition chart_areas :: "bool \<Rightarrow> (string \<times> string \<times> string \<times> string \<times> nat \<times> bool) list" where
  "chart_areas reduceMotion =
     [(''transactions'', ''url(#strokeTransactions)'', ''url(#colorTransactions)'', ''#22d3ee'', draw_duration reduceMotion, \<not> reduceMotion),
      (''fraud'', ''url(#strokeFraud)'', ''url(#colorFraud)'', ''#f43f5e'', draw_duration reduceMotion, \<not> reduceMotion)]"

text \<open>The label rounds after the choice of the unit: just below a thousand it shows no k.\<close>

lemma tick_label_switch:
  "tick_label (\<lambda>_. ''999.99'') (99999 / 100) = ''999.99'' \<and> tick_label (\<lambda>_. ''999.99'') 1000 = ''1.0k''"
proof -
  have "fl (1000 / 1000) = 1" "toFixed 1 1 = ''1.0''" by code_simp+
  then show ?thesis by (simp add: tick_label_def)
qed

lemma tooltip_rows:
  "glass_tooltip active payload label = Some (l, rows) \<Longrightarrow> rows \<noteq> [] \<and> length rows = length (the payload)"
  by (cases payload) (auto simp: glass_tooltip_def split: if_splits)

section \<open>The scope of the radar\<close>

text \<open>Ends of the twelve ticks, every thirty degrees.\<close>

definition scope_ticks :: "((real \<times> real) \<times> (real \<times> real)) list" where
  "scope_ticks = map (\<lambda>i. let a = real (i * 30) * pi / 180 in
     ((50 + 44 * cos a, 50 + 44 * sin a), (50 + 475 / 10 * cos a, 50 + 475 / 10 * sin a))) [0..<12]"

text \<open>Radius, colour and, unless motion is reduced, the start of a blip's animation.\<close>

definition blip_begin :: "(rat \<Rightarrow> string) \<Rightarrow> string \<Rightarrow> string" where
  "blip_begin show_number i = (case i of [] \<Rightarrow> ''NaNs''
     | c # _ \<Rightarrow> show_number (fl (of_nat (char_code c mod 45) / 10)) @ ''s'')"

definition blip_view :: "(rat \<Rightarrow> string) \<Rightarrow> bool \<Rightarrow> blip \<Rightarrow> rat \<times> string \<times> string option" where
  "blip_view show_number reduceMotion b =
     (if b_critical b then fl (14 / 10) else 1, if b_critical b then ''#f43f5e'' else ''#fbbf24'',
      if reduceMotion then None else Some (blip_begin show_number (b_id b)))"

definition scope_readout :: "radar_threat list \<Rightarrow> string" where
  "scope_readout ts = dec (length (blips ts)) @ '' TRK''"

text \<open>Every tick lies between the blips and the rim of radius 48.\<close>

lemma scope_ticks_on_rim:
  assumes "((x1, y1), (x2, y2)) \<in> set scope_ticks"
  shows "(x1 - 50)\<^sup>2 + (y1 - 50)\<^sup>2 = 44\<^sup>2 \<and> (x2 - 50)\<^sup>2 + (y2 - 50)\<^sup>2 = (475 / 10)\<^sup>2"
proof -
  have circle: "(d * cos a)\<^sup>2 + (d * sin a)\<^sup>2 = d\<^sup>2" for a d :: real
    by (simp add: power_mult_distrib flip: distrib_left)
  obtain a where "x1 = 50 + 44 * cos a" "y1 = 50 + 44 * sin a" "x2 = 50 + 475 / 10 * cos a" "y2 = 50 + 475 / 10 * sin a"
    using assms by (auto simp: scope_ticks_def Let_def simp del: upt_Suc)
  with circle [of 44 a] circle [of "475 / 10" a] show ?thesis by (simp only: add_diff_cancel_left')
qed

section \<open>Service cards\<close>

text \<open>The tone of the rail, the badge, the dot and the headline pill; the icon and light that go with it.\<close>

fun status_tone :: "service_status \<Rightarrow> string" where
  "status_tone StatusOk = ''emerald''"
| "status_tone Degraded = ''amber''"
| "status_tone Down = ''rose''"
| "status_tone Checking = ''slate''"

record service_card =
  sc_name :: string
  sc_tone :: string
  sc_light :: bool
  sc_label :: string
  sc_latency :: string
  sc_detail :: string

definition service_cards :: "probe_state \<Rightarrow> service_card list" where
  "service_cards ps = map (\<lambda>sv. let st = row_status ps (sv_key sv) in
     \<lparr>sc_name = sv_name sv, sc_tone = status_tone st, sc_light = (st = StatusOk), sc_label = status_label st,
      sc_latency = latency_text (map_of ps (sv_key sv)), sc_detail = row_detail ps sv\<rparr>) SERVICES"

definition health_pill :: "bool \<Rightarrow> probe_state \<Rightarrow> string \<times> bool \<times> string" where
  "health_pill demo ps = (status_tone (overall ps), overall ps = Down, overall_label demo (overall ps))"

text \<open>A card per service; the headline is green only when every card that was probed is.\<close>

lemma service_cards_headline:
  "length (service_cards ps) = length SERVICES
   \<and> (fst (health_pill demo ps) = ''emerald'' \<longrightarrow> (\<forall>c \<in> set (service_cards ps). sc_tone c \<in> {''emerald'', ''slate''}))"
proof -
  have "status_tone (row_status ps k) \<in> {''emerald'', ''slate''}" if "status_tone (overall ps) = ''emerald''" for k
  proof (cases "map_of ps k")
    case (Some p)
    then have "(k, p) \<in> set ps" by (rule map_of_SomeD)
    moreover have "overall ps = StatusOk" using that by (cases "overall ps") simp_all
    ultimately have "pr_status p \<noteq> Down" "pr_status p \<noteq> Degraded"
      by (auto simp: overall_def list_ex_iff split: if_splits)
    with Some show ?thesis by (cases "pr_status p") (simp_all add: row_status_def)
  qed (simp add: row_status_def)
  then show ?thesis by (auto simp: service_cards_def health_pill_def Let_def)
qed

section \<open>Drop-downs of the top bar\<close>

text \<open>
  Both drop-downs keep one flag: their button toggles it, the backdrop behind the panel and, in the
  notifications, a row close it. The backdrop, the rows and the sign-out button exist while it is open.
\<close>

datatype menu_input = MenuButton | Backdrop | AlertRow

fun menu_step :: "menu_input \<Rightarrow> bool \<Rightarrow> bool" where
  "menu_step MenuButton shown = (\<not> shown)"
| "menu_step Backdrop shown = False"
| "menu_step AlertRow shown = False"

definition alerts_panel :: "bool \<Rightarrow> analytics_event list \<Rightarrow> (string option \<times> (bool \<times> string \<times> string) list) option" where
  "alerts_panel shown es = (if \<not> shown then None
     else let alerts = notification_alerts es in
       Some (if alerts = [] then Some ''No active alerts. All clear.'' else None, map notification_row alerts))"

definition user_panel :: "bool \<Rightarrow> string list" where
  "user_panel shown = (if shown then [''Sign out''] else [])"

text \<open>The rows of the palette: whether a page, the label, whether highlighted.\<close>

fun result_label :: "result \<Rightarrow> string" where
  "result_label (NavResult label href) = label"
| "result_label (EntityResult label href sub) = label"

fun is_nav :: "result \<Rightarrow> bool" where
  "is_nav (NavResult _ _) = True"
| "is_nav (EntityResult _ _ _) = False"

definition palette_rows :: "result list \<Rightarrow> bar_state \<Rightarrow> (bool \<times> string \<times> bool) list" where
  "palette_rows rs s = map (\<lambda>(i, r). (is_nav r, result_label r, int i = clampedSelected rs s)) (enumerate 0 rs)"

definition palette_empty :: "result list \<Rightarrow> string \<Rightarrow> string option" where
  "palette_empty rs query = (if rs = []
     then Some (''No matches for '' @ [CHR 0xE2, CHR 0x80, CHR 0x9C] @ query @ [CHR 0xE2, CHR 0x80, CHR 0x9D]) else None)"

lemma one_row_highlighted: "length (filter (\<lambda>(nav, l, h). h) (palette_rows rs s)) \<le> 1"
proof -
  have "length (filter (\<lambda>(nav, l, h). h) (map (\<lambda>(i, r). (is_nav r, result_label r, int i = c)) (enumerate n rs))) \<le> 1
    \<and> (c < int n \<longrightarrow> filter (\<lambda>(nav, l, h). h) (map (\<lambda>(i, r). (is_nav r, result_label r, int i = c)) (enumerate n rs)) = [])" for c n
  proof (induction rs arbitrary: n)
    case (Cons r rs)
    from Cons.IH [of "Suc n"] show ?case by auto
  qed simp
  then show ?thesis unfolding palette_rows_def by blast
qed

text \<open>The badge on the bell counts the rows of the panel.\<close>

lemma badge_counts_rows:
  "alerts_panel True es = Some (m, rows) \<Longrightarrow> (m = None \<longleftrightarrow> rows \<noteq> []) \<and> length rows = length (notification_alerts es)"
  by (auto simp: alerts_panel_def Let_def split: if_splits)

section \<open>The sign-in page\<close>

definition FEATURES :: "(string \<times> string) list" where
  "FEATURES = [(''Sub-100ms decisions'', ''Deterministic rules, velocity features and gradient-boosted ML scored in parallel.''),
     (''Global telemetry'', ''Every auth event streams through Kafka into ClickHouse for live analytics.''),
     (''Zero-trust identity'', ''RS256-verified JWTs, refresh-token rotation with reuse detection, session families.'')]"

text \<open>The password field: its type and the label of the button beside it, which inverts the flag.\<close>

definition password_field :: "bool \<Rightarrow> string \<times> string" where
  "password_field showPassword = (if showPassword then (''text'', ''Hide password'') else (''password'', ''Show password''))"

definition toggle_password :: "bool \<Rightarrow> bool" where
  "toggle_password s = (\<not> s)"

text \<open>The labelled inputs of the form, in order; the name is asked for when registering.\<close>

definition form_fields :: "bool \<Rightarrow> 'srv login_page \<Rightarrow> (string \<times> string \<times> string) list" where
  "form_fields showPassword s =
     (if lp_mode s = RegisterMode then [(''Full name'', ''text'', lp_name s)] else [])
     @ [(''Email'', ''email'', lp_email s), (''Password'', fst (password_field showPassword), lp_password s)]"

text \<open>Every field is required: the browser does not submit the form while one is empty.\<close>

definition form_complete :: "'srv login_page \<Rightarrow> bool" where
  "form_complete s \<longleftrightarrow> list_all (\<lambda>(l, t, v). v \<noteq> []) (form_fields False s)"

lemma form_complete_iff:
  "form_complete s \<longleftrightarrow> lp_email s \<noteq> [] \<and> lp_password s \<noteq> [] \<and> (lp_mode s = RegisterMode \<longrightarrow> lp_name s \<noteq> [])"
  by (auto simp: form_complete_def form_fields_def)

end
