(* ===== verification/Views.thy ===== *)
theory Views
  imports Panels Pages Rules_Run Shell Toasts Analytics_Page World_Map Ambient
begin

text \<open>
  What the larger pieces of markup compute: gauge instrument and metric ring, notification cards,
  overlay and chrome of the shell, sign-in panel, chart legends, rule editor, ledger tabs and the
  beam on the world map; and the copies that several files keep of one function or table.
\<close>

section \<open>Copies\<close>

text \<open>\<open>getAPIURL\<close> and \<open>authHeaders\<close> of \<open>hooks/useAnalytics.ts\<close>, \<open>getAPIURL\<close> of \<open>app/system/page.tsx\<close>.\<close>

definition hook_getAPIURL :: "env \<Rightarrow> string" where
  "hook_getAPIURL ev = (let c = configuredAPIURL ev in
     if c \<noteq> [] \<and> c \<noteq> localhost_api then c
     else case env_window ev of
       None \<Rightarrow> if c \<noteq> [] then c else localhost_api
     | Some (protocol, hostname) \<Rightarrow>
         if str_includes hostname ''-3000.'' then protocol @ ''//'' @ replace_first hostname ''-3000.'' ''-8080.''
         else protocol @ ''//'' @ hostname @ '':8080'')"

definition hook_authHeaders :: "env \<Rightarrow> ('srv world, string \<rightharpoonup> string) comp" where
  "hook_authHeaders ev = readE (\<lambda>w.
     let token = (case env_window ev of None \<Rightarrow> None | Some _ \<Rightarrow> w_storage w access_key) in
     if truthy token then [''Authorization'' \<mapsto> ''Bearer '' @ the token] else Map.empty)"

definition system_getAPIURL :: "env \<Rightarrow> string" where
  "system_getAPIURL ev = (let c = configuredAPIURL ev in
     if c \<noteq> [] \<and> c \<noteq> localhost_api then c
     else case env_window ev of
       None \<Rightarrow> if c \<noteq> [] then c else localhost_api
     | Some (protocol, hostname) \<Rightarrow>
         if str_includes hostname ''-3000.'' then protocol @ ''//'' @ replace_first hostname ''-3000.'' ''-8080.''
         else protocol @ ''//'' @ hostname @ '':8080'')"

text \<open>The table of \<open>app/page.tsx\<close>.\<close>

definition command_coords :: "string \<rightharpoonup> rat \<times> rat" where
  "command_coords = map_of [
     (''US'', (fl 39.8, fl (-98.6))), (''GB'', (54, -2)), (''CA'', (fl 56.1, fl (-106.3))), (''IN'', (fl 20.6, fl 78.9)),
     (''CN'', (fl 35.9, fl 104.2)), (''BR'', (fl (-14.2), fl (-51.9))), (''RU'', (fl 61.5, fl 105.3)), (''DE'', (fl 51.2, fl 10.4)),
     (''FR'', (fl 46.2, fl 2.2)), (''JP'', (fl 36.2, fl 138.3)), (''NL'', (fl 52.1, fl 5.3)), (''SG'', (fl 1.35, fl 103.8)),
     (''AU'', (fl (-25.3), fl 133.8)), (''ZA'', (fl (-30.6), fl 22.9)), (''NG'', (fl 9.1, fl 8.7)), (''VN'', (fl 14.1, fl 108.3)),
     (''ID'', (fl (-0.8), fl 113.9)), (''TR'', (fl 38.9, fl 35.2)), (''KR'', (fl 35.9, fl 127.8)), (''MX'', (fl 23.6, fl (-102.5)))]"

lemma copies_agree:
  "hook_getAPIURL ev = getAPIURL ev" "system_getAPIURL ev = getAPIURL ev" "hook_authHeaders ev = authHeaders ev"
  "command_coords = COUNTRY_COORDS"
  by (simp_all add: hook_getAPIURL_def system_getAPIURL_def getAPIURL_def hook_authHeaders_def authHeaders_def
      command_coords_def COUNTRY_COORDS_def option.case_eq_if)

section \<open>Gauge and ring\<close>

definition gauge_circ :: rat where
  "gauge_circ = fl (fl (2 * js_pi) * 45)"

definition gauge_arc_len :: rat where
  "gauge_arc_len = fl (gauge_circ * (3 / 4))"

text \<open>The dashes of track and value arc, and the part of the value arc that is left out.\<close>

definition gauge_arc :: "rat \<Rightarrow> (rat \<times> rat) \<times> rat" where
  "gauge_arc pct = ((gauge_arc_len, gauge_circ), fl (gauge_arc_len * fl (1 - pct)))"

text \<open>The two rings around the dial: radius and, unless motion is reduced, direction.\<close>

definition gauge_rings :: "bool \<Rightarrow> (rat \<times> string option) list" where
  "gauge_rings reduceMotion = [(45 + 13 / 2, if reduceMotion then None else Some ''holo-ring''),
     (45 + 3, if reduceMotion then None else Some ''holo-ring-rev'')]"

definition gauge_ticks :: "((real \<times> real) \<times> (real \<times> real) \<times> rat) list" where
  "gauge_ticks = map (\<lambda>i. let rad = (135 + 270 * real i / 10) * pi / 180; r1 = 45 - 6; r2 = 45 - 5 / 2 in
     ((50 + r1 * cos rad, 50 + r1 * sin rad), (50 + r2 * cos rad, 50 + r2 * sin rad),
      if i mod 5 = 0 then fl (12 / 10) else fl (6 / 10))) [0..<11]"

text \<open>The ring of a metric card: length of the dash and the part left out.\<close>

definition ring_stroke :: "rat \<Rightarrow> rat \<times> rat" where
  "ring_stroke ring = (let c = fl (fl (2 * js_pi) * 19) in (c, fl (c * ring_offset ring)))"

lemma arc_constants: "fl gauge_arc_len = gauge_arc_len" "0 \<le> gauge_arc_len" "gauge_arc_len \<le> gauge_circ"
  by code_simp+

text \<open>Whatever the value, the arc that is drawn is between nothing and the whole track.\<close>

lemma gauge_arc_bounds: "0 \<le> snd (gauge_arc (gauge_pct v mx)) \<and> snd (gauge_arc (gauge_pct v mx)) \<le> fst (fst (gauge_arc (gauge_pct v mx)))"
proof -
  let ?x = "fl (1 - gauge_pct v mx)"
  have x: "0 \<le> ?x" "?x \<le> 1" using gauge_pct_bounds [of v mx] by (auto intro!: dbl.ge_0 dbl.le_1)
  then have "0 \<le> gauge_arc_len * ?x" "gauge_arc_len * ?x \<le> gauge_arc_len"
    using arc_constants(2) by (simp_all add: mult_left_le)
  then have "0 \<le> fl (gauge_arc_len * ?x)" "fl (gauge_arc_len * ?x) \<le> fl gauge_arc_len"
    by (auto intro!: dbl.ge_0 fl_mono)
  then show ?thesis by (simp add: gauge_arc_def arc_constants(1))
qed

text \<open>A negative ring asks for a dash that is longer than the circle.\<close>

lemma ring_negative: "snd (ring_stroke (- 50)) > fst (ring_stroke (- 50))"
  by code_simp

section \<open>Notifications and chips\<close>

text \<open>Icon, border, icon colour and bar of a kind; a card with its lifetime in seconds, none when sticky.\<close>

fun KIND_STYLES :: "toast_kind \<Rightarrow> string \<times> string \<times> string \<times> string" where
  "KIND_STYLES Success = (''CheckCircle2'', ''border-emerald-500/30'', ''text-emerald-400'', ''bg-emerald-500'')"
| "KIND_STYLES Warning = (''AlertTriangle'', ''border-amber-500/30'', ''text-amber-400'', ''bg-amber-500'')"
| "KIND_STYLES Danger = (''AlertOctagon'', ''border-rose-500/40'', ''text-rose-400'', ''bg-rose-500'')"
| "KIND_STYLES Info = (''Info'', ''border-cyan-500/30'', ''text-cyan-400'', ''bg-cyan-500'')"

definition toast_card :: "toast \<Rightarrow> (string \<times> string \<times> string \<times> string) \<times> (string \<times> string option \<times> bool) \<times> rat option" where
  "toast_card t = (KIND_STYLES (ti_kind (t_input t)), toast_row t,
     if t_duration t \<noteq> 0 then Some (fl (of_int (t_duration t) / 1000)) else None)"

definition useToast :: "toast_state option \<Rightarrow> exn + toast_state" where
  "useToast ctx = (case ctx of None \<Rightarrow> Inl (JsError ''useToast must be used within <ToastProvider>'') | Some v \<Rightarrow> Inr v)"

definition chip_tone :: "string \<Rightarrow> string option" where
  "chip_tone = map_of [(''cyan'', ''text-cyan-300 border-cyan-500/25 bg-cyan-500/[0.07]''),
     (''emerald'', ''text-emerald-300 border-emerald-500/25 bg-emerald-500/[0.07]''),
     (''amber'', ''text-amber-300 border-amber-500/25 bg-amber-500/[0.07]''),
     (''rose'', ''text-rose-300 border-rose-500/25 bg-rose-500/[0.07]'')]"

definition live_pill :: "bool \<Rightarrow> string \<times> string" where
  "live_pill isConnected = (if isConnected then ''emerald'' else ''rose'', if isConnected then ''LIVE'' else ''OFFLINE'')"

lemma page_chips_styled:
  "\<forall>c \<in> set (command_chips es up) \<union> set (threats_chips es). chip_tone (ch_tone c) \<noteq> None"
  by (auto simp: command_chips_def threats_chips_def chip_tone_def)

text \<open>The bar of a card runs exactly as long as the timer that dismisses it, when there is one.\<close>

lemma toast_bar_matches_timer:
  "0 < d \<Longrightarrow> (i, d) \<in> set (ts_timers (push_toast \<lparr>ti_kind = k, ti_title = ti, ti_message = m, ti_duration = Some d\<rparr> (s\<lparr>ts_next := i\<rparr>)))
    \<and> snd (snd (toast_card \<lparr>t_id = i, t_input = \<lparr>ti_kind = k, ti_title = ti, ti_message = m, ti_duration = Some d\<rparr>, t_duration = d\<rparr>))
      = Some (fl (of_int d / 1000))"
  by (simp add: push_toast_def toast_card_def Let_def)

section \<open>The shell\<close>

record overlay =
  ov_dimmed :: bool
  ov_log :: "string list"
  ov_cursor :: bool
  ov_progress :: rat
  ov_online :: bool

definition boot_overlay :: "boot \<Rightarrow> overlay option" where
  "boot_overlay s = (if bo_phase s = Done then None
     else Some \<lparr>ov_dimmed = (bo_phase s = Online), ov_log = boot_log s, ov_cursor = (bo_phase s = Boot),
       ov_progress = boot_progress s, ov_online = (bo_phase s = Online)\<rparr>)"

text \<open>The reticle rings of overlay and sign-in page: their delays in seconds.\<close>

definition reticle_delays :: "rat list" where
  "reticle_delays = map (\<lambda>i. fl (of_nat i * fl (113 / 100))) [0..<3]"

text \<open>
  What the shell renders around a page: banner, key of the page transition, ticker, overlay. The
  timer of the boot effect raises the flag, \<open>onDone\<close> lowers it.
\<close>

definition shell_frame :: "bool \<Rightarrow> bool \<Rightarrow> string \<Rightarrow> analytics_event list \<Rightarrow> bool \<Rightarrow> bool
    \<Rightarrow> (string \<times> string) option \<times> string \<times> string list option \<times> bool" where
  "shell_frame demo isConnected pathname events reduceMotion booting =
     (demo_banner demo, pathname, TelemetryTicker reduceMotion (tickerItems events isConnected demo), booting)"

text \<open>Bars of the equalizer in the sidebar (period, delay), and the text beside them.\<close>

definition equalizer :: "(rat \<times> rat) list" where
  "equalizer = map (\<lambda>(i, d). (d, fl (of_nat i * fl (12 / 100))))
     (enumerate 0 [fl (9 / 10), fl (7 / 10), fl (115 / 100), fl (85 / 100), 1])"

definition sidebar_status :: string where
  "sidebar_status = ''All services operational''"

lemma overlay_cursor: "boot_overlay s = Some v \<Longrightarrow> ov_cursor v \<noteq> ov_online v \<and> ov_dimmed v = ov_online v"
  by (cases "bo_phase s") (auto simp: boot_overlay_def)

lemma ticker_never_empty: "TelemetryTicker False (tickerItems es up demo) \<noteq> None"
  by (simp add: TelemetryTicker_def tickerItems_def)

section \<open>The sign-in page\<close>

text \<open>Headline and features of the left panel, with the delays of their entrance.\<close>

definition story_rows :: "(string \<times> string \<times> rat) list" where
  "story_rows = map (\<lambda>(i, (title, body)). (title, body, fl (fl (3 / 10) + fl (of_nat i * fl (12 / 100))))) (enumerate 0 FEATURES)"

definition mode_tabs :: "'srv login_page \<Rightarrow> (string \<times> bool) list" where
  "mode_tabs s = map (\<lambda>m. (if m = LoginMode then ''Sign in'' else ''Register'', lp_mode s = m)) [LoginMode, RegisterMode]"

definition login_error :: "'srv login_page \<Rightarrow> string option" where
  "login_error s = (if truthy (lp_error s) then lp_error s else None)"

text \<open>The button: disabled, spinner, label, shield.\<close>

definition submit_button :: "'srv login_page \<Rightarrow> bool \<times> bool \<times> string \<times> bool" where
  "submit_button s = (submit_disabled s, lp_loading s, button_label s, \<not> lp_loading s)"

lemma one_mode_tab: "length (filter snd (mode_tabs s)) = 1"
  by (cases "lp_mode s") (simp_all add: mode_tabs_def)

section \<open>Charts\<close>

definition hour_series :: "(string \<times> string \<times> string) list" where
  "hour_series = [(''volume'', ''#3b82f6'', ''Total Volume''),
     (''blocked'', ''#f43f5e'', ''Fraud (score '' @ [CHR 0xE2, CHR 0x89, CHR 0xA5] @ '' 60)'')]"

definition decision_legend :: "analytics_event list \<Rightarrow> (string \<times> string) list" where
  "decision_legend events = map (\<lambda>(name, value, fill). (fill, name @ '': '' @ dec value)) (actionBreakdown events)"

definition fraud_legend :: "analytics_event list \<Rightarrow> (string \<times> string) list \<times> string option" where
  "fraud_legend events = (map (\<lambda>(name, value, color). (color, name)) (fraudTypes events),
     if fraudTypes events = [] then Some ''No fraud events in window'' else None)"

definition score_cells :: "nat list \<Rightarrow> (string \<times> string) list" where
  "score_cells counts = map (\<lambda>(range, count, fill). (range, fill)) (bucket_bars counts)"

text \<open>Chart and legend name the same decisions, and the fraud legend is empty exactly with its notice.\<close>

lemma legends_match:
  "actionBreakdown es \<noteq> [] \<Longrightarrow> map fst (decision_legend es) = map (\<lambda>d. snd (snd d)) (radial_data es)"
  "(snd (fraud_legend es) = None) = (fst (fraud_legend es) \<noteq> [])"
  by (auto simp: decision_legend_def radial_data_def fraud_legend_def comp_def split_beta)

section \<open>Rule editor and ledger\<close>

text \<open>Title, whether the id is fixed, error, and the buttons of the editor: disabled, spinner, label.\<close>

definition editor_title :: "editor \<Rightarrow> string" where
  "editor_title ed = (case ed_editing ed of Some r \<Rightarrow> ''Edit '' @ fr_rule_id r | None \<Rightarrow> ''New Fraud Rule'')"

definition id_field :: "editor \<Rightarrow> bool \<times> string" where
  "id_field ed = (ed_editing ed \<noteq> None, ed_rule_id ed)"

text \<open>The other fields, in order, as the texts or numbers they show.\<close>

definition text_fields :: "editor \<Rightarrow> (string \<times> string) list" where
  "text_fields ed = [(''Name'', ri_name (ed_form ed)), (''Description'', default (ri_description (ed_form ed)) []),
     (''Expression'', ri_expression (ed_form ed))]"

definition feature_buttons :: "string list \<Rightarrow> editor \<Rightarrow> string list" where
  "feature_buttons features ed = filteredFeatures features (ed_query ed)"

definition number_fields :: "editor \<Rightarrow> (string \<times> rat) list" where
  "number_fields ed = [(''Score contribution'', ri_score_contribution (ed_form ed)), (''Priority'', default (ri_priority (ed_form ed)) 50)]"

text \<open>A \<open>select\<close> whose value is none of its options shows the first one.\<close>

definition action_options :: "editor \<Rightarrow> (string \<times> bool) list" where
  "action_options ed = (let shown = (if ri_action (ed_form ed) \<in> set ACTIONS then ri_action (ed_form ed) else hd ACTIONS)
     in map (\<lambda>a. (a, a = shown)) ACTIONS)"

definition enabled_box :: "editor \<Rightarrow> bool" where
  "enabled_box ed = default (ri_is_enabled (ed_form ed)) True"

definition editor_error :: "editor \<Rightarrow> string option" where
  "editor_error ed = (if truthy (ed_error ed) then ed_error ed else None)"

definition save_button :: "editor \<Rightarrow> bool \<times> bool \<times> string" where
  "save_button ed = (save_disabled ed, ed_saving ed, if ed_editing ed \<noteq> None then ''Save changes'' else ''Create rule'')"

definition filter_tabs :: "'srv rules_page \<Rightarrow> (string \<times> bool) list" where
  "filter_tabs s = map (\<lambda>(m, name). (name, rp_filter s = m))
     [(FilterAll, ''all''), (FilterEnabled, ''enabled''), (FilterDisabled, ''disabled'')]"

definition tx_tabs :: "string \<Rightarrow> (string \<times> bool) list" where
  "tx_tabs flt = map (\<lambda>a. (a, flt = a)) tx_actions"

text \<open>An opened rule is shown with its own values; inputs to one field leave the others.\<close>

lemma editor_shows_rule:
  "text_fields (open_editor (Some r)) = [(''Name'', fr_name r), (''Description'', fr_description r), (''Expression'', fr_expression r)]"
  "number_fields (open_editor (Some r)) = [(''Score contribution'', fr_score_contribution r), (''Priority'', fr_priority r)]"
  "id_field (open_editor (Some r)) = (True, fr_rule_id r)" "enabled_box (open_editor (Some r)) = fr_is_enabled r"
  by (simp_all add: text_fields_def number_fields_def id_field_def enabled_box_def open_editor_def initial_form_def)

lemma one_marked:
  assumes "distinct xs" "x \<in> set xs"
  shows "length (filter snd (map (\<lambda>a. (a, a = x)) xs)) = 1"
proof -
  have "{a. a = x} \<inter> set xs = {x}" using assms(2) by auto
  with distinct_length_filter [OF assms(1), of "\<lambda>a. a = x"] show ?thesis by (simp add: filter_map comp_def)
qed

lemma one_option: "length (filter snd (action_options ed)) = 1"
proof -
  have "distinct ACTIONS" "hd ACTIONS \<in> set ACTIONS" by (simp_all add: ACTIONS_def)
  then show ?thesis unfolding action_options_def Let_def by (intro one_marked) simp_all
qed

lemma one_filter_tab: "length (filter snd (filter_tabs s)) = 1"
  by (cases "rp_filter s") (simp_all add: filter_tabs_def)

lemma one_ledger_tab: "flt \<in> set tx_actions \<Longrightarrow> length (filter snd (tx_tabs flt)) = 1"
  using one_marked [of tx_actions flt] by (simp add: tx_tabs_def eq_commute tx_actions_def)

text \<open>
  An action the editor does not offer is shown as BLOCK, but saving sends the rule's own action
  unless the operator chooses one.
\<close>

lemma unknown_action_shown_as_block:
  assumes "fr_action r \<notin> set ACTIONS" "\<forall>i \<in> set is. \<forall>v. i \<noteq> SetAction v"
  shows "map fst (filter snd (action_options (fold edit is (open_editor (Some r))))) = [''BLOCK'']
    \<and> ri_action (ed_form (fold edit is (open_editor (Some r)))) = fr_action r"
proof -
  have "ri_action (ed_form (fold edit is ed)) = ri_action (ed_form ed)" for ed
    using assms(2)
  proof (induction "is" arbitrary: ed)
    case (Cons i rest)
    have "ri_action (ed_form (edit i ed)) = ri_action (ed_form ed)"
      using Cons.prems by (cases i) (auto simp: insertFeature_def)
    with Cons show ?case by simp
  qed simp
  then have "ri_action (ed_form (fold edit is (open_editor (Some r)))) = fr_action r"
    by (simp add: open_editor_def initial_form_def)
  with assms(1) show ?thesis by (simp add: action_options_def Let_def) (simp add: ACTIONS_def)
qed

section \<open>Buttons and banners\<close>

definition reprobe_button :: "bool \<Rightarrow> bool \<times> bool" where
  "reprobe_button probing = (probing, probing)"

definition system_banner :: "string option \<Rightarrow> string option" where
  "system_banner err = (if truthy err then Some (''Telemetry degraded: '' @ the err) else None)"

text \<open>The beam of the world map: its path and the rotation about the centre.\<close>

definition radar_beam :: "(rat \<Rightarrow> string) \<Rightarrow> box \<Rightarrow> string \<times> string \<times> string" where
  "radar_beam show_number sz = (let (cx, cy) = radarCenter sz; x = show_number cx; y = show_number cy in
     (''M '' @ x @ '' '' @ y @ '' L '' @ show_number (fl (bx_x sz + bx_w sz)) @ '' '' @ y
        @ '' A '' @ show_number (fl (bx_w sz / 2)) @ '' '' @ show_number (fl (bx_h sz / 2)) @ '' 0 0 0 '' @ x @ '' ''
        @ show_number (bx_y sz), ''0 '' @ x @ '' '' @ y, ''360 '' @ x @ '' '' @ y))"

end
