(* ===== verification/Rules_Service.thy ===== *)
theory Rules_Service
  imports Api
begin

text \<open>
  The rules of the risk engine: the table of fraud rules (\<open>risk-engine/app/repository/rules_repo.py\<close>,
  \<open>auth-service/migrations/000005_fraud_rules.up.sql\<close>), the management API
  (\<open>risk-engine/app/api/v1/rules.py\<close>, \<open>app/models/schema.py\<close>) and the cache of compiled rules that
  scoring evaluates (\<open>app/domain/rules_engine.py\<close>).

  The expression parser of \<open>py_expression_eval\<close>, UUIDs and what pydantic makes of a UUID in a field
  declared \<open>str\<close> are the fields of \<open>risk_params\<close>. The database is up or down for a whole request, and
  equal keys of an \<open>ORDER BY\<close> keep the order of insertion.
\<close>

section \<open>The feature vocabulary\<close>

text \<open>The fields of the dataclass \<open>Features\<close> with their defaults, in order.\<close>

definition feature_defaults :: "(string \<times> rat) list" where
  "feature_defaults =
    [(''v_login_attempts_1m'', 0), (''v_login_attempts_5m'', 0), (''v_login_attempts_15m'', 0), (''v_login_attempts_1h'', 0),
     (''v_login_failures_1m'', 0), (''v_login_failures_5m'', 0), (''v_login_failures_15m'', 0), (''v_login_failures_1h'', 0),
     (''v_unique_ips_1h'', 0), (''v_unique_ips_24h'', 0), (''v_unique_devices_24h'', 0), (''v_new_countries_7d'', 0),
     (''hours_since_last_login'', 0), (''account_age_days'', 0), (''days_since_email_verified'', 0),
     (''typical_login_hour_mean'', 12), (''typical_login_hour_std'', 4), (''login_hour_z_score'', 0),
     (''is_new_ip'', 0), (''is_new_device'', 0), (''is_new_country'', 0), (''is_new_city'', 0),
     (''total_login_count'', 0), (''total_failed_login_count'', 0), (''locked_count_30d'', 0),
     (''active_sessions_count'', 0), (''historical_avg_risk_score'', 0), (''failed_login_streak'', 0),
     (''geo_distance_from_usual_km'', 0), (''geo_distance_from_last_login_km'', 0),
     (''ip_is_vpn'', 0), (''ip_is_tor'', 0), (''ip_is_datacenter'', 0), (''ip_is_proxy'', 0),
     (''ip_reputation_score'', 50), (''asn_risk_score'', 50), (''country_risk_score'', 0), (''is_high_risk_country'', 0),
     (''password_age_days'', 0), (''has_mfa_enabled'', 0), (''email_verified'', 0), (''account_suspended_count'', 0),
     (''is_active'', 1), (''days_since_last_password_change'', 0),
     (''device_trust_score'', 50), (''browser_type_encoded'', 0), (''os_type_encoded'', 0), (''is_mobile'', 0),
     (''is_headless_browser'', 0), (''is_bot_user_agent'', 0),
     (''hour_of_day'', 12), (''day_of_week'', 1), (''is_weekend'', 0), (''is_off_hours'', 0),
     (''days_to_nearest_holiday'', 30), (''is_holiday_in_user_country'', 0)]"

definition FEATURE_NAMES :: "string list" where
  "FEATURE_NAMES = map fst feature_defaults"

section \<open>The table\<close>

record rule_update =
  ru_name :: string
  ru_description :: string
  ru_expression :: string
  ru_score :: int
  ru_action :: string
  ru_enabled :: bool
  ru_priority :: int

record rule_create = rule_update +
  rc_rule_id :: string

record db_rule = rule_create +
  dr_id :: string
  dr_hit_count :: int
  dr_last_triggered :: "int option"
  dr_created_at :: int

text \<open>
  What the engine calls: \<open>Parser().parse\<close> (the message of the exception, or the tree), the variables
  of a tree, the truth value of a tree over the features (\<open>None\<close> when it raises).
\<close>

record 'a risk_params =
  rk_parse :: "string \<Rightarrow> string + 'a"
  rk_variables :: "'a \<Rightarrow> string list"
  rk_evaluate :: "'a \<Rightarrow> (string \<times> rat) list \<Rightarrow> bool option"
  rk_uuid :: "nat \<Rightarrow> string"
  rk_uuid_as_str :: "string \<Rightarrow> string option"
  rk_service_token :: string

record 'a compiled =
  cr_id :: string
  cr_rule_id :: string
  cr_tree :: 'a
  cr_score :: rat

text \<open>
  \<open>rk_pool\<close>: the pool exists, that is, the database was up at the start; \<open>rk_db\<close>: it is up now;
  \<open>rk_engine\<close>: the cache, absent until the engine is initialised.
\<close>

record 'a rules_state =
  rk_rows :: "db_rule list"
  rk_engine :: "'a compiled list option"
  rk_pool :: bool
  rk_db :: bool
  rk_draws :: nat
  rk_now :: int

definition int32 :: "int \<Rightarrow> bool" where
  "int32 i \<longleftrightarrow> - (2 ^ 31) \<le> i \<and> i < 2 ^ 31"

text \<open>The column types and the two checks of the table.\<close>

definition columns_ok :: "('m) rule_update_scheme \<Rightarrow> bool" where
  "columns_ok r \<longleftrightarrow> length (ru_name r) \<le> 255 \<and> int32 (ru_score r) \<and> int32 (ru_priority r)
     \<and> 0 \<le> ru_score r \<and> ru_score r \<le> 100 \<and> ru_action r \<in> set [''BLOCK'', ''CHALLENGE'', ''REVIEW'', ''FLAG'']"

datatype db_error = UniqueViolation | OtherDbError

definition get_all :: "'a rules_state \<Rightarrow> db_rule list option" where
  "get_all st = (if rk_db st then Some (sort_key (\<lambda>r. - ru_priority r) (sort_key dr_created_at (rk_rows st))) else None)"

definition get_all_enabled :: "'a rules_state \<Rightarrow> db_rule list option" where
  "get_all_enabled st = (if rk_db st then Some (sort_key (\<lambda>r. - ru_priority r) (filter ru_enabled (rk_rows st))) else None)"

definition repo_create :: "'a risk_params \<Rightarrow> rule_create \<Rightarrow> 'a rules_state \<Rightarrow> db_error + db_rule \<times> 'a rules_state" where
  "repo_create P rule st =
     (if \<not> rk_db st then Inl OtherDbError
      else if \<not> columns_ok rule \<or> 20 < length (rc_rule_id rule) then Inl OtherDbError
      else if list_ex (\<lambda>r. rc_rule_id r = rc_rule_id rule) (rk_rows st) then Inl UniqueViolation
      else let row = rule_create.extend rule (db_rule.fields (rk_uuid P (rk_draws st)) 0 None (rk_now st)) in
        Inr (row, st\<lparr>rk_rows := rk_rows st @ [row], rk_draws := rk_draws st + 1\<rparr>))"

definition assign :: "rule_update \<Rightarrow> db_rule \<Rightarrow> db_rule" where
  "assign u r = r\<lparr>ru_name := ru_name u, ru_description := ru_description u, ru_expression := ru_expression u,
     ru_score := ru_score u, ru_action := ru_action u, ru_enabled := ru_enabled u, ru_priority := ru_priority u\<rparr>"

text \<open>\<open>None\<close> inside: no row has the id. A failed check only counts when a row is touched.\<close>

definition update_by_rule_id :: "string \<Rightarrow> rule_update \<Rightarrow> 'a rules_state \<Rightarrow> db_error + (db_rule \<times> 'a rules_state) option" where
  "update_by_rule_id rid u st =
     (if \<not> rk_db st then Inl OtherDbError
      else case find (\<lambda>r. rc_rule_id r = rid) (rk_rows st) of None \<Rightarrow> if int32 (ru_score u) \<and> int32 (ru_priority u)
          then Inr None else Inl OtherDbError
      | Some r \<Rightarrow> if \<not> columns_ok u then Inl OtherDbError
          else Inr (Some (assign u r, st\<lparr>rk_rows := map (\<lambda>r. if rc_rule_id r = rid then assign u r else r) (rk_rows st)\<rparr>)))"

definition delete_by_rule_id :: "string \<Rightarrow> 'a rules_state \<Rightarrow> (bool \<times> 'a rules_state) option" where
  "delete_by_rule_id rid st = (if \<not> rk_db st then None
     else Some (length (filter (\<lambda>r. rc_rule_id r = rid) (rk_rows st)) = 1,
       st\<lparr>rk_rows := filter (\<lambda>r. rc_rule_id r \<noteq> rid) (rk_rows st)\<rparr>))"

definition increment_hit_counts :: "string list \<Rightarrow> 'a rules_state \<Rightarrow> 'a rules_state" where
  "increment_hit_counts ids st = (if rk_db st
     then st\<lparr>rk_rows := map (\<lambda>r. if dr_id r \<in> set ids then r\<lparr>dr_hit_count := dr_hit_count r + 1,
         dr_last_triggered := Some (rk_now st)\<rparr> else r) (rk_rows st)\<rparr>
     else st)"

section \<open>The engine\<close>

definition compile_rule :: "'a risk_params \<Rightarrow> db_rule \<Rightarrow> 'a compiled option" where
  "compile_rule P r = (case rk_parse P (ru_expression r) of Inl _ \<Rightarrow> None
     | Inr tree \<Rightarrow> Some \<lparr>cr_id = dr_id r, cr_rule_id = rc_rule_id r, cr_tree = tree, cr_score = of_int (ru_score r)\<rparr>)"

definition compile_rules :: "'a risk_params \<Rightarrow> db_rule list \<Rightarrow> 'a compiled list" where
  "compile_rules P rows = List.map_filter (compile_rule P) (filter ru_enabled rows)"

definition load_rules :: "'a risk_params \<Rightarrow> 'a rules_state \<Rightarrow> 'a rules_state option" where
  "load_rules P st = map_option (\<lambda>rows. st\<lparr>rk_engine := Some (compile_rules P rows)\<rparr>) (get_all_enabled st)"

text \<open>
  The start of the process. Without the database there is neither pool nor engine; otherwise the
  engine exists, with an empty cache, before its rules are loaded.
\<close>

definition lifespan :: "'a risk_params \<Rightarrow> 'a rules_state \<Rightarrow> 'a rules_state" where
  "lifespan P st = 
     (if rk_db st then (let st = st\<lparr>rk_pool := True, rk_engine := Some []\<rparr> in default (load_rules P st) st)
      else st\<lparr>rk_pool := False, rk_engine := None\<rparr>)"

text \<open>\<open>get_rules_engine().reload_rules()\<close>, which raises without an engine.\<close>

definition reload_rules :: "'a risk_params \<Rightarrow> 'a rules_state \<Rightarrow> 'a rules_state option" where
  "reload_rules P st = (if rk_engine st = None then None else load_rules P st)"

fun eval_rules :: "'a risk_params \<Rightarrow> (string \<times> rat) list \<Rightarrow> 'a compiled list \<Rightarrow> rat \<times> string list \<times> string list
    \<Rightarrow> rat \<times> string list \<times> string list" where
  "eval_rules P fs [] acc = acc"
| "eval_rules P fs (r # rs) (m, ids, dbs) = eval_rules P fs rs
     (if rk_evaluate P (cr_tree r) fs = Some True then (max m (cr_score r), ids @ [cr_rule_id r], dbs @ [cr_id r]) else (m, ids, dbs))"

text \<open>
  \<open>evaluate\<close>; \<open>running_loop\<close> says whether the calling thread runs an event loop, without which
  \<open>asyncio.create_task\<close> raises. The hit counts are written by that task.
\<close>

definition evaluate_rules :: "'a risk_params \<Rightarrow> bool \<Rightarrow> (string \<times> rat) list \<Rightarrow> 'a compiled list \<Rightarrow> 'a rules_state
    \<Rightarrow> (rat \<times> string list) option \<times> 'a rules_state" where
  "evaluate_rules P running_loop fs cache st = (case eval_rules P fs cache (0, [], []) of (m, ids, dbs) \<Rightarrow>
     if dbs = [] then (Some (m, ids), st)
     else if \<not> running_loop then (None, st)
     else (Some (m, ids), increment_hit_counts dbs st))"

section \<open>Replies\<close>

datatype rules_body = RulesJson "fraud_rule list" | RuleJson fraud_rule | FeaturesJson "string list"
  | Detail string | FieldErrors | Reloaded nat | NoContent | InternalError | MethodNotAllowed | Redirect

record rules_reply =
  ry_status :: nat
  ry_body :: rules_body

definition http_exception :: "nat \<Rightarrow> string \<Rightarrow> rules_reply" where
  "http_exception status text = \<lparr>ry_status = status, ry_body = Detail text\<rparr>"

definition internal_error :: rules_reply where
  "internal_error = \<lparr>ry_status = 500, ry_body = InternalError\<rparr>"

text \<open>The validation of a row against \<open>RuleResponse\<close>.\<close>

definition serialize_rule :: "'a risk_params \<Rightarrow> db_rule \<Rightarrow> fraud_rule option" where
  "serialize_rule P r = map_option (\<lambda>i. \<lparr>fr_id = i, fr_rule_id = rc_rule_id r, fr_name = ru_name r,
     fr_description = ru_description r, fr_expression = ru_expression r, fr_score_contribution = of_int (ru_score r),
     fr_action = ru_action r, fr_is_enabled = ru_enabled r, fr_priority = of_int (ru_priority r),
     fr_hit_count = dr_hit_count r, fr_last_triggered_at = map_option Iso (dr_last_triggered r),
     fr_created_at = Iso (dr_created_at r)\<rparr>) (rk_uuid_as_str P (dr_id r))"

definition respond_rule :: "'a risk_params \<Rightarrow> nat \<Rightarrow> db_rule \<Rightarrow> rules_reply" where
  "respond_rule P status r = (case serialize_rule P r of None \<Rightarrow> internal_error
     | Some j \<Rightarrow> \<lparr>ry_status = status, ry_body = RuleJson j\<rparr>)"

definition respond_rules :: "'a risk_params \<Rightarrow> db_rule list \<Rightarrow> rules_reply" where
  "respond_rules P rs = (let js = map (serialize_rule P) rs in
     if None \<in> set js then internal_error else \<lparr>ry_status = 200, ry_body = RulesJson (map the js)\<rparr>)"

section \<open>Requests\<close>

text \<open>
  The JSON bodies, read as the pydantic models read them: a number is an \<open>int\<close> only without a fraction,
  absent optional fields take their defaults.
\<close>

definition json_int :: "rat \<Rightarrow> int option" where
  "json_int r = (if of_int \<lfloor>r\<rfloor> = r then Some \<lfloor>r\<rfloor> else None)"

fun parse_update :: "req_body \<Rightarrow> rule_update option" where
  "parse_update (RuleBody i) =
     (case (json_int (ri_score_contribution i), json_int (default (ri_priority i) 50)) of
        (Some score, Some priority) \<Rightarrow> Some \<lparr>ru_name = ri_name i, ru_description = default (ri_description i) [],
          ru_expression = ri_expression i, ru_score = score, ru_action = ri_action i,
          ru_enabled = default (ri_is_enabled i) True, ru_priority = priority\<rparr>
      | _ \<Rightarrow> None)"
| "parse_update _ = None"

definition parse_create :: "req_body \<Rightarrow> rule_create option" where
  "parse_create body = (case body of
     RuleBody i \<Rightarrow> (case (ri_rule_id i, parse_update body) of
       (Some rid, Some u) \<Rightarrow> Some (rule_update.extend u (rule_create.fields rid)) | _ \<Rightarrow> None)
   | _ \<Rightarrow> None)"

definition require_admin :: "'a risk_params \<Rightarrow> request \<Rightarrow> bool" where
  "require_admin P rq \<longleftrightarrow>
     rk_service_token P \<noteq> [] \<and> rq_headers rq ''X-Service-Token'' = Some (rk_service_token P)
     \<or> default (rq_headers rq ''X-User-Role'') [] = ''admin''"

definition forbidden_reply :: rules_reply where
  "forbidden_reply = http_exception 403 ''admin role required''"

definition join_comma :: "string list \<Rightarrow> string" where
  "join_comma xs = concat (case xs of [] \<Rightarrow> [] | x # ys \<Rightarrow> x # map (\<lambda>y. '', '' @ y) ys)"

text \<open>The set of unknown names, sorted by character codes.\<close>

fun code_le :: "string \<Rightarrow> string \<Rightarrow> bool" where
  "code_le [] t = True"
| "code_le (c # s) [] = False"
| "code_le (c # s) (d # t) = (char_code c < char_code d \<or> c = d \<and> code_le s t)"

fun insert_name :: "string \<Rightarrow> string list \<Rightarrow> string list" where
  "insert_name x [] = [x]"
| "insert_name x (y # ys) = (if code_le x y then x # y # ys else y # insert_name x ys)"

definition unknown_features :: "'a risk_params \<Rightarrow> 'a \<Rightarrow> string list" where
  "unknown_features P tree = foldr insert_name (remdups (filter (\<lambda>v. v \<notin> set FEATURE_NAMES) (rk_variables P tree))) []"

definition validate_expression :: "'a risk_params \<Rightarrow> string \<Rightarrow> rules_reply option" where
  "validate_expression P expr =
     (if expr = [] \<or> 512 < length expr then Some (http_exception 422 ''expression must be 1-512 characters'')
      else case rk_parse P expr of Inl exc \<Rightarrow> Some (http_exception 422 (''expression does not compile: '' @ exc))
      | Inr tree \<Rightarrow>
          if unknown_features P tree \<noteq> []
          then Some (http_exception 422 (''unknown feature(s): '' @ join_comma (unknown_features P tree)
            @ ''. See /api/v1/rules/features''))
          else if rk_variables P tree = [] then Some (http_exception 422 ''expression must reference at least one feature'')
          else None)"

section \<open>Handlers\<close>

text \<open>
  The dependencies of a route come first: the role, then the repository, which needs the pool; then
  the body.
\<close>

definition get_all_rules :: "'a risk_params \<Rightarrow> 'a rules_state \<Rightarrow> rules_reply" where
  "get_all_rules P st = (if \<not> rk_pool st then internal_error
     else case get_all st of None \<Rightarrow> internal_error | Some rows \<Rightarrow> respond_rules P rows)"

definition create_rule :: "'a risk_params \<Rightarrow> request \<Rightarrow> 'a rules_state \<Rightarrow> rules_reply \<times> 'a rules_state" where
  "create_rule P rq st =
     (if \<not> require_admin P rq then (forbidden_reply, st)
      else if \<not> rk_pool st then (internal_error, st)
      else case parse_create (rq_body rq) of None \<Rightarrow> (\<lparr>ry_status = 422, ry_body = FieldErrors\<rparr>, st)
      | Some rule \<Rightarrow> (case validate_expression P (ru_expression rule) of Some r \<Rightarrow> (r, st)
      | None \<Rightarrow> (case repo_create P rule st of
          Inl UniqueViolation \<Rightarrow> (http_exception 409 ''rule_id already exists'', st)
        | Inl OtherDbError \<Rightarrow> (http_exception 500 ''failed to create rule'', st)
        | Inr (created, st') \<Rightarrow> (case reload_rules P st' of None \<Rightarrow> (internal_error, st')
            | Some st'' \<Rightarrow> (respond_rule P 201 created, st'')))))"

definition update_rule :: "'a risk_params \<Rightarrow> string \<Rightarrow> request \<Rightarrow> 'a rules_state \<Rightarrow> rules_reply \<times> 'a rules_state" where
  "update_rule P rid rq st =
     (if \<not> require_admin P rq then (forbidden_reply, st)
      else if \<not> rk_pool st then (internal_error, st)
      else case parse_update (rq_body rq) of None \<Rightarrow> (\<lparr>ry_status = 422, ry_body = FieldErrors\<rparr>, st)
      | Some u \<Rightarrow> (case validate_expression P (ru_expression u) of Some r \<Rightarrow> (r, st)
      | None \<Rightarrow> (case update_by_rule_id rid u st of Inl _ \<Rightarrow> (internal_error, st)
        | Inr None \<Rightarrow> (http_exception 404 ''rule not found'', st)
        | Inr (Some (updated, st')) \<Rightarrow> (case reload_rules P st' of None \<Rightarrow> (internal_error, st')
            | Some st'' \<Rightarrow> (respond_rule P 200 updated, st'')))))"

definition delete_rule :: "'a risk_params \<Rightarrow> string \<Rightarrow> request \<Rightarrow> 'a rules_state \<Rightarrow> rules_reply \<times> 'a rules_state" where
  "delete_rule P rid rq st =
     (if \<not> require_admin P rq then (forbidden_reply, st)
      else if \<not> rk_pool st then (internal_error, st)
      else case delete_by_rule_id rid st of None \<Rightarrow> (internal_error, st)
      | Some (deleted, st') \<Rightarrow>
          if \<not> deleted then (http_exception 404 ''rule not found'', st')
          else (case reload_rules P st' of None \<Rightarrow> (internal_error, st')
            | Some st'' \<Rightarrow> (\<lparr>ry_status = 204, ry_body = NoContent\<rparr>, st'')))"

definition reload_rules_cache :: "'a risk_params \<Rightarrow> request \<Rightarrow> 'a rules_state \<Rightarrow> rules_reply \<times> 'a rules_state" where
  "reload_rules_cache P rq st =
     (if \<not> require_admin P rq then (forbidden_reply, st)
      else case reload_rules P st of None \<Rightarrow> (internal_error, st)
      | Some st' \<Rightarrow> (\<lparr>ry_status = 200, ry_body = Reloaded (length (default (rk_engine st') []))\<rparr>, st'))"

text \<open>
  The routes under \<open>/api/v1/rules\<close>; \<open>path\<close> is what follows that prefix. The rule id is one decoded
  segment of the path.
\<close>

definition rule_segment :: "string \<Rightarrow> string option" where
  "rule_segment path = (let rid = decodeURIComponent (drop 1 path) in
     if startsWith path ''/'' \<and> rid \<noteq> [] \<and> CHR ''/'' \<notin> set rid then Some rid else None)"

definition rules_serve :: "'a risk_params \<Rightarrow> string \<Rightarrow> request \<Rightarrow> 'a rules_state \<Rightarrow> rules_reply \<times> 'a rules_state" where
  "rules_serve P path rq st =
     (if path = '''' then (\<lparr>ry_status = 307, ry_body = Redirect\<rparr>, st)
      else if path = ''/'' then
        (if rq_method rq = ''GET'' then (get_all_rules P st, st)
         else if rq_method rq = ''POST'' then create_rule P rq st
         else (\<lparr>ry_status = 405, ry_body = MethodNotAllowed\<rparr>, st))
      else if path = ''/features'' \<and> rq_method rq = ''GET''
        then (\<lparr>ry_status = 200, ry_body = FeaturesJson FEATURE_NAMES\<rparr>, st)
      else if path = ''/reload'' \<and> rq_method rq = ''POST'' then reload_rules_cache P rq st
      else case rule_segment path of None \<Rightarrow> (http_exception 404 ''Not Found'', st)
      | Some rid \<Rightarrow>
          if rq_method rq = ''PUT'' then update_rule P rid rq st
          else if rq_method rq = ''DELETE'' then delete_rule P rid rq st
          else (\<lparr>ry_status = 405, ry_body = MethodNotAllowed\<rparr>, st))"

section \<open>The service over time\<close>

datatype rules_event = RulesRequest string request | RulesWait nat | RulesDb bool

fun rules_step :: "'a risk_params \<Rightarrow> rules_event \<Rightarrow> 'a rules_state \<Rightarrow> 'a rules_state" where
  "rules_step P (RulesRequest path rq) st = snd (rules_serve P path rq st)"
| "rules_step P (RulesWait ms) st = st\<lparr>rk_now := rk_now st + int ms\<rparr>"
| "rules_step P (RulesDb up) st = st\<lparr>rk_db := up\<rparr>"

section \<open>The cache is the table\<close>

text \<open>
  The constraints of the table, and the engine: what it evaluates is what the table says, compiled.
\<close>

definition enabled_rows :: "'a rules_state \<Rightarrow> db_rule list" where
  "enabled_rows st = sort_key (\<lambda>r. - ru_priority r) (filter ru_enabled (rk_rows st))"

definition rows_ok :: "db_rule list \<Rightarrow> bool" where
  "rows_ok rows \<longleftrightarrow> distinct (map rc_rule_id rows) \<and> (\<forall>r \<in> set rows. columns_ok r \<and> length (rc_rule_id r) \<le> 20)"

definition rules_ok :: "'a risk_params \<Rightarrow> 'a rules_state \<Rightarrow> bool" where
  "rules_ok P st \<longleftrightarrow> rows_ok (rk_rows st)
     \<and> (\<forall>cache. rk_engine st = Some cache \<longrightarrow> cache = compile_rules P (enabled_rows st))"

lemma reload_rules_ok:
  assumes "rows_ok (rk_rows st)" "reload_rules P st = Some st'"
  shows "rules_ok P st' \<and> rk_rows st' = rk_rows st"
  using assms by (auto simp: reload_rules_def load_rules_def get_all_enabled_def rules_ok_def enabled_rows_def split: if_splits)

lemma reload_rules_fails:
  "reload_rules P st = None \<Longrightarrow> rk_db st \<Longrightarrow> rk_engine st = None"
  by (auto simp: reload_rules_def load_rules_def get_all_enabled_def split: if_splits)

lemma columns_ok_more: "columns_ok (rule_create.extend r m) = columns_ok r" "columns_ok (assign u x) = columns_ok u"
  by (simp_all add: columns_ok_def rule_create.defs assign_def)

lemma extend_rule [simp]: "rc_rule_id (rule_create.extend r m) = rc_rule_id r"
  "rule_create.truncate (rule_create.extend r m) = r"
  "ru_enabled (rule_create.extend r m) = ru_enabled r" "ru_expression (rule_create.extend r m) = ru_expression r"
  "dr_hit_count (rule_create.extend r (db_rule.fields i n t c)) = n" "dr_id (rule_create.extend r (db_rule.fields i n t c)) = i"
  by (simp_all add: rule_create.defs db_rule.defs)

lemma repo_create_ok:
  assumes "repo_create P rule st = Inr (row, st')" "rows_ok (rk_rows st)"
  shows "rows_ok (rk_rows st') \<and> rk_engine st' = rk_engine st \<and> rk_db st' \<and> rk_rows st' = rk_rows st @ [row]
    \<and> rule_create.truncate row = rule \<and> dr_hit_count row = 0"
proof -
  from assms(1) have row: "row = rule_create.extend rule (db_rule.fields (rk_uuid P (rk_draws st)) 0 None (rk_now st))"
    "st' = st\<lparr>rk_rows := rk_rows st @ [row], rk_draws := rk_draws st + 1\<rparr>" "rk_db st"
    "columns_ok rule" "length (rc_rule_id rule) \<le> 20" "\<not> list_ex (\<lambda>r. rc_rule_id r = rc_rule_id rule) (rk_rows st)"
    by (auto simp: repo_create_def Let_def split: if_splits)
  then have "rc_rule_id rule \<notin> rc_rule_id ` set (rk_rows st)" by (auto simp: list_ex_iff)
  with row assms(2) show ?thesis by (simp add: rows_ok_def columns_ok_more)
qed

lemma assign_id [simp]: "rc_rule_id (assign u r) = rc_rule_id r" "dr_id (assign u r) = dr_id r"
  by (simp_all add: assign_def)

lemma update_ok:
  assumes "update_by_rule_id rid u st = Inr (Some (row, st'))" "rows_ok (rk_rows st)"
  shows "rows_ok (rk_rows st') \<and> rk_engine st' = rk_engine st \<and> rk_db st' \<and> row \<in> set (rk_rows st') \<and> rc_rule_id row = rid"
proof -
  let ?f = "\<lambda>r. if rc_rule_id r = rid then assign u r else r"
  have ids: "map rc_rule_id (map ?f rs) = map rc_rule_id rs" for rs
    by (induction rs) auto
  from assms(1) obtain r where r: "find (\<lambda>r. rc_rule_id r = rid) (rk_rows st) = Some r" "columns_ok u" "rk_db st"
    "row = assign u r" "st' = st\<lparr>rk_rows := map ?f (rk_rows st)\<rparr>"
    by (auto simp: update_by_rule_id_def split: if_splits option.splits)
  from r(1) have "r \<in> set (rk_rows st)" "rc_rule_id r = rid" by (auto simp: find_Some_iff)
  moreover have "rows_ok (map ?f (rk_rows st))"
    unfolding rows_ok_def ids using assms(2) r(2) by (auto simp: rows_ok_def columns_ok_more)
  ultimately show ?thesis using r by (auto simp: image_iff)
qed

lemma one_or_none:
  "distinct (map rc_rule_id rs) \<Longrightarrow> length (filter (\<lambda>r. rc_rule_id r = rid) rs) = 1 \<or> filter (\<lambda>r. rc_rule_id r \<noteq> rid) rs = rs"
proof (induction rs)
  case (Cons r rs)
  have "rc_rule_id r = rid \<Longrightarrow> filter (\<lambda>r. rc_rule_id r = rid) rs = []"
    using Cons.prems by (auto simp: filter_empty_conv image_iff)
  with Cons show ?case by auto
qed simp

lemma delete_ok:
  assumes "delete_by_rule_id rid st = Some (b, st')" "rows_ok (rk_rows st)"
  shows "rows_ok (rk_rows st') \<and> rk_engine st' = rk_engine st \<and> rk_db st' \<and> (\<not> b \<longrightarrow> st' = st)"
proof -
  from assms(1) have st': "b = (length (filter (\<lambda>r. rc_rule_id r = rid) (rk_rows st)) = 1)" "rk_db st"
    "st' = st\<lparr>rk_rows := filter (\<lambda>r. rc_rule_id r \<noteq> rid) (rk_rows st)\<rparr>"
    by (auto simp: delete_by_rule_id_def split: if_splits)
  moreover have "\<not> b \<longrightarrow> filter (\<lambda>r. rc_rule_id r \<noteq> rid) (rk_rows st) = rk_rows st"
    using one_or_none [of "rk_rows st" rid] assms(2) st'(1) by (auto simp: rows_ok_def)
  ultimately show ?thesis using assms(2) by (auto simp: rows_ok_def distinct_map_filter)
qed

text \<open>
  A handler leaves the state alone, or changes the table and reloads; only an administrator gets that
  far.
\<close>

definition after_reload :: "'a risk_params \<Rightarrow> 'a rules_state \<Rightarrow> 'a rules_state" where
  "after_reload P st = default (reload_rules P st) st"

lemma snd_reloaded:
  "snd (case reload_rules P s of None \<Rightarrow> (r, s) | Some s' \<Rightarrow> (f s', s')) = after_reload P s"
  by (simp add: after_reload_def split: option.split)

lemma create_rule_state:
  "snd (create_rule P rq st) = st \<or> (require_admin P rq \<and> (\<exists>rule created st'.
     repo_create P rule st = Inr (created, st') \<and> snd (create_rule P rq st) = after_reload P st'))"
proof (cases "require_admin P rq \<and> rk_pool st")
  case True
  show ?thesis
  proof (cases "parse_create (rq_body rq)")
    case (Some rule)
    show ?thesis
    proof (cases "validate_expression P (ru_expression rule)")
      case None
      show ?thesis
      proof (cases "repo_create P rule st")
        case (Inl e)
        with True None Some show ?thesis by (cases e) (simp_all add: create_rule_def)
      next
        case (Inr p)
        then obtain created st' where p: "repo_create P rule st = Inr (created, st')" by (cases p) simp
        then have "snd (create_rule P rq st) = after_reload P st'"
          using True None Some by (simp add: create_rule_def snd_reloaded)
        with p True show ?thesis by blast
      qed
    qed (use True Some in \<open>simp add: create_rule_def\<close>)
  qed (use True in \<open>simp add: create_rule_def\<close>)
qed (auto simp: create_rule_def)

lemma update_rule_state:
  "snd (update_rule P rid rq st) = st \<or> (require_admin P rq \<and> (\<exists>u row st'.
     update_by_rule_id rid u st = Inr (Some (row, st')) \<and> snd (update_rule P rid rq st) = after_reload P st'))"
proof (cases "require_admin P rq \<and> rk_pool st")
  case True
  show ?thesis
  proof (cases "parse_update (rq_body rq)")
    case (Some u)
    show ?thesis
    proof (cases "validate_expression P (ru_expression u) \<noteq> None \<or> (\<exists>e. update_by_rule_id rid u st = Inl e)
        \<or> update_by_rule_id rid u st = Inr None")
      case False
      then obtain row st' where p: "update_by_rule_id rid u st = Inr (Some (row, st'))"
        by (cases "update_by_rule_id rid u st") auto
      then have "snd (update_rule P rid rq st) = after_reload P st'"
        using True False Some by (simp add: update_rule_def snd_reloaded)
      with p True show ?thesis by blast
    qed (use True Some in \<open>auto simp: update_rule_def split: option.split\<close>)
  qed (use True in \<open>simp add: update_rule_def\<close>)
qed (auto simp: update_rule_def)

lemma delete_rule_state:
  "snd (delete_rule P rid rq st) = st \<or> (require_admin P rq \<and> (\<exists>b st'. delete_by_rule_id rid st = Some (b, st')
     \<and> (snd (delete_rule P rid rq st) = after_reload P st' \<or> \<not> b \<and> snd (delete_rule P rid rq st) = st')))"
proof (cases "require_admin P rq \<and> rk_pool st")
  case True
  show ?thesis
  proof (cases "delete_by_rule_id rid st")
    case (Some p)
    obtain b st' where p: "p = (b, st')" by fastforce
    have "snd (delete_rule P rid rq st) = (if b then after_reload P st' else st')"
      using True Some p by (simp add: delete_rule_def snd_reloaded)
    with Some p True show ?thesis by (cases b) auto
  qed (use True in \<open>simp add: delete_rule_def\<close>)
qed (auto simp: delete_rule_def)

lemma reload_cache_state:
  "snd (reload_rules_cache P rq st) = st \<or> (require_admin P rq \<and> snd (reload_rules_cache P rq st) = after_reload P st)"
  by (auto simp: reload_rules_cache_def after_reload_def default_def split: option.split)

lemma changed_ok:
  assumes "rules_ok P st" "rows_ok (rk_rows st')" "rk_engine st' = rk_engine st" "rk_db st'"
  shows "rules_ok P (after_reload P st')"
proof (cases "reload_rules P st'")
  case None
  then have "rk_engine st' = None" using assms(4) reload_rules_fails by blast
  with None assms(2) show ?thesis by (simp add: after_reload_def rules_ok_def)
next
  case (Some st'')
  with reload_rules_ok [OF assms(2)] show ?thesis by (simp add: after_reload_def)
qed

lemma handler_ok:
  assumes "rules_ok P st"
  shows "rules_ok P (snd (create_rule P rq st))" "rules_ok P (snd (update_rule P rid rq st))"
    "rules_ok P (snd (delete_rule P rid rq st))" "rules_ok P (snd (reload_rules_cache P rq st))"
proof -
  have rows: "rows_ok (rk_rows st)" using assms by (simp add: rules_ok_def)
  show "rules_ok P (snd (create_rule P rq st))"
    using create_rule_state [of P rq st]
  proof (elim disjE conjE exE)
    fix rule created st'
    assume c: "repo_create P rule st = Inr (created, st')" "snd (create_rule P rq st) = after_reload P st'"
    from repo_create_ok [OF c(1) rows] show ?thesis unfolding c(2) by (blast intro: changed_ok [OF assms])
  qed (simp add: assms)
  show "rules_ok P (snd (update_rule P rid rq st))"
    using update_rule_state [of P rid rq st]
  proof (elim disjE conjE exE)
    fix u row st'
    assume c: "update_by_rule_id rid u st = Inr (Some (row, st'))" "snd (update_rule P rid rq st) = after_reload P st'"
    with changed_ok [OF assms] update_ok [OF c(1) rows] show ?thesis by simp
  qed (simp add: assms)
  show "rules_ok P (snd (delete_rule P rid rq st))"
    using delete_rule_state [of P rid rq st]
  proof (elim disjE conjE exE)
    fix b st'
    assume c: "delete_by_rule_id rid st = Some (b, st')" "snd (delete_rule P rid rq st) = after_reload P st'"
    with changed_ok [OF assms] delete_ok [OF c(1) rows] show ?thesis by simp
  next
    fix b st'
    assume c: "delete_by_rule_id rid st = Some (b, st')" "\<not> b" "snd (delete_rule P rid rq st) = st'"
    with delete_ok [OF c(1) rows] assms show ?thesis by simp
  qed (simp add: assms)
  show "rules_ok P (snd (reload_rules_cache P rq st))"
    using reload_cache_state [of P rq st] reload_rules_ok [OF rows] assms
    by (cases "reload_rules P st") (auto simp: after_reload_def)
qed

lemma rules_serve_ok: "rules_ok P st \<Longrightarrow> rules_ok P (snd (rules_serve P path rq st))"
  unfolding rules_serve_def by (auto simp: handler_ok split: option.split)

interpretation rules: machine "rules_step P" "rules_ok P" for P
proof
  fix st and e :: rules_event
  assume "rules_ok P st"
  then show "rules_ok P (rules_step P e st)"
  proof (cases e)
    case (RulesRequest path rq)
    with \<open>rules_ok P st\<close> show ?thesis by (simp add: rules_serve_ok)
  qed (simp_all add: rules_ok_def enabled_rows_def)
qed

lemma lifespan_ok: "rows_ok (rk_rows st) \<Longrightarrow> rules_ok P (lifespan P st)"
  by (simp add: rules_ok_def lifespan_def load_rules_def get_all_enabled_def enabled_rows_def Let_def)

section \<open>What evaluation means\<close>

definition fires :: "'a risk_params \<Rightarrow> (string \<times> rat) list \<Rightarrow> db_rule \<Rightarrow> bool" where
  "fires P fs r \<longleftrightarrow> (case rk_parse P (ru_expression r) of Inl _ \<Rightarrow> False | Inr tree \<Rightarrow> rk_evaluate P tree fs = Some True)"

lemma eval_compiled:
  "eval_rules P fs (compile_rules P rows) (m, ids, dbs) =
     (let hits = filter (fires P fs) (filter ru_enabled rows) in
      (fold max (map (\<lambda>r. of_int (ru_score r)) hits) m, ids @ map rc_rule_id hits, dbs @ map dr_id hits))"
proof (induction rows arbitrary: m ids dbs)
  case (Cons r rows)
  then show ?case
    by (cases "rk_parse P (ru_expression r)")
      (auto simp: compile_rules_def compile_rule_def fires_def map_filter_simps max.commute Let_def)
qed (simp add: compile_rules_def map_filter_simps)

lemma fold_max_le: "fold max xs (m :: rat) \<le> b \<longleftrightarrow> m \<le> b \<and> (\<forall>x \<in> set xs. x \<le> b)"
  by (induction xs arbitrary: m) auto

lemma fold_max_in: "fold max xs (m :: rat) \<in> insert m (set xs)"
proof (induction xs arbitrary: m)
  case (Cons x xs)
  from Cons [of "max x m"] show ?case by (auto simp: max_def split: if_splits)
qed simp

lemma fold_max: "fold max xs (m :: rat) = Max (insert m (set xs))"
proof (rule antisym)
  show "fold max xs m \<le> Max (insert m (set xs))" using fold_max_in [of xs m] by (simp only: Max_ge finite_insert finite_set)
  show "Max (insert m (set xs)) \<le> fold max xs m" using fold_max_le [of xs m "fold max xs m"] by simp
qed

text \<open>
  C9: hot reloading keeps what is scored in step with the table. In every state the service reaches
  from its start, through any requests, waiting times and outages, evaluating the cache gives the ids of
  exactly the enabled rules of the table whose expressions hold for the features, in order of priority,
  and the highest of their scores.
\<close>

theorem engine_refines_table:
  fixes P :: "'a risk_params" and events
  assumes "rows_ok (rk_rows st0)"
  defines "st \<equiv> fold (rules_step P) events (lifespan P st0)"
  assumes "rk_engine st = Some cache"
  shows "\<exists>dbs. eval_rules P fs cache (0, [], []) = (Max (insert 0 {of_int (ru_score r) | r. r \<in> set (rk_rows st) \<and> ru_enabled r \<and> fires P fs r}),
     map rc_rule_id (filter (fires P fs) (sort_key (\<lambda>r. - ru_priority r) (filter ru_enabled (rk_rows st)))), dbs)"
proof -
  have "rules_ok P st" unfolding st_def by (intro rules.run lifespan_ok assms(1))
  then have c: "cache = compile_rules P (enabled_rows st)" using assms(3) by (simp add: rules_ok_def)
  have e: "filter ru_enabled (enabled_rows st) = enabled_rows st" by (auto simp: enabled_rows_def filter_id_conv)
  let ?hits = "filter (fires P fs) (enabled_rows st)"
  have "set (map (\<lambda>r. rat_of_int (ru_score r)) ?hits) = {of_int (ru_score r) | r. r \<in> set (rk_rows st) \<and> ru_enabled r \<and> fires P fs r}"
    by (auto simp: enabled_rows_def)
  then show ?thesis unfolding c eval_compiled e Let_def fold_max by (auto simp: enabled_rows_def)
qed

text \<open>An engine whose expressions are single feature names, and a table with two rules.\<close>

definition sample_risk :: "string risk_params" where
  "sample_risk = \<lparr>rk_parse = (\<lambda>e. Inr e), rk_variables = (\<lambda>t. [t]),
     rk_evaluate = (\<lambda>t fs. map_option (\<lambda>x. x \<noteq> 0) (map_of fs t)), rk_uuid = (\<lambda>n. ''id'' @ dec n),
     rk_uuid_as_str = (\<lambda>_. None), rk_service_token = ''''\<rparr>"

definition sample_row :: "string \<Rightarrow> string \<Rightarrow> int \<Rightarrow> bool \<Rightarrow> db_rule" where
  "sample_row rid expr score enabled = \<lparr>ru_name = rid, ru_description = [], ru_expression = expr, ru_score = score,
     ru_action = ''BLOCK'', ru_enabled = enabled, ru_priority = 50, rc_rule_id = rid, dr_id = rid, dr_hit_count = 0,
     dr_last_triggered = None, dr_created_at = 0\<rparr>"

definition sample_rules :: "string rules_state" where
  "sample_rules = \<lparr>rk_rows = [sample_row ''R1'' ''is_headless_browser'' 75 True, sample_row ''R2'' ''is_mobile'' 60 True],
     rk_engine = None, rk_pool = False, rk_db = True, rk_draws = 0, rk_now = 0\<rparr>"

lemma sample_rows_ok: "rows_ok (rk_rows sample_rules)"
  by (simp add: rows_ok_def sample_rules_def sample_row_def columns_ok_def int32_def)

theorem engine_refines_table_witness:
  "\<exists>cache dbs. rk_engine (fold (rules_step sample_risk) [RulesDb False, RulesDb True] (lifespan sample_risk sample_rules)) = Some cache
     \<and> eval_rules sample_risk [(''is_headless_browser'', 1), (''is_mobile'', 0)] cache (0, [], []) = (75, [''R1''], dbs)"
proof -
  let ?st = "fold (rules_step sample_risk) [RulesDb False, RulesDb True] (lifespan sample_risk sample_rules)"
  let ?fs = "[(''is_headless_browser'', 1), (''is_mobile'', 0)] :: (string \<times> rat) list"
  have st: "rk_rows ?st = rk_rows sample_rules" "\<exists>c. rk_engine ?st = Some c"
    by (simp_all add: lifespan_def load_rules_def get_all_enabled_def sample_rules_def)
  then obtain c where c: "rk_engine ?st = Some c" by blast
  have rows: "rk_rows sample_rules = [sample_row ''R1'' ''is_headless_browser'' 75 True, sample_row ''R2'' ''is_mobile'' 60 True]"
    by (simp add: sample_rules_def)
  have f: "fires sample_risk ?fs (sample_row ''R1'' ''is_headless_browser'' 75 True)" "\<not> fires sample_risk ?fs (sample_row ''R2'' ''is_mobile'' 60 True)"
    by (simp_all add: fires_def sample_risk_def sample_row_def)
  have sel: "ru_enabled (sample_row i e s b) = b" "ru_score (sample_row i e s b) = s" "rc_rule_id (sample_row i e s b) = i"
    "ru_priority (sample_row i e s b) = 50" for i e s b
    by (simp_all add: sample_row_def)
  have m: "{rat_of_int (ru_score r) |r. r \<in> set (rk_rows ?st) \<and> ru_enabled r \<and> fires sample_risk ?fs r} = {75}"
    unfolding st(1) rows using f sel by (auto intro: exI [of _ "sample_row ''R1'' ''is_headless_browser'' 75 True"])
  from engine_refines_table [OF sample_rows_ok c, of ?fs] f show ?thesis unfolding m unfolding st(1) rows c
    by (simp add: sel)
qed

section \<open>Who changes rules\<close>

lemma admin_only: "\<not> require_admin P rq \<Longrightarrow> snd (rules_serve P path rq st) = st"
  by (auto simp: rules_serve_def create_rule_def update_rule_def delete_rule_def reload_rules_cache_def split: option.split)

section \<open>What the API answers\<close>

text \<open>
  The id of a row is a UUID object, which pydantic (2.7) does not accept for a field declared \<open>str\<close>.
\<close>

definition uuid_not_str :: "'a risk_params \<Rightarrow> bool" where
  "uuid_not_str P \<longleftrightarrow> (\<forall>u. rk_uuid_as_str P u = None)"

lemma respond_rule_fails: "uuid_not_str P \<Longrightarrow> respond_rule P status r = internal_error"
  by (simp add: uuid_not_str_def respond_rule_def serialize_rule_def)

lemma list_fails:
  assumes "uuid_not_str P" "rk_rows st \<noteq> []"
  shows "get_all_rules P st = internal_error"
proof -
  have "respond_rules P rows = internal_error" if "rows \<noteq> []" for rows
    using assms(1) that by (cases rows) (simp_all add: uuid_not_str_def respond_rules_def serialize_rule_def)
  moreover have "sort_key (\<lambda>r. - ru_priority r) (sort_key dr_created_at (rk_rows st)) \<noteq> []"
    using assms(2) by (metis set_empty set_sort)
  ultimately show ?thesis by (simp add: get_all_rules_def get_all_def split: option.split)
qed

lemma list_empty_table: "rk_rows st = [] \<Longrightarrow> get_all_rules P st \<in> {internal_error, \<lparr>ry_status = 200, ry_body = RulesJson []\<rparr>}"
  by (auto simp: get_all_rules_def get_all_def respond_rules_def)

lemma create_fails:
  assumes "uuid_not_str P" "require_admin P rq" "rk_pool st" "parse_create (rq_body rq) = Some rule"
    "validate_expression P (ru_expression rule) = None" "repo_create P rule st = Inr (created, st')"
  shows "create_rule P rq st = (internal_error, after_reload P st')"
  using assms by (simp add: create_rule_def after_reload_def respond_rule_fails split: option.split)

lemma create_never_201: "uuid_not_str P \<Longrightarrow> 400 \<le> ry_status (fst (create_rule P rq st))"
  by (auto simp: create_rule_def forbidden_reply_def http_exception_def internal_error_def respond_rule_fails
      validate_expression_def Let_def split: option.split sum.split db_error.split prod.split)

end
