(* ===== verification/Feature_Store.thy ===== *)
theory Feature_Store
  imports Accounts
begin

text \<open>
  The velocity counters of the risk engine (\<open>risk-engine/app/repository/feature_store.py\<close>) and the
  consumer of \<open>auth.events\<close> that fills them (\<open>app/core/kafka/consumer.py\<close>).

  Redis keys are the strings the code formats. A sorted set is the list of its scores: every member
  carries a fresh UUID, so adding never replaces. A key with an expiry is gone from that time on.
  Times are seconds as the doubles \<open>time.time()\<close> returns, and Redis reads the same clock.
\<close>

section \<open>Sliding windows\<close>

text \<open>
  A window over a log of times that is purged as it is used: at time \<open>now\<close> the scores up to
  \<open>cut now\<close> are out of it. \<open>agrees now xs log\<close>: from \<open>now\<close> on the purged list \<open>xs\<close> counts what the whole
  log counts.
\<close>

locale sliding_window =
  fixes cut :: "'t::linorder \<Rightarrow> rat"
  assumes cut_mono: "now \<le> now' \<Longrightarrow> cut now \<le> cut now'"
begin

definition agrees :: "'t \<Rightarrow> rat list \<Rightarrow> rat list \<Rightarrow> bool" where
  "agrees now xs hist \<longleftrightarrow> (\<forall>t \<ge> now. filter (\<lambda>s. cut t < s) xs = filter (\<lambda>s. cut t < s) hist)"

lemma agrees_later: "agrees now xs hist \<Longrightarrow> now \<le> now' \<Longrightarrow> agrees now' xs hist"
  by (auto simp: agrees_def)

lemma agrees_add: "agrees now xs hist \<Longrightarrow> agrees now (xs @ [s]) (hist @ [s])"
  by (simp add: agrees_def)

lemma agrees_purge:
  assumes "agrees now xs hist" "\<And>s. s \<in> set xs \<Longrightarrow> P s \<longleftrightarrow> cut now < s"
  shows "agrees now (filter P xs) hist"
proof -
  have "filter (\<lambda>s. cut t < s) (filter P xs) = filter (\<lambda>s. cut t < s) xs" if "now \<le> t" for t
    using assms(2) cut_mono [OF that] by (auto intro!: filter_cong)
  with assms(1) show ?thesis by (simp add: agrees_def)
qed

lemma agrees_drop:
  assumes "\<And>s. s \<in> set hist \<Longrightarrow> s \<le> cut now"
  shows "agrees now [] hist"
proof -
  have "filter (\<lambda>s. cut t < s) hist = []" if "now \<le> t" for t
    using assms cut_mono [OF that] by (fastforce simp: filter_empty_conv)
  then show ?thesis by (simp add: agrees_def)
qed

lemma agrees_count: "agrees now xs hist \<Longrightarrow> filter (\<lambda>s. cut now < s) xs = filter (\<lambda>s. cut now < s) hist"
  by (simp add: agrees_def)

end

section \<open>The store\<close>

record feature_store =
  fs_zsets :: "string \<Rightarrow> rat list"
  fs_sets :: "string \<Rightarrow> string list"
  fs_expiry :: "string \<Rightarrow> rat option"
  fs_now :: rat

definition vel_key :: "string \<Rightarrow> string \<Rightarrow> nat \<Rightarrow> string" where
  "vel_key key metric window = ''vel:'' @ key @ '':'' @ metric @ '':'' @ dec window"

definition uniq_key :: "string \<Rightarrow> string \<Rightarrow> nat \<Rightarrow> string" where
  "uniq_key key dimension window = ''uniq:'' @ key @ '':'' @ dimension @ '':'' @ dec window"

definition alive :: "string \<Rightarrow> feature_store \<Rightarrow> bool" where
  "alive k st \<longleftrightarrow> (case fs_expiry st k of None \<Rightarrow> True | Some e \<Rightarrow> fs_now st < e)"

definition zset :: "string \<Rightarrow> feature_store \<Rightarrow> rat list" where
  "zset k st = (if alive k st then fs_zsets st k else [])"

definition sset :: "string \<Rightarrow> feature_store \<Rightarrow> string list" where
  "sset k st = (if alive k st then fs_sets st k else [])"

definition expire :: "string \<Rightarrow> nat \<Rightarrow> feature_store \<Rightarrow> feature_store" where
  "expire k seconds st = st\<lparr>fs_expiry := (fs_expiry st)(k := Some (fs_now st + of_nat seconds))\<rparr>"

definition window_start :: "nat \<Rightarrow> rat \<Rightarrow> rat" where
  "window_start window now = fl (now - of_nat window)"

text \<open>\<open>ZREMRANGEBYSCORE\<close> takes both ends in.\<close>

definition get_velocity :: "string \<Rightarrow> string \<Rightarrow> nat \<Rightarrow> feature_store \<Rightarrow> rat \<times> feature_store" where
  "get_velocity key metric window st =
     (let k = vel_key key metric window;
          left = filter (\<lambda>s. \<not> (0 \<le> s \<and> s \<le> window_start window (fs_now st))) (zset k st) in
      (of_nat (length left), st\<lparr>fs_zsets := (fs_zsets st)(k := left)\<rparr>))"

definition increment_velocity :: "string \<Rightarrow> string \<Rightarrow> nat \<Rightarrow> feature_store \<Rightarrow> feature_store" where
  "increment_velocity key metric window st =
     (let k = vel_key key metric window in
      expire k (window * 2) (st\<lparr>fs_zsets := (fs_zsets st)(k := zset k st @ [fs_now st])\<rparr>))"

definition get_unique_count :: "string \<Rightarrow> string \<Rightarrow> nat \<Rightarrow> feature_store \<Rightarrow> rat" where
  "get_unique_count key dimension window st = of_nat (length (sset (uniq_key key dimension window) st))"

definition add_unique :: "string \<Rightarrow> string \<Rightarrow> string \<Rightarrow> nat \<Rightarrow> feature_store \<Rightarrow> feature_store" where
  "add_unique key dimension value window st =
     (let k = uniq_key key dimension window in
      expire k (window * 2) (st\<lparr>fs_sets := (fs_sets st)(k := List.insert value (sset k st))\<rparr>))"

section \<open>Filling the counters\<close>

definition WINDOWS :: "nat list" where
  "WINDOWS = [60, 300, 900, 3600]"

text \<open>
  The fields of a consumed event that are read; an absent field and an empty one are both falsy, so
  both are \<open>[]\<close>.
\<close>

record consumed =
  ce_type :: string
  ce_ip :: string
  ce_source_ip :: string
  ce_user_id :: string
  ce_subject_user :: string
  ce_device_id :: string
  ce_fingerprint :: string
  ce_data_country :: string
  ce_source_country :: string

text \<open>\<open>a or b\<close> on strings.\<close>

definition py_or :: "string \<Rightarrow> string \<Rightarrow> string" where
  "py_or a b = (if a \<noteq> [] then a else b)"

definition count_event :: "string \<Rightarrow> string \<Rightarrow> bool \<Rightarrow> nat \<Rightarrow> feature_store \<Rightarrow> feature_store" where
  "count_event ip user is_failure window st =
     (let st = (if ip \<noteq> [] then increment_velocity ip ''login_attempts'' window st else st);
          st = (if is_failure \<and> ip \<noteq> [] then increment_velocity ip ''login_failures'' window st else st) in
      if user \<noteq> [] then
        (let st = increment_velocity user ''login_attempts'' window st in
         if is_failure then increment_velocity user ''login_failures'' window st else st)
      else st)"

definition process_event :: "consumed \<Rightarrow> feature_store \<Rightarrow> feature_store" where
  "process_event e st =
     (let ip = py_or (ce_ip e) (ce_source_ip e); user = py_or (ce_user_id e) (ce_subject_user e);
          device = py_or (ce_device_id e) (ce_fingerprint e);
          country = py_or (ce_data_country e) (py_or (ce_source_country e) ''XX'');
          is_failure = (ce_type e = ''auth.user.login_failed'') in
      if ip = [] \<and> user = [] then st
      else let st = fold (count_event ip user is_failure) WINDOWS st in
        if user = [] then st
        else let st = (if ip \<noteq> [] then add_unique user ''ips'' ip 86400 (add_unique user ''ips'' ip 3600 st) else st);
                 st = (if device \<noteq> [] then add_unique user ''devices'' device 86400 st else st) in
             if country \<noteq> [] \<and> country \<noteq> ''XX'' then add_unique user ''countries'' country 604800 st else st)"

text \<open>What the consumer reads of an event as the auth service publishes it.\<close>

definition consumed_of :: "auth_event \<Rightarrow> consumed" where
  "consumed_of e = \<lparr>ce_type = ae_event_type e, ce_ip = ae_ip_address e,
     ce_source_ip = default (map_of (ae_source e) ''ip_address'') [], ce_user_id = ae_user_id e, ce_subject_user = [],
     ce_device_id = default (map_of (ae_source e) ''device_id'') [], ce_fingerprint = [], ce_data_country = [],
     ce_source_country = default (map_of (ae_source e) ''country_code'') []\<rparr>"

section \<open>The velocity counters are exact\<close>

text \<open>The operations on the store, with time passing between them.\<close>

datatype store_op = Increment string string nat | Velocity string string nat
  | AddUnique string string string nat | Pass nat

definition tick :: "nat \<Rightarrow> rat \<Rightarrow> rat" where
  "tick ms now = fl (now + of_nat ms / 1000)"

fun store_step :: "store_op \<Rightarrow> feature_store \<Rightarrow> feature_store" where
  "store_step (Increment key metric w) st = increment_velocity key metric w st"
| "store_step (Velocity key metric w) st = snd (get_velocity key metric w st)"
| "store_step (AddUnique key dmn v w) st = add_unique key dmn v w st"
| "store_step (Pass ms) st = st\<lparr>fs_now := tick ms (fs_now st)\<rparr>"

text \<open>The times at which a key was incremented, from a list of operations that starts at \<open>now\<close>.\<close>

fun increments :: "string \<Rightarrow> rat \<Rightarrow> store_op list \<Rightarrow> rat list" where
  "increments k now [] = []"
| "increments k now (Pass ms # ops) = increments k (tick ms now) ops"
| "increments k now (Increment key metric w # ops) =
     (if vel_key key metric w = k then [now] else []) @ increments k now ops"
| "increments k now (_ # ops) = increments k now ops"

definition empty_store :: "rat \<Rightarrow> feature_store" where
  "empty_store now = \<lparr>fs_zsets = (\<lambda>_. []), fs_sets = (\<lambda>_. []), fs_expiry = (\<lambda>_. None), fs_now = now\<rparr>"

lemma fl_fl [simp]: "fl (fl x) = fl x"
proof -
  have pos: "fl (fl_pos y) = fl_pos y" if "0 < y" for y
  proof -
    let ?m = "round_even (y * pow2 (52 - ilog2 y))"
    have "round_even (of_int (2 ^ 52)) \<le> ?m" "?m \<le> round_even (of_int (2 ^ 53))"
      using scaled_binade [OF that] by (intro round_even_mono; simp)+
    then have "\<bar>?m\<bar> \<le> 2 ^ 53" by (simp del: of_int_power of_int_numeral)
    from fl_exact [OF this, of "ilog2 y - 52"] show ?thesis by (simp add: fl_pos_def Let_def)
  qed
  have "fl (- y) = - fl y" for y by (simp add: fl_def)
  then show ?thesis using pos [of x] pos [of "- x"] by (auto simp: fl_def [of x])
qed

lemma tick_later: "fl now = now \<Longrightarrow> now \<le> tick ms now"
  using fl_mono [of now "now + of_nat ms / 1000"] by (simp add: tick_def)

interpretation vel: sliding_window "window_start w" for w
  by unfold_locales (simp add: window_start_def fl_mono)

lemma digit_not_colon: "d < 10 \<Longrightarrow> digit_char d \<noteq> CHR '':''"
proof
  assume d: "d < 10" "digit_char d = CHR '':''"
  from d(1) have "char_code (digit_char d) = 48 + d" by (simp add: digit_char_code)
  moreover have "char_code (CHR '':'') = 58" by code_simp
  ultimately show False using d by simp
qed

lemma dec_no_colon: "CHR '':'' \<notin> set (dec n)"
  using digit_not_colon radix_digits_bound [of 10] by (fastforce simp: dec_def radix_string_def)

text \<open>The window can be read off the end of a key.\<close>

lemma vel_key_window: "vel_key a m w = vel_key b n v \<Longrightarrow> w = v"
proof -
  have last: "rev (takeWhile (\<lambda>c. c \<noteq> CHR '':'') (rev (u @ '':'' @ dec n))) = dec n" for u n
    using dec_no_colon [of n] by (auto simp: takeWhile_append)
  assume "vel_key a m w = vel_key b n v"
  then have "(''vel:'' @ a @ '':'' @ m) @ '':'' @ dec w = (''vel:'' @ b @ '':'' @ n) @ '':'' @ dec v"
    by (simp add: vel_key_def)
  then have "dec w = dec v" by (metis last)
  then show "w = v" by (rule dec_inj)
qed

lemma vel_not_uniq: "vel_key a m w \<noteq> uniq_key b d v"
  by (simp add: vel_key_def uniq_key_def)

text \<open>
  What a key of window \<open>w\<close> holds beside the log of its increments: nothing is lost that a later count
  would see, all times are past, and the expiry is late enough.
\<close>

definition vel_inv :: "nat \<Rightarrow> string \<Rightarrow> rat list \<Rightarrow> feature_store \<Rightarrow> bool" where
  "vel_inv w k hist st \<longleftrightarrow> fl (fs_now st) = fs_now st \<and> vel.agrees w (fs_now st) (zset k st) hist
     \<and> (\<forall>s \<in> set (fs_zsets st k). 0 \<le> s) \<and> 0 \<le> fs_now st \<and> (\<forall>s \<in> set hist. s \<le> fs_now st \<and> fl s = s)
     \<and> (\<forall>e. fs_expiry st k = Some e \<longrightarrow> (\<forall>s \<in> set hist. s + of_nat (w * 2) \<le> e))"

lemma zset_nonneg: "vel_inv w k hist st \<Longrightarrow> s \<in> set (zset k st) \<Longrightarrow> 0 \<le> s"
  by (auto simp: vel_inv_def zset_def split: if_splits)

lemma vel_inv_increment:
  assumes "vel_inv w (vel_key key metric w) hist st" "0 < w"
  shows "vel_inv w (vel_key key metric w) (hist @ [fs_now st]) (increment_velocity key metric w st)"
proof -
  let ?k = "vel_key key metric w"
  have "zset ?k (increment_velocity key metric w st) = zset ?k st @ [fs_now st]"
    using assms(2) by (simp add: zset_def alive_def increment_velocity_def expire_def Let_def)
  with assms(1) zset_nonneg [OF assms(1)] vel.agrees_add show ?thesis
    by (auto simp: vel_inv_def increment_velocity_def expire_def Let_def)
qed

lemma vel_inv_read:
  assumes "vel_inv w (vel_key key metric w) hist st"
  shows "vel_inv w (vel_key key metric w) hist (snd (get_velocity key metric w st))"
proof -
  let ?k = "vel_key key metric w"
  let ?left = "filter (\<lambda>s. \<not> (0 \<le> s \<and> s \<le> window_start w (fs_now st))) (zset ?k st)"
  have "zset ?k (snd (get_velocity key metric w st)) = ?left"
    by (auto simp: zset_def alive_def get_velocity_def Let_def split: option.split)
  moreover have "vel.agrees w (fs_now st) ?left hist"
    using assms zset_nonneg [OF assms] by (intro vel.agrees_purge) (auto simp: vel_inv_def not_le)
  ultimately show ?thesis using assms zset_nonneg [OF assms]
    by (auto simp: vel_inv_def get_velocity_def Let_def)
qed

lemma vel_inv_pass:
  assumes "vel_inv w k hist st"
  shows "vel_inv w k hist (store_step (Pass ms) st)"
proof -
  let ?st = "store_step (Pass ms) st" and ?now = "tick ms (fs_now st)"
  have later: "fs_now st \<le> ?now" using assms tick_later by (simp add: vel_inv_def)
  have "vel.agrees w ?now (zset k ?st) hist"
  proof (cases "alive k ?st")
    case True
    then have "zset k ?st = zset k st" using later by (auto simp: zset_def alive_def split: option.splits)
    then show ?thesis using assms vel.agrees_later [OF _ later] by (simp add: vel_inv_def)
  next
    case False
    then obtain e where e: "fs_expiry st k = Some e" "e \<le> ?now" by (auto simp: alive_def split: option.splits)
    have "s \<le> window_start w ?now" if "s \<in> set hist" for s
    proof -
      have "s + of_nat (w * 2) \<le> ?now" "fl s = s" using assms e that by (force simp: vel_inv_def)+
      then show ?thesis using fl_mono [of s "?now - of_nat w"] by (simp add: window_start_def)
    qed
    then have "vel.agrees w ?now [] hist" by (rule vel.agrees_drop)
    with False show ?thesis by (simp add: zset_def)
  qed
  moreover have "fl ?now = ?now" by (simp add: tick_def)
  ultimately show ?thesis using assms later by (fastforce simp: vel_inv_def)
qed

lemma vel_inv_other:
  assumes "vel_inv w k hist st" "fs_zsets st' k = fs_zsets st k" "fs_expiry st' k = fs_expiry st k" "fs_now st' = fs_now st"
  shows "vel_inv w k hist st'"
proof -
  have "zset k st' = zset k st" using assms(2-4) by (auto simp: zset_def alive_def split: option.split)
  with assms show ?thesis by (simp add: vel_inv_def)
qed

lemma vel_inv_run:
  assumes "0 < w" "vel_inv w (vel_key key metric w) hist st"
  shows "vel_inv w (vel_key key metric w) (hist @ increments (vel_key key metric w) (fs_now st) ops) (fold store_step ops st)"
  using assms(2)
proof (induction ops arbitrary: hist st)
  case (Cons op ops)
  let ?k = "vel_key key metric w"
  show ?case
  proof (cases op)
    case (Increment key' metric' w')
    show ?thesis
    proof (cases "vel_key key' metric' w' = ?k")
      case True
      then have "w' = w" by (rule vel_key_window)
      with True have "increment_velocity key' metric' w' st = increment_velocity key metric w st"
        by (simp add: increment_velocity_def Let_def)
      moreover have "fs_now (increment_velocity key metric w st) = fs_now st"
        by (simp add: increment_velocity_def expire_def Let_def)
      ultimately show ?thesis using Cons.IH [OF vel_inv_increment [OF Cons.prems assms(1)]] True Increment by simp
    next
      case False
      have "vel_inv w ?k hist (increment_velocity key' metric' w' st)"
        by (rule vel_inv_other [OF Cons.prems]) (use False in \<open>auto simp: increment_velocity_def expire_def Let_def\<close>)
      from Cons.IH [OF this] False Increment show ?thesis by (simp add: increment_velocity_def expire_def Let_def)
    qed
  next
    case (Velocity key' metric' w')
    have "vel_inv w ?k hist (snd (get_velocity key' metric' w' st))"
    proof (cases "vel_key key' metric' w' = ?k")
      case True
      then have "w' = w" by (rule vel_key_window)
      with True have "snd (get_velocity key' metric' w' st) = snd (get_velocity key metric w st)"
        by (simp add: get_velocity_def Let_def)
      then show ?thesis using vel_inv_read [OF Cons.prems] by simp
    next
      case False
      show ?thesis by (rule vel_inv_other [OF Cons.prems]) (use False in \<open>auto simp: get_velocity_def Let_def\<close>)
    qed
    from Cons.IH [OF this] Velocity show ?thesis by (simp add: get_velocity_def Let_def)
  next
    case (AddUnique key' dmn v w')
    have "vel_inv w ?k hist (add_unique key' dmn v w' st)"
      by (rule vel_inv_other [OF Cons.prems]) (use vel_not_uniq in \<open>auto simp: add_unique_def expire_def Let_def\<close>)
    from Cons.IH [OF this] AddUnique show ?thesis by (simp add: add_unique_def expire_def Let_def)
  next
    case (Pass ms)
    from Cons.IH [OF vel_inv_pass [OF Cons.prems]] Pass show ?thesis by simp
  qed
qed simp

text \<open>
  C27: the velocity counters are exact. After any sequence of increments, reads, additions to other
  keys and waiting times, reading a counter of window \<open>w\<close> gives the number of increments of its key in
  the last \<open>w\<close> seconds, although reads purge the set and unused keys expire.
\<close>

theorem velocity_exact:
  fixes ops start
  assumes "0 < w" "0 \<le> start" "fl start = start"
  defines "st \<equiv> fold store_step ops (empty_store start)"
  shows "fst (get_velocity key metric w st) = of_nat (length (filter (\<lambda>s. window_start w (fs_now st) < s)
    (increments (vel_key key metric w) start ops)))"
proof -
  let ?k = "vel_key key metric w"
  have "vel_inv w ?k [] (empty_store start)"
    using assms(2,3) by (simp add: vel_inv_def empty_store_def zset_def vel.agrees_def)
  from vel_inv_run [OF assms(1) this, of ops]
  have inv: "vel_inv w ?k (increments ?k start ops) st" by (simp add: st_def empty_store_def)
  have "filter (\<lambda>s. \<not> (0 \<le> s \<and> s \<le> window_start w (fs_now st))) (zset ?k st)
      = filter (\<lambda>s. window_start w (fs_now st) < s) (zset ?k st)"
    using zset_nonneg [OF inv] by (intro filter_cong) (auto simp: not_le)
  also have "\<dots> = filter (\<lambda>s. window_start w (fs_now st) < s) (increments ?k start ops)"
    using inv by (intro vel.agrees_count) (simp add: vel_inv_def)
  finally show ?thesis by (simp add: get_velocity_def Let_def)
qed

theorem velocity_exact_witness:
  "fst (get_velocity ''ip'' ''login_attempts'' 60 (fold store_step [Increment ''ip'' ''login_attempts'' 60, Pass 59000,
     Increment ''ip'' ''login_attempts'' 60, Pass 1000] (empty_store 1000))) = 1"
proof -
  have f: "fl 1000 = 1000" "fl 1059 = 1059" "fl 1060 = 1060" by (simp_all add: fl_numeral)
  have t: "tick 59000 1000 = 1059" "tick 1000 1059 = 1060" "window_start 60 1060 = 1000"
    by (simp_all add: tick_def window_start_def f)
  show ?thesis
    using velocity_exact [of 60 1000 "''ip''" "''login_attempts''" "[Increment ''ip'' ''login_attempts'' 60, Pass 59000,
        Increment ''ip'' ''login_attempts'' 60, Pass 1000]"]
    by (simp add: f t empty_store_def increment_velocity_def expire_def Let_def)
qed

section \<open>The unique counters do not slide\<close>

text \<open>
  Adding to a set renews the expiry of all of it, so a set to which something is added at least every
  two windows never forgets: \<open>v_unique_ips_1h\<close> counts addresses of any age.
\<close>

lemma add_unique_sset:
  assumes "0 < w"
  shows "sset (uniq_key key dmn w) (add_unique key dmn v w st) = List.insert v (sset (uniq_key key dmn w) st)"
  using assms by (simp add: sset_def alive_def add_unique_def expire_def Let_def)

text \<open>Values added to a set one after the other, each followed by a pause of less than two windows.\<close>

fun short_pauses :: "nat \<Rightarrow> rat \<Rightarrow> (string \<times> nat) list \<Rightarrow> bool" where
  "short_pauses w now [] \<longleftrightarrow> True"
| "short_pauses w now ((v, ms) # adds) \<longleftrightarrow> tick ms now < now + of_nat (w * 2) \<and> short_pauses w (tick ms now) adds"

fun add_all :: "string \<Rightarrow> string \<Rightarrow> nat \<Rightarrow> (string \<times> nat) list \<Rightarrow> feature_store \<Rightarrow> feature_store" where
  "add_all key dmn w [] st = st"
| "add_all key dmn w ((v, ms) # adds) st = add_all key dmn w adds (store_step (Pass ms) (add_unique key dmn v w st))"

lemma add_all_sset:
  assumes "0 < w" "short_pauses w (fs_now st) adds"
  shows "set (sset (uniq_key key dmn w) (add_all key dmn w adds st)) = set (sset (uniq_key key dmn w) st) \<union> fst ` set adds
    \<and> (distinct (sset (uniq_key key dmn w) st) \<longrightarrow> distinct (sset (uniq_key key dmn w) (add_all key dmn w adds st)))"
  using assms(2)
proof (induction adds arbitrary: st)
  case (Cons a adds)
  obtain v ms where a: "a = (v, ms)" by fastforce
  let ?k = "uniq_key key dmn w" and ?st = "add_unique key dmn v w st"
  have now: "fs_now ?st = fs_now st" "fs_expiry ?st ?k = Some (fs_now st + of_nat (w * 2))"
    by (simp_all add: add_unique_def expire_def Let_def)
  have "sset ?k (store_step (Pass ms) ?st) = sset ?k ?st"
    using Cons.prems a assms(1) now by (simp add: sset_def alive_def)
  then have "sset ?k (store_step (Pass ms) ?st) = List.insert v (sset ?k st)"
    using add_unique_sset [OF assms(1)] by simp
  moreover have "short_pauses w (fs_now (store_step (Pass ms) ?st)) adds" using Cons.prems a now by simp
  ultimately show ?case using Cons.IH a by simp
qed simp

text \<open>
  C98: \<open>v_unique_ips_1h\<close> is not the number of addresses of the last hour: after additions with pauses
  of less than two windows, the counter of a set is the number of distinct values ever added.
\<close>

lemma unique_count_never_forgets:
  assumes "0 < w" "short_pauses w start adds"
  shows "get_unique_count key dmn w (add_all key dmn w adds (empty_store start)) = of_nat (card (set (map fst adds)))"
proof -
  have "sset (uniq_key key dmn w) (empty_store start) = []" by (simp add: sset_def empty_store_def)
  with add_all_sset [OF assms(1), of "empty_store start" adds key dmn] assms(2) show ?thesis
    by (simp add: get_unique_count_def empty_store_def distinct_card [symmetric])
qed

lemma unique_count_never_forgets_witness:
  "get_unique_count ''u'' ''ips'' 3600 (add_all ''u'' ''ips'' 3600 [(''a'', 7000000), (''b'', 7000000), (''c'', 7000000)]
     (empty_store 0)) = 3"
proof -
  have t: "tick 7000000 0 = 7000" "tick 7000000 7000 = 14000" "tick 7000000 14000 = 21000"
    by (simp_all add: tick_def fl_numeral)
  have "short_pauses 3600 0 [(''a'', 7000000), (''b'', 7000000), (''c'', 7000000)]" by (simp add: t)
  from unique_count_never_forgets [OF _ this] show ?thesis by simp
qed

end
