(* ===== verification/Risk_Scoring.thy ===== *)
theory Risk_Scoring
  imports Rules_Service Feature_Store
begin

text \<open>
  Scoring a request in the risk engine: feature extraction (\<open>risk-engine/app/domain/features.py\<close>), IP
  intelligence (\<open>ip_intelligence.py\<close>), the model's score (\<open>ml_scorer.py\<close>), aggregation
  (\<open>risk_aggregator.py\<close>), the endpoint (\<open>app/api/v1/score.py\<close>) and what it records
  (\<open>decisions_repo.py\<close>, \<open>kafka/producer.py\<close>).

  The IP service, the model and its explainer, the calendar and UUIDs are the fields of \<open>score_params\<close>. The two
  tasks of the first step run one after the other. Nothing writes the hash \<open>user_hist\<close>, so the block of
  \<open>extract\<close> that reads it does nothing. Floats are doubles as in the dashboard's theories.
\<close>

section \<open>Numbers\<close>

text \<open>\<open>round(x, d)\<close>: the decimal nearest to the exact value, ties to even, as a double.\<close>

definition py_round :: "nat \<Rightarrow> rat \<Rightarrow> rat" where
  "py_round d x = fl (of_int (round_even (x * 10 ^ d)) / 10 ^ d)"

section \<open>IP intelligence\<close>

text \<open>A JSON object with scalar members, and the truth of a member.\<close>

datatype scalar = JNull | JBool bool | JNum rat | JStr string

fun scalar_true :: "scalar \<Rightarrow> bool" where
  "scalar_true JNull = False"
| "scalar_true (JBool b) = b"
| "scalar_true (JNum r) = (r \<noteq> 0)"
| "scalar_true (JStr s) = (s \<noteq> [])"

type_synonym ip_data = "(string \<times> scalar) list"

definition has_true :: "string \<Rightarrow> ip_data \<Rightarrow> bool" where
  "has_true k d = scalar_true (default (map_of d k) JNull)"

text \<open>\<open>"tor" in data.get("isp", "").lower()\<close>, which raises when the member is not a string.\<close>

definition is_tor :: "ip_data \<Rightarrow> bool option" where
  "is_tor d = (case default (map_of d ''isp'') (JStr []) of
     JStr s \<Rightarrow> Some (str_includes (toLowerCase s) ''tor'') | _ \<Rightarrow> None)"

definition compute_score :: "ip_data \<Rightarrow> rat option" where
  "compute_score d = (case is_tor d of None \<Rightarrow> None | Some tor \<Rightarrow>
     let score = (if has_true ''proxy'' d then 35 else 0) + (if has_true ''hosting'' d then 30 else 0) + (if tor then 40 else 0);
         score = (if d = [] then 30 else score) in
     Some (min score 100))"

definition ip_flags :: "ip_data \<Rightarrow> (string \<times> bool) list option" where
  "ip_flags d = map_option (\<lambda>tor. [(''ip_is_vpn'', has_true ''proxy'' d), (''ip_is_tor'', tor),
     (''ip_is_datacenter'', has_true ''hosting'' d), (''ip_is_proxy'', has_true ''proxy'' d)]) (is_tor d)"

section \<open>Settings and parameters\<close>

record risk_settings =
  rg_w_rules :: rat
  rg_w_ml :: rat
  rg_w_ip :: rat
  rg_w_velocity :: rat
  rg_block :: rat
  rg_challenge :: rat
  rg_review :: rat
  rg_fail_open :: bool
  rg_cache_ttl :: nat

definition default_settings :: risk_settings where
  "default_settings = \<lparr>rg_w_rules = fl (30 / 100), rg_w_ml = fl (45 / 100), rg_w_ip = fl (15 / 100),
     rg_w_velocity = fl (10 / 100), rg_block = 80, rg_challenge = 60, rg_review = 40, rg_fail_open = True,
     rg_cache_ttl = 3600\<rparr>"

record score_request =
  sr_request_id :: string
  sr_user_id :: "string option"
  sr_ip :: string
  sr_user_agent :: string
  sr_country :: string
  sr_country_code :: string
  sr_lat :: rat
  sr_lon :: rat
  sr_fingerprint :: string
  sr_is_mobile :: bool
  sr_is_headless :: bool

text \<open>
  \<open>sp_lookup n ip\<close>: what the \<open>n\<close>-th request to the IP service gives, a status with a body, or nothing when
  it fails. \<open>sp_predict\<close> and \<open>sp_shap\<close> take the feature values in order.
\<close>

record 'a score_params =
  sp_risk :: "'a risk_params"
  sp_settings :: risk_settings
  sp_lookup :: "nat \<Rightarrow> string \<Rightarrow> (nat \<times> ip_data) option"
  sp_predict :: "rat list \<Rightarrow> rat"
  sp_shap :: "rat list \<Rightarrow> rat list"
  sp_hour :: "rat \<Rightarrow> nat"
  sp_weekday :: "rat \<Rightarrow> nat"

record decision =
  dc_id :: string
  dc_request_id :: string
  dc_user_id :: "string option"
  dc_ip :: string
  dc_final :: rat
  dc_action :: string
  dc_scores :: "rat \<times> rat \<times> rat \<times> rat"
  dc_triggered :: "string list"
  dc_shap :: "(string \<times> rat) list option"
  dc_country :: string
  dc_country_code :: string
  dc_lat :: rat
  dc_lon :: rat

text \<open>
  \<open>rx_model\<close>: the model is loaded; \<open>rx_kafka\<close>: the producer was started; \<open>rx_columns\<close>: the columns of the table
  \<open>risk_decisions\<close>.
\<close>

record 'a risk_state =
  rx_rules :: "'a rules_state"
  rx_store :: feature_store
  rx_redis :: bool
  rx_ip_cache :: "string \<Rightarrow> (ip_data \<times> rat) option"
  rx_lookups :: nat
  rx_model :: bool
  rx_kafka :: bool
  rx_columns :: "string list"
  rx_saved :: "decision list"
  rx_published :: "decision list"

section \<open>Features\<close>

definition set_feature :: "string \<Rightarrow> rat \<Rightarrow> (string \<times> rat) list \<Rightarrow> (string \<times> rat) list" where
  "set_feature k v fs = map (\<lambda>(n, x). if n = k then (n, v) else (n, x)) fs"

definition feature :: "(string \<times> rat) list \<Rightarrow> string \<Rightarrow> rat" where
  "feature fs k = default (map_of fs k) 0"

definition velocity_score :: "(string \<times> rat) list \<Rightarrow> rat" where
  "velocity_score fs = min 100
     ((if feature fs ''v_login_failures_1m'' > 5 then 40 else if feature fs ''v_login_failures_1m'' > 2 then 20 else 0)
      + (if feature fs ''v_login_attempts_5m'' > 10 then 30 else if feature fs ''v_login_attempts_5m'' > 5 then 15 else 0)
      + (if feature fs ''v_unique_ips_1h'' > 5 then 20 else 0)
      + (if feature fs ''v_unique_devices_24h'' > 3 then 10 else 0))"

definition is_bot_ua :: "string \<Rightarrow> bool" where
  "is_bot_ua ua = list_ex (str_includes (toLowerCase ua)) [''bot'', ''crawler'', ''spider'', ''scraper'', ''headless'',
     ''python-requests'', ''curl'', ''wget'', ''go-http-client'']"

definition fetch_ip_data :: "'a score_params \<Rightarrow> string \<Rightarrow> nat \<Rightarrow> ip_data" where
  "fetch_ip_data P ip n = (case sp_lookup P n ip of Some (status, d) \<Rightarrow> if status = 200 then d else [] | None \<Rightarrow> [])"

definition refetch :: "'a score_params \<Rightarrow> string \<Rightarrow> 'a risk_state \<Rightarrow> ip_data \<times> 'a risk_state" where
  "refetch P ip st =
     (let d = fetch_ip_data P ip (rx_lookups st); st = st\<lparr>rx_lookups := rx_lookups st + 1\<rparr> in
      (d, if d \<noteq> [] then st\<lparr>rx_ip_cache := (rx_ip_cache st)(ip \<mapsto>
        (d, fs_now (rx_store st) + of_nat (rg_cache_ttl (sp_settings P))))\<rparr> else st))"

definition get_or_fetch :: "'a score_params \<Rightarrow> string \<Rightarrow> 'a risk_state \<Rightarrow> ip_data \<times> 'a risk_state" where
  "get_or_fetch P ip st = (case rx_ip_cache st ip of
     Some (d, e) \<Rightarrow> if fs_now (rx_store st) < e then (d, st) else refetch P ip st | None \<Rightarrow> refetch P ip st)"

definition ip_score :: "'a score_params \<Rightarrow> string \<Rightarrow> 'a risk_state \<Rightarrow> rat option \<times> 'a risk_state" where
  "ip_score P ip st = (case get_or_fetch P ip st of (d, st') \<Rightarrow> (compute_score d, st'))"

definition get_flags :: "'a score_params \<Rightarrow> string \<Rightarrow> 'a risk_state \<Rightarrow> (string \<times> bool) list option \<times> 'a risk_state" where
  "get_flags P ip st = (case get_or_fetch P ip st of (d, st') \<Rightarrow> (ip_flags d, st'))"

text \<open>The counters read by \<open>extract\<close>, in the order of the \<open>gather\<close>.\<close>

definition velocity_reads :: "(string \<times> string \<times> nat) list" where
  "velocity_reads =
    [(''v_login_attempts_1m'', ''login_attempts'', 60), (''v_login_attempts_5m'', ''login_attempts'', 300),
     (''v_login_attempts_15m'', ''login_attempts'', 900), (''v_login_attempts_1h'', ''login_attempts'', 3600),
     (''v_login_failures_1m'', ''login_failures'', 60), (''v_login_failures_5m'', ''login_failures'', 300),
     (''v_login_failures_15m'', ''login_failures'', 900), (''v_login_failures_1h'', ''login_failures'', 3600)]"

definition unique_reads :: "(string \<times> string \<times> nat) list" where
  "unique_reads = [(''v_unique_ips_1h'', ''ips'', 3600), (''v_unique_ips_24h'', ''ips'', 86400),
     (''v_unique_devices_24h'', ''devices'', 86400), (''v_new_countries_7d'', ''countries'', 604800)]"

fun read_velocities :: "string \<Rightarrow> (string \<times> string \<times> nat) list \<Rightarrow> (string \<times> rat) list \<times> feature_store
    \<Rightarrow> (string \<times> rat) list \<times> feature_store" where
  "read_velocities key [] acc = acc"
| "read_velocities key ((name, metric, window) # reads) (fs, st) = (case get_velocity key metric window st of
     (v, st') \<Rightarrow> read_velocities key reads (set_feature name v fs, st'))"

definition b01 :: "bool \<Rightarrow> rat" where
  "b01 b = (if b then 1 else 0)"

text \<open>The features that do not come from a store.\<close>

definition request_features :: "'a score_params \<Rightarrow> score_request \<Rightarrow> rat \<Rightarrow> (string \<times> rat) list \<Rightarrow> (string \<times> rat) list" where
  "request_features P rq now fs =
     set_feature ''is_bot_user_agent'' (b01 (is_bot_ua (sr_user_agent rq)))
     (set_feature ''is_headless_browser'' (b01 (sr_is_headless rq))
     (set_feature ''is_mobile'' (b01 (sr_is_mobile rq))
     (set_feature ''is_off_hours'' (b01 (sp_hour P now < 6 \<or> sp_hour P now > 23))
     (set_feature ''is_weekend'' (b01 (sp_weekday P now \<ge> 5))
     (set_feature ''day_of_week'' (of_nat (sp_weekday P now))
     (set_feature ''hour_of_day'' (of_nat (sp_hour P now)) fs))))))"

definition ip_features :: "'a score_params \<Rightarrow> string \<Rightarrow> (string \<times> rat) list \<Rightarrow> 'a risk_state
    \<Rightarrow> (string \<times> rat) list \<times> 'a risk_state" where
  "ip_features P ip fs st = (if ip = [] then (fs, st) else case ip_score P ip st of
     (None, st1) \<Rightarrow> (fs, st1)
   | (Some s, st1) \<Rightarrow> (let fs1 = set_feature ''ip_reputation_score'' s fs in
       case get_flags P ip st1 of (None, st2) \<Rightarrow> (fs1, st2)
       | (Some flags, st2) \<Rightarrow> (fold (\<lambda>(n, b). set_feature n (b01 b)) flags fs1, st2)))"

definition extract_features :: "'a score_params \<Rightarrow> score_request \<Rightarrow> 'a risk_state \<Rightarrow> (string \<times> rat) list \<times> 'a risk_state" where
  "extract_features P rq st =
     (case read_velocities (sr_ip rq) velocity_reads (feature_defaults, rx_store st) of (fs, store) \<Rightarrow>
      let actor = py_or (default (sr_user_id rq) []) (sr_ip rq);
          fs = fold (\<lambda>(name, dmn, w). set_feature name (get_unique_count actor dmn w store)) unique_reads fs in
      case ip_features P (sr_ip rq) fs (st\<lparr>rx_store := store\<rparr>) of (fs, st') \<Rightarrow>
        (request_features P rq (fs_now (rx_store st')) fs, st'))"

section \<open>The model and the aggregate\<close>

definition shap_top5 :: "'a score_params \<Rightarrow> rat list \<Rightarrow> (string \<times> rat) list" where
  "shap_top5 P xs = map (\<lambda>(f, v). (f, py_round 4 v)) (take 5 (sort_key (\<lambda>(f, v). - \<bar>v\<bar>) (zip FEATURE_NAMES (sp_shap P xs))))"

text \<open>\<open>None\<close>: the scorer raises, when it must not fail open.\<close>

definition ml_score :: "'a score_params \<Rightarrow> bool \<Rightarrow> rat list \<Rightarrow> (rat \<times> (string \<times> rat) list option) option" where
  "ml_score P loaded xs =
     (if \<not> loaded then (if rg_fail_open (sp_settings P) then Some (0, None) else None)
      else let prob = sp_predict P xs; pct = fl (prob * 100) in
        Some (py_round 2 pct, if pct > 40 then Some (shap_top5 P xs) else None))"

definition final_score :: "risk_settings \<Rightarrow> rat \<Rightarrow> rat \<Rightarrow> rat \<Rightarrow> rat \<Rightarrow> rat" where
  "final_score c rule ml ip velocity =
     py_round 2 (min (max (fl (fl (fl (fl (rule * rg_w_rules c) + fl (ml * rg_w_ml c)) + fl (ip * rg_w_ip c))
       + fl (velocity * rg_w_velocity c))) 0) 100)"

definition action_of :: "risk_settings \<Rightarrow> rat \<Rightarrow> string" where
  "action_of c final = (if final \<ge> rg_block c then ''BLOCK'' else if final \<ge> rg_challenge c then ''CHALLENGE''
     else if final \<ge> rg_review c then ''REVIEW'' else ''ALLOW'')"

definition aggregate :: "risk_settings \<Rightarrow> string \<Rightarrow> rat \<Rightarrow> rat \<Rightarrow> rat \<Rightarrow> rat \<Rightarrow> string list \<Rightarrow> (string \<times> rat) list option
    \<Rightarrow> score_request \<Rightarrow> decision" where
  "aggregate c i rule ml ip velocity triggered shap rq =
     (let final = final_score c rule ml ip velocity in
      \<lparr>dc_id = i, dc_request_id = sr_request_id rq, dc_user_id = sr_user_id rq, dc_ip = sr_ip rq, dc_final = final,
       dc_action = action_of c final, dc_scores = (py_round 2 rule, py_round 2 ml, py_round 2 ip, py_round 2 velocity),
       dc_triggered = triggered, dc_shap = shap, dc_country = sr_country rq, dc_country_code = sr_country_code rq,
       dc_lat = sr_lat rq, dc_lon = sr_lon rq\<rparr>)"

section \<open>Recording a decision\<close>

definition decision_columns :: "string list" where
  "decision_columns = [''id'', ''request_id'', ''user_id'', ''session_id'', ''ip_address'', ''final_score'', ''action'', ''scores'',
     ''triggered_rules'', ''shap_values'', ''processing_time_ms'', ''created_at'']"

definition insert_columns :: "string list" where
  "insert_columns = [''id'', ''request_id'', ''user_id'', ''ip_address'', ''final_score'', ''action'', ''scores'', ''triggered_rules'',
     ''shap_top5'', ''processing_time_ms'']"

text \<open>An INSERT that names a column the table does not have is refused; the error is logged.\<close>

definition save_decision :: "decision \<Rightarrow> 'a risk_state \<Rightarrow> 'a risk_state" where
  "save_decision d st = (if rk_db (rx_rules st) \<and> set insert_columns \<subseteq> set (rx_columns st)
     then st\<lparr>rx_saved := rx_saved st @ [d]\<rparr> else st)"

definition publish_decision :: "decision \<Rightarrow> 'a risk_state \<Rightarrow> 'a risk_state" where
  "publish_decision d st = (if rx_kafka st then st\<lparr>rx_published := rx_published st @ [d]\<rparr> else st)"

definition update_velocity :: "score_request \<Rightarrow> feature_store \<Rightarrow> feature_store" where
  "update_velocity rq st =
     (let ip = sr_ip rq; user = default (sr_user_id rq) [];
          st = fold (\<lambda>w st. let st = (if ip \<noteq> [] then increment_velocity ip ''login_attempts'' w st else st) in
                 if user \<noteq> [] then increment_velocity user ''login_attempts'' w st else st) WINDOWS st in
      if user = [] then st
      else let st = (if sr_fingerprint rq \<noteq> [] then add_unique user ''devices'' (sr_fingerprint rq) 86400 st else st);
               st = (if sr_country_code rq \<noteq> [] then add_unique user ''countries'' (sr_country_code rq) 604800 st else st) in
           if ip \<noteq> [] then add_unique user ''ips'' ip 86400 (add_unique user ''ips'' ip 3600 st) else st)"

section \<open>The endpoint\<close>

text \<open>
  \<open>POST /api/v1/risk/score\<close>; \<open>None\<close> is an internal error. The rules are evaluated by
  \<open>asyncio.to_thread\<close>, in a thread without an event loop.
\<close>

definition score_endpoint :: "'a score_params \<Rightarrow> score_request \<Rightarrow> 'a risk_state \<Rightarrow> decision option \<times> 'a risk_state" where
  "score_endpoint P rq st =
     (if \<not> rx_redis st \<or> \<not> rk_pool (rx_rules st) then (None, st)
      else case rk_engine (rx_rules st) of None \<Rightarrow> (None, st) | Some cache \<Rightarrow>
       (case extract_features P rq st of (fs, st1) \<Rightarrow>
        (case ip_score P (sr_ip rq) st1 of (None, st2) \<Rightarrow> (None, st2) | (Some ip, st2) \<Rightarrow>
         (case evaluate_rules (sp_risk P) False fs cache (rx_rules st2) of (None, rules) \<Rightarrow> (None, st2\<lparr>rx_rules := rules\<rparr>)
          | (Some (rule, triggered), rules) \<Rightarrow>
            (case ml_score P (rx_model st2) (map snd fs) of None \<Rightarrow> (None, st2\<lparr>rx_rules := rules\<rparr>)
             | Some (ml, shap) \<Rightarrow>
               let d = aggregate (sp_settings P) (rk_uuid (sp_risk P) (rk_draws rules)) rule ml ip (velocity_score fs) triggered shap rq;
                   st3 = st2\<lparr>rx_rules := rules\<lparr>rk_draws := rk_draws rules + 1\<rparr>\<rparr>;
                   st4 = publish_decision d (save_decision d st3) in
               (Some d, st4\<lparr>rx_store := update_velocity rq (rx_store st4)\<rparr>))))))"

section \<open>Ranges of the parts\<close>

lemma compute_score_range: "compute_score d = Some s \<Longrightarrow> 0 \<le> s \<and> s \<le> 100"
  by (auto simp: compute_score_def Let_def split: option.splits)

lemma velocity_score_range: "0 \<le> velocity_score fs \<and> velocity_score fs \<le> 100"
  by (simp add: velocity_score_def)

lemma py_round_mono: "x \<le> y \<Longrightarrow> py_round d x \<le> py_round d y"
  unfolding py_round_def
  by (intro fl_mono divide_right_mono) (simp_all add: round_even_mono mult_right_mono)

lemma py_round_of_int: "\<bar>n\<bar> \<le> 2 ^ 53 \<Longrightarrow> py_round d (of_int n) = of_int n"
proof -
  assume n: "\<bar>n\<bar> \<le> 2 ^ 53"
  have "of_int n * 10 ^ d = (of_int (n * 10 ^ d) :: rat)" by simp
  then have "py_round d (of_int n) = fl (of_int (n * 10 ^ d) / 10 ^ d)"
    unfolding py_round_def by (simp only: round_even_of_int)
  with fl_of_int [OF n] show ?thesis by simp
qed

lemma ml_score_range:
  assumes "ml_score P loaded xs = Some (ml, shap)" "0 \<le> sp_predict P xs" "sp_predict P xs \<le> 1"
  shows "0 \<le> ml \<and> ml \<le> 100 \<and> (\<not> loaded \<longrightarrow> ml = 0)"
proof (cases loaded)
  case True
  have "0 \<le> fl (sp_predict P xs * 100)" "fl (sp_predict P xs * 100) \<le> 100"
    using assms(2,3) by (auto intro: dbl.ge_0 dbl.le_numeral)
  then have "py_round 2 (of_int 0) \<le> ml" "ml \<le> py_round 2 (of_int 100)"
    using assms(1) True by (auto simp: ml_score_def Let_def intro: py_round_mono)
  then show ?thesis using True py_round_of_int [of 0 2] py_round_of_int [of 100 2] by simp
qed (use assms in \<open>simp add: ml_score_def split: if_splits\<close>)

lemma final_score_mono:
  assumes "rule \<le> rule'" "ml \<le> ml'" "ip \<le> ip'" "v \<le> v'"
    and "0 \<le> rg_w_rules c" "0 \<le> rg_w_ml c" "0 \<le> rg_w_ip c" "0 \<le> rg_w_velocity c"
  shows "final_score c rule ml ip v \<le> final_score c rule' ml' ip' v'"
  unfolding final_score_def
  by (intro py_round_mono min.mono max.mono fl_mono add_mono mult_right_mono assms order_refl)

lemma default_weights: "0 \<le> rg_w_rules default_settings" "0 \<le> rg_w_ml default_settings"
  "0 \<le> rg_w_ip default_settings" "0 \<le> rg_w_velocity default_settings"
  by (simp_all add: default_settings_def dbl.ge_0)

lemma final_score_values:
  "final_score default_settings 0 100 100 100 = 70" "final_score default_settings 0 0 100 100 = 25"
  "final_score default_settings 100 0 100 100 = 55" "final_score default_settings 0 0 0 0 = 0"
  "final_score default_settings 100 100 100 100 = 100"
  by code_simp+

text \<open>
  Even with the rules counted in, a process without a model reaches 55 of 100 and never challenges or
  blocks; and every final score lies between 0 and 100.
\<close>

lemma final_score_range:
  assumes "0 \<le> rule" "rule \<le> 100" "0 \<le> ml" "ml \<le> 100" "0 \<le> ip" "ip \<le> 100" "0 \<le> v" "v \<le> 100"
  shows "0 \<le> final_score default_settings rule ml ip v" "final_score default_settings rule ml ip v \<le> 100"
    "final_score default_settings rule 0 ip v \<le> 55"
  using final_score_mono [of 0 rule 0 ml 0 ip 0 v default_settings]
    final_score_mono [of rule 100 ml 100 ip 100 v 100 default_settings]
    final_score_mono [of rule 100 0 0 ip 100 v 100 default_settings] assms default_weights final_score_values
  by simp_all

section \<open>Frames\<close>

lemma get_or_fetch_frame:
  "rx_model (snd (get_or_fetch P ip st)) = rx_model st \<and> rx_rules (snd (get_or_fetch P ip st)) = rx_rules st
   \<and> rx_columns (snd (get_or_fetch P ip st)) = rx_columns st \<and> rx_saved (snd (get_or_fetch P ip st)) = rx_saved st
   \<and> rx_published (snd (get_or_fetch P ip st)) = rx_published st \<and> rx_store (snd (get_or_fetch P ip st)) = rx_store st"
  by (auto simp: get_or_fetch_def refetch_def Let_def split: option.split prod.split)

definition same_but_store :: "'a risk_state \<Rightarrow> 'a risk_state \<Rightarrow> bool" where
  "same_but_store st st' \<longleftrightarrow> rx_model st' = rx_model st \<and> rx_rules st' = rx_rules st \<and> rx_columns st' = rx_columns st
     \<and> rx_saved st' = rx_saved st \<and> rx_published st' = rx_published st"

lemma ip_score_frame: "same_but_store st (snd (ip_score P ip st)) \<and> rx_store (snd (ip_score P ip st)) = rx_store st"
  using get_or_fetch_frame [of P ip st] by (cases "get_or_fetch P ip st") (simp add: ip_score_def same_but_store_def)

lemma get_flags_frame: "same_but_store st (snd (get_flags P ip st))"
  using get_or_fetch_frame [of P ip st] by (cases "get_or_fetch P ip st") (simp add: get_flags_def same_but_store_def)

lemma ip_features_frame: "same_but_store st (snd (ip_features P ip fs st))"
proof (cases "ip = []")
  case False
  obtain s st1 where 1: "ip_score P ip st = (s, st1)" by fastforce
  obtain fl st2 where 2: "get_flags P ip st1 = (fl, st2)" by fastforce
  have "same_but_store st st1" "same_but_store st1 st2"
    using ip_score_frame [of st P ip] get_flags_frame [of st1 P ip] 1 2 by simp_all
  with False 1 2 show ?thesis
    by (auto simp: ip_features_def same_but_store_def Let_def split: option.split)
qed (simp add: ip_features_def same_but_store_def)

lemma extract_frame: "same_but_store st (snd (extract_features P rq st))"
proof -
  obtain fs store where r: "read_velocities (sr_ip rq) velocity_reads (feature_defaults, rx_store st) = (fs, store)" by fastforce
  have "same_but_store st (snd (ip_features P ip fs' (st\<lparr>rx_store := store\<rparr>)))" for ip fs'
    using ip_features_frame [of "st\<lparr>rx_store := store\<rparr>" P ip fs'] by (simp add: same_but_store_def)
  with r show ?thesis by (simp add: extract_features_def Let_def split: prod.split) (metis snd_conv)
qed

section \<open>Rules never count\<close>

lemma eval_rules_silent:
  "eval_rules P fs cache (m, ids, dbs) = (m', ids', []) \<Longrightarrow> m' = m \<and> ids' = ids \<and> dbs = []
    \<and> (\<forall>r \<in> set cache. rk_evaluate P (cr_tree r) fs \<noteq> Some True)"
proof (induction cache arbitrary: m ids dbs)
  case (Cons r cache)
  show ?case
  proof (cases "rk_evaluate P (cr_tree r) fs = Some True")
    case True
    then have "eval_rules P fs cache (max m (cr_score r), ids @ [cr_rule_id r], dbs @ [cr_id r]) = (m', ids', [])"
      using Cons.prems by simp
    from Cons.IH [OF this] show ?thesis by simp
  next
    case False
    with Cons.prems have "eval_rules P fs cache (m, ids, dbs) = (m', ids', [])" by simp
    from Cons.IH [OF this] False show ?thesis by simp
  qed
qed simp

lemma evaluate_without_loop:
  assumes "evaluate_rules P False fs cache st = (Some (m, ids), st')"
  shows "m = 0 \<and> ids = [] \<and> st' = st"
proof -
  obtain m' ids' dbs where e: "eval_rules P fs cache (0, [], []) = (m', ids', dbs)" by (metis prod_cases3)
  with assms have "dbs = []" by (auto simp: evaluate_rules_def split: if_splits)
  with e assms eval_rules_silent [of P fs cache 0 "[]" "[]" m' ids'] show ?thesis
    by (auto simp: evaluate_rules_def)
qed

lemma evaluate_without_loop_fails:
  assumes "r \<in> set cache" "rk_evaluate P (cr_tree r) fs = Some True"
  shows "evaluate_rules P False fs cache st = (None, st)"
proof -
  obtain m ids dbs where e: "eval_rules P fs cache (0, [], []) = (m, ids, dbs)" by (metis prod_cases3)
  have "dbs \<noteq> []" using eval_rules_silent [of P fs cache 0 "[]" "[]" m ids] e assms by auto
  with e show ?thesis by (simp add: evaluate_rules_def)
qed

text \<open>What a decision adds to the table.\<close>

definition recorded :: "decision \<Rightarrow> 'a risk_state \<Rightarrow> decision list" where
  "recorded d st = (if rk_db (rx_rules st) \<and> set insert_columns \<subseteq> set (rx_columns st) then [d] else [])"

lemma saved_by [simp]: "rx_saved (save_decision d st) = rx_saved st @ recorded d st"
  by (simp add: save_decision_def recorded_def)

lemma save_publish_frame [simp]: "rx_rules (save_decision d st) = rx_rules st" "rx_rules (publish_decision d st) = rx_rules st"
  "rx_saved (publish_decision d st) = rx_saved st"
  by (simp_all add: save_decision_def publish_decision_def)

lemma score_decides:
  assumes "score_endpoint P rq st = (Some d, st')"
  shows "\<exists>fs i ip ml shap. 0 \<le> ip \<and> ip \<le> 100 \<and> ml_score P (rx_model st) (map snd fs) = Some (ml, shap)
    \<and> d = aggregate (sp_settings P) i 0 ml ip (velocity_score fs) [] shap rq
    \<and> rx_rules st' = (rx_rules st)\<lparr>rk_draws := rk_draws (rx_rules st) + 1\<rparr>
    \<and> rx_saved st' = rx_saved (save_decision d st)"
proof -
  obtain cache where c: "rk_engine (rx_rules st) = Some cache" "rx_redis st" "rk_pool (rx_rules st)"
    using assms by (auto simp: score_endpoint_def split: if_splits option.splits)
  obtain fs st1 where e: "extract_features P rq st = (fs, st1)" by fastforce
  obtain o2 st2 where s: "ip_score P (sr_ip rq) st1 = (o2, st2)" by fastforce
  obtain ip where ip: "o2 = Some ip" using assms c e s by (cases o2) (auto simp: score_endpoint_def)
  obtain o3 rules where v: "evaluate_rules (sp_risk P) False fs cache (rx_rules st2) = (o3, rules)" by fastforce
  obtain rule triggered where o3: "o3 = Some (rule, triggered)"
    using assms c e s ip v by (cases o3) (auto simp: score_endpoint_def)
  obtain ml shap where m: "ml_score P (rx_model st2) (map snd fs) = Some (ml, shap)"
    using assms c e s ip v o3 by (auto simp: score_endpoint_def split: option.splits)
  have frame: "same_but_store st st1" "same_but_store st1 st2"
    using extract_frame [of st P rq] ip_score_frame [of st1 P "sr_ip rq"] e s by simp_all
  note v0 = evaluate_without_loop [OF v [unfolded o3]]
  obtain dat where "compute_score dat = Some ip"
    using s ip by (auto simp: ip_score_def split: prod.splits)
  then have "0 \<le> ip" "ip \<le> 100" using compute_score_range by blast+
  moreover have rec: "recorded x (st2\<lparr>rx_rules := (rx_rules st)\<lparr>rk_draws := n\<rparr>\<rparr>) = recorded x st" for x n
    using frame by (simp add: recorded_def same_but_store_def)
  moreover have "d = aggregate (sp_settings P) (rk_uuid (sp_risk P) (rk_draws (rx_rules st))) 0 ml ip (velocity_score fs) [] shap rq"
    "rx_rules st' = (rx_rules st)\<lparr>rk_draws := rk_draws (rx_rules st) + 1\<rparr>" "rx_saved st' = rx_saved (save_decision d st)"
    using assms c e s ip v o3 m v0 frame by (auto simp: score_endpoint_def Let_def same_but_store_def rec)
  moreover have "ml_score P (rx_model st) (map snd fs) = Some (ml, shap)" using m frame by (simp add: same_but_store_def)
  ultimately show ?thesis by blast
qed

text \<open>
  C26: no decision of the risk engine ever blocks, and no rule ever counts. Whatever the request and the
  state, under the default settings a decision that is returned lists no triggered rule, its final score
  is at most 70 of 100 and its action is not BLOCK; without a loaded model the score is at most 25 and
  the action ALLOW. No decision is written to the table of decisions as the migrations create it.
\<close>

theorem no_decision_blocks:
  assumes "score_endpoint P rq st = (Some d, st')" "sp_settings P = default_settings"
    and "\<And>xs. 0 \<le> sp_predict P xs \<and> sp_predict P xs \<le> 1"
  shows "dc_triggered d = [] \<and> 0 \<le> dc_final d \<and> dc_final d \<le> 70 \<and> dc_action d \<noteq> ''BLOCK''
    \<and> (\<not> rx_model st \<longrightarrow> dc_final d \<le> 25 \<and> dc_action d = ''ALLOW'')
    \<and> (rx_columns st = decision_columns \<longrightarrow> rx_saved st' = rx_saved st)"
proof -
  obtain fs i ip ml shap where d: "0 \<le> ip" "ip \<le> 100" "ml_score P (rx_model st) (map snd fs) = Some (ml, shap)"
    "d = aggregate default_settings i 0 ml ip (velocity_score fs) [] shap rq"
    "rx_saved st' = rx_saved (save_decision d st)"
    using score_decides [OF assms(1)] assms(2) by auto
  note v = velocity_score_range [of fs]
  note ml = ml_score_range [OF d(3)] assms(3)
  have "final_score default_settings 0 ml ip (velocity_score fs) \<le> 70"
    using final_score_mono [of 0 0 ml 100 ip 100 "velocity_score fs" 100 default_settings] ml v d(1,2) default_weights
      final_score_values by simp
  moreover have "\<not> rx_model st \<longrightarrow> final_score default_settings 0 ml ip (velocity_score fs) \<le> 25"
    using final_score_mono [of 0 0 ml 0 ip 100 "velocity_score fs" 100 default_settings] ml v d(1,2) default_weights
      final_score_values by auto
  moreover have "0 \<le> final_score default_settings 0 ml ip (velocity_score fs)"
    using final_score_mono [of 0 0 0 ml 0 ip 0 "velocity_score fs" default_settings] ml v d(1,2) default_weights
      final_score_values by simp
  moreover have "\<not> set insert_columns \<subseteq> set decision_columns" by (simp add: insert_columns_def decision_columns_def)
  moreover have "rg_block default_settings = 80" "rg_challenge default_settings = 60" "rg_review default_settings = 40"
    by (simp_all add: default_settings_def)
  moreover have "dc_final d = final_score default_settings 0 ml ip (velocity_score fs)"
    "dc_action d = action_of default_settings (dc_final d)" "dc_triggered d = []"
    by (simp_all add: d(4) aggregate_def Let_def)
  moreover have "rx_columns st = decision_columns \<longrightarrow> rx_saved st' = rx_saved st"
    using calculation(4) unfolding d(5) by (simp add: recorded_def)
  ultimately show ?thesis by (auto simp: action_of_def)
qed

text \<open>
  C8: a request that matches a rule is answered with an internal error. As soon as one enabled rule of
  the table holds for the extracted features, no decision is returned, saved or published, no hit is
  counted and the request leaves no trace in the velocity counters.
\<close>

theorem matching_rule_is_internal_error:
  assumes "rules_ok (sp_risk P) (rx_rules st)" "rk_engine (rx_rules st) \<noteq> None"
    and "r \<in> set (rk_rows (rx_rules st))" "ru_enabled r" "fires (sp_risk P) (fst (extract_features P rq st)) r"
  shows "fst (score_endpoint P rq st) = None \<and> rx_rules (snd (score_endpoint P rq st)) = rx_rules st
    \<and> rx_saved (snd (score_endpoint P rq st)) = rx_saved st \<and> rx_published (snd (score_endpoint P rq st)) = rx_published st
    \<and> (rx_store (snd (score_endpoint P rq st)) = rx_store st \<or>
       rx_store (snd (score_endpoint P rq st)) = rx_store (snd (extract_features P rq st)))"
proof -
  obtain fs st1 where e: "extract_features P rq st = (fs, st1)" by fastforce
  obtain o2 st2 where s: "ip_score P (sr_ip rq) st1 = (o2, st2)" by fastforce
  have frame: "same_but_store st st1" "same_but_store st1 st2" "rx_store st2 = rx_store st1"
    using extract_frame [of st P rq] ip_score_frame [of st1 P "sr_ip rq"] e s by simp_all
  obtain cache where c: "rk_engine (rx_rules st) = Some cache" using assms(2) by blast
  then have "cache = compile_rules (sp_risk P) (enabled_rows (rx_rules st))" using assms(1) by (simp add: rules_ok_def)
  moreover obtain tree where t: "rk_parse (sp_risk P) (ru_expression r) = Inr tree" "rk_evaluate (sp_risk P) tree fs = Some True"
    using assms(5) e by (auto simp: fires_def split: sum.splits)
  moreover have "r \<in> set (enabled_rows (rx_rules st))" using assms(3,4) by (simp add: enabled_rows_def)
  ultimately have "\<exists>k \<in> set cache. rk_evaluate (sp_risk P) (cr_tree k) fs = Some True"
    using assms(4) by (force simp: compile_rules_def compile_rule_def map_filter_def)
  then have v: "evaluate_rules (sp_risk P) False fs cache (rx_rules st2) = (None, rx_rules st2)"
    using evaluate_without_loop_fails by blast
  show ?thesis using c e s v frame
    by (cases o2) (auto simp: score_endpoint_def same_but_store_def)
qed

section \<open>The feature vector\<close>

lemma set_feature_names [simp]: "map fst (set_feature k v fs) = map fst fs"
  by (induction fs) (auto simp: set_feature_def)

lemma map_of_set_feature: "map_of (set_feature k v fs) n = (if n = k then map_option (\<lambda>_. v) (map_of fs n) else map_of fs n)"
  by (induction fs) (auto simp: set_feature_def)

lemma fold_set_feature_names: "map fst (fold (\<lambda>x. set_feature (f x) (g x)) xs fs) = map fst fs"
  by (induction xs arbitrary: fs) simp_all

lemma read_velocities_names: "map fst (fst (read_velocities key reads (fs, st))) = map fst fs"
  by (induction key reads "(fs, st)" arbitrary: fs st rule: read_velocities.induct) (simp_all split: prod.split)

lemma ip_features_names: "map fst (fst (ip_features P ip fs st)) = map fst fs"
  using fold_set_feature_names [where f = fst and g = "\<lambda>p. b01 (snd p)"]
  by (auto simp: ip_features_def Let_def case_prod_unfold split: option.split)

text \<open>
  Whatever is read, the model gets the 56 features in the order it was trained on, and the rules get
  every name of the vocabulary.
\<close>

lemma extract_names: "map fst (fst (extract_features P rq st)) = FEATURE_NAMES"
proof -
  obtain fs store where r: "read_velocities (sr_ip rq) velocity_reads (feature_defaults, rx_store st) = (fs, store)" by fastforce
  have fs: "map fst fs = FEATURE_NAMES"
    using read_velocities_names [of "sr_ip rq" velocity_reads feature_defaults "rx_store st"] r by (simp add: FEATURE_NAMES_def)
  let ?actor = "py_or (default (sr_user_id rq) []) (sr_ip rq)"
  let ?fs = "fold (\<lambda>(name, dmn, w). set_feature name (get_unique_count ?actor dmn w store)) unique_reads fs"
  have "map fst ?fs = FEATURE_NAMES"
    using fs fold_set_feature_names [where f = fst and g = "\<lambda>(n, d, w). get_unique_count ?actor d w store"]
    by (simp add: case_prod_unfold)
  then have "map fst (fst (ip_features P (sr_ip rq) ?fs (st\<lparr>rx_store := store\<rparr>))) = FEATURE_NAMES"
    using ip_features_names by metis
  with r show ?thesis
    by (cases "ip_features P (sr_ip rq) ?fs (st\<lparr>rx_store := store\<rparr>)")
      (simp add: extract_features_def request_features_def Let_def)
qed

lemma feature_count: "length FEATURE_NAMES = 56 \<and> distinct FEATURE_NAMES"
  unfolding FEATURE_NAMES_def feature_defaults_def by (intro conjI) (simp, simp)

lemma request_flags:
  assumes "map fst fs = FEATURE_NAMES"
  shows "map_of (request_features P rq now fs) ''is_mobile'' = Some (b01 (sr_is_mobile rq))"
    and "map_of (request_features P rq now fs) ''is_headless_browser'' = Some (b01 (sr_is_headless rq))"
proof -
  have "''is_mobile'' \<in> fst ` set fs" "''is_headless_browser'' \<in> fst ` set fs"
    using arg_cong [OF assms, of set] by (simp_all add: FEATURE_NAMES_def feature_defaults_def)
  then have "map_of fs ''is_mobile'' \<noteq> None" "map_of fs ''is_headless_browser'' \<noteq> None"
    by (simp_all add: map_of_eq_None_iff)
  then show "map_of (request_features P rq now fs) ''is_mobile'' = Some (b01 (sr_is_mobile rq))"
    "map_of (request_features P rq now fs) ''is_headless_browser'' = Some (b01 (sr_is_headless rq))"
    by (auto simp: request_features_def map_of_set_feature)
qed

lemma extract_flags:
  "map_of (fst (extract_features P rq st)) ''is_mobile'' = Some (b01 (sr_is_mobile rq))"
  "map_of (fst (extract_features P rq st)) ''is_headless_browser'' = Some (b01 (sr_is_headless rq))"
proof -
  have "\<exists>fs now. fst (extract_features P rq st) = request_features P rq now fs \<and> map fst fs = FEATURE_NAMES"
    using extract_names [of P rq st] by (auto simp: extract_features_def Let_def request_features_def split: prod.splits)
  then show "map_of (fst (extract_features P rq st)) ''is_mobile'' = Some (b01 (sr_is_mobile rq))"
    "map_of (fst (extract_features P rq st)) ''is_headless_browser'' = Some (b01 (sr_is_headless rq))"
    using request_flags [of _ P rq] by metis+
qed

section \<open>Examples\<close>

text \<open>The IP service does not answer, and there is no model.\<close>

definition sample_score :: "string score_params" where
  "sample_score = \<lparr>sp_risk = sample_risk, sp_settings = default_settings, sp_lookup = (\<lambda>n ip. None), sp_predict = (\<lambda>xs. 1 / 2),
     sp_shap = (\<lambda>xs. xs), sp_hour = (\<lambda>t. 12), sp_weekday = (\<lambda>t. 2)\<rparr>"

definition sample_risk_state :: "string risk_state" where
  "sample_risk_state = \<lparr>rx_rules = lifespan sample_risk sample_rules, rx_store = empty_store 1000, rx_redis = True,
     rx_ip_cache = (\<lambda>_. None), rx_lookups = 0, rx_model = False, rx_kafka = True, rx_columns = decision_columns,
     rx_saved = [], rx_published = []\<rparr>"

definition sample_request :: "bool \<Rightarrow> score_request" where
  "sample_request mobile = \<lparr>sr_request_id = ''r'', sr_user_id = None, sr_ip = ''203.0.113.5'', sr_user_agent = ''Mozilla'',
     sr_country = ''Unknown'', sr_country_code = ''XX'', sr_lat = 0, sr_lon = 0, sr_fingerprint = [], sr_is_mobile = mobile,
     sr_is_headless = False\<rparr>"

lemma no_lookup:
  "rx_ip_cache st = (\<lambda>_. None) \<Longrightarrow> get_or_fetch sample_score ip st = ([], st\<lparr>rx_lookups := rx_lookups st + 1\<rparr>)"
  by (simp add: get_or_fetch_def refetch_def fetch_ip_data_def sample_score_def)

lemma no_lookup_extract: "rx_ip_cache st = (\<lambda>_. None) \<Longrightarrow> rx_ip_cache (snd (extract_features sample_score rq st)) = (\<lambda>_. None)"
  by (auto simp: extract_features_def ip_features_def ip_score_def get_flags_def no_lookup Let_def split: prod.split option.split)

lemma sample_fires:
  "fires sample_risk (fst (extract_features P rq st)) (sample_row ''R2'' ''is_mobile'' 60 True) \<longleftrightarrow> sr_is_mobile rq"
  "fires sample_risk (fst (extract_features P rq st)) (sample_row ''R1'' ''is_headless_browser'' 75 True) \<longleftrightarrow> sr_is_headless rq"
  by (simp_all add: fires_def sample_risk_def sample_row_def extract_flags b01_def)

lemma sample_engine: "rk_engine (rx_rules sample_risk_state) = Some (compile_rules sample_risk
    [sample_row ''R1'' ''is_headless_browser'' 75 True, sample_row ''R2'' ''is_mobile'' 60 True])"
  by (simp add: sample_risk_state_def lifespan_def load_rules_def get_all_enabled_def sample_rules_def sample_row_def)

lemma sample_decides: "fst (score_endpoint sample_score (sample_request False) sample_risk_state) \<noteq> None"
proof -
  let ?rq = "sample_request False"
  obtain fs st1 where e: "extract_features sample_score ?rq sample_risk_state = (fs, st1)" by fastforce
  have frame: "same_but_store sample_risk_state st1" using extract_frame [of sample_risk_state sample_score ?rq] e by simp
  have "rx_ip_cache st1 = (\<lambda>_. None)"
    using no_lookup_extract [of sample_risk_state ?rq] e by (simp add: sample_risk_state_def)
  then have s: "ip_score sample_score (sr_ip ?rq) st1 = (Some 30, st1\<lparr>rx_lookups := rx_lookups st1 + 1\<rparr>)"
    by (simp add: ip_score_def no_lookup compute_score_def is_tor_def has_true_def str_includes_def toLowerCase_def)
  have f: "filter (fires sample_risk fs) [sample_row ''R1'' ''is_headless_browser'' 75 True, sample_row ''R2'' ''is_mobile'' 60 True] = []"
    using sample_fires [of sample_score ?rq sample_risk_state] e by (simp add: sample_request_def)
  have en: "filter ru_enabled [sample_row ''R1'' ''is_headless_browser'' 75 True, sample_row ''R2'' ''is_mobile'' 60 True]
      = [sample_row ''R1'' ''is_headless_browser'' 75 True, sample_row ''R2'' ''is_mobile'' 60 True]"
    by (simp add: sample_row_def)
  have v: "evaluate_rules sample_risk False fs (compile_rules sample_risk
      [sample_row ''R1'' ''is_headless_browser'' 75 True, sample_row ''R2'' ''is_mobile'' 60 True]) r = (Some (0, []), r)" for r
    unfolding evaluate_rules_def eval_compiled en f by simp
  have "ml_score sample_score False xs = Some (0, None)" for xs
    by (simp add: ml_score_def sample_score_def default_settings_def)
  moreover have "sp_risk sample_score = sample_risk" "rx_redis sample_risk_state" "rk_pool (rx_rules sample_risk_state)"
    "\<not> rx_model st1"
    using frame by (simp_all add: sample_score_def sample_risk_state_def lifespan_def sample_rules_def load_rules_def
        get_all_enabled_def same_but_store_def)
  ultimately show ?thesis using e s v sample_engine by (simp add: score_endpoint_def Let_def)
qed

theorem no_decision_blocks_witness:
  "\<exists>d st'. score_endpoint sample_score (sample_request False) sample_risk_state = (Some d, st') \<and> dc_action d = ''ALLOW''"
proof -
  obtain d st' where d: "score_endpoint sample_score (sample_request False) sample_risk_state = (Some d, st')"
    using sample_decides by (metis option.exhaust prod.collapse)
  have "\<not> rx_model sample_risk_state" "sp_settings sample_score = default_settings"
    "\<And>xs. 0 \<le> sp_predict sample_score xs \<and> sp_predict sample_score xs \<le> 1"
    by (simp_all add: sample_risk_state_def sample_score_def)
  with no_decision_blocks [OF d] d show ?thesis by blast
qed

theorem matching_rule_is_internal_error_witness:
  "fst (score_endpoint sample_score (sample_request True) sample_risk_state) = None"
proof -
  let ?r = "sample_row ''R2'' ''is_mobile'' 60 True"
  have ok: "rules_ok (sp_risk sample_score) (rx_rules sample_risk_state)"
    using lifespan_ok [OF sample_rows_ok, of sample_risk] by (simp add: sample_score_def sample_risk_state_def)
  have e: "rk_engine (rx_rules sample_risk_state) \<noteq> None" "?r \<in> set (rk_rows (rx_rules sample_risk_state))" "ru_enabled ?r"
    by (simp_all add: sample_risk_state_def lifespan_def load_rules_def get_all_enabled_def sample_rules_def sample_row_def)
  have "fires (sp_risk sample_score) (fst (extract_features sample_score (sample_request True) sample_risk_state)) ?r"
    using sample_fires(1) [of sample_score "sample_request True" sample_risk_state]
    by (simp add: sample_request_def) (simp add: sample_score_def)
  from matching_rule_is_internal_error [OF ok e this] show ?thesis by blast
qed

end
