(* ===== verification/Gateway.thy ===== *)
theory Gateway
  imports Auth_Service Feature_Store
begin

text \<open>
  The API gateway (\<open>gateway/internal\<close>, \<open>gateway/cmd/main.go\<close>): the rate limit, the verification of
  tokens with a key that is fetched and polled, and the routes.

  Parsing a PEM key, verifying a JWT with a key and chi's \<open>RealIP\<close> are the fields of \<open>gateway_params\<close>.
  Header names are in canonical form, as Go keeps them. Times are nanoseconds; Redis reads scores and bounds
  as doubles, every member carries a fresh UUID, and a key is gone when its expiry has passed.
\<close>

section \<open>The rate limit\<close>

text \<open>The host of \<open>net.SplitHostPort\<close>, empty on an error.\<close>

definition after_last :: "char \<Rightarrow> string \<Rightarrow> string" where
  "after_last c s = rev (takeWhile (\<lambda>x. x \<noteq> c) (rev s))"

definition before_last :: "char \<Rightarrow> string \<Rightarrow> string" where
  "before_last c s = take (length s - length (after_last c s) - 1) s"

definition SplitHost :: "string \<Rightarrow> string" where
  "SplitHost s =
     (if CHR '':'' \<notin> set s then []
      else let host = before_last (CHR '':'') s; port = after_last (CHR '':'') s;
               bad = (\<lambda>t. CHR ''['' \<in> set t \<or> CHR '']'' \<in> set t) in
        if startsWith s ''['' then
          (if endsWith host '']'' \<and> \<not> bad (butlast (drop 1 host)) \<and> \<not> bad port then butlast (drop 1 host) else [])
        else if CHR '':'' \<in> set host \<or> bad host \<or> bad port then [] else host)"

definition rate_key :: "bool \<Rightarrow> string \<Rightarrow> (string \<Rightarrow> string option) \<Rightarrow> string" where
  "rate_key trustProxy remoteAddr headers =
     (let ip = SplitHost remoteAddr; ip = (if ip = [] then remoteAddr else ip);
          forwarded = default (headers ''X-Forwarded-For'') [] in
      if trustProxy \<and> forwarded \<noteq> [] then TrimSpace (hd (split_on (CHR '','') forwarded)) else ip)"

record limiter =
  lm_zsets :: "string \<Rightarrow> rat list"
  lm_expiry :: "string \<Rightarrow> int option"
  lm_now :: int
  lm_up :: bool

definition stored_window :: "string \<Rightarrow> limiter \<Rightarrow> rat list" where
  "stored_window k st = (case lm_expiry st k of None \<Rightarrow> lm_zsets st k
     | Some e \<Rightarrow> if lm_now st < e then lm_zsets st k else [])"

definition window_cut :: "int \<Rightarrow> int \<Rightarrow> rat" where
  "window_cut window now = fl (of_int (now - window))"

text \<open>
  \<open>Allow\<close>: whether the request is let through, or an error. The expiry that go-redis sends is in whole
  seconds; the program's window is a minute, so nothing is cut off.
\<close>

definition Allow :: "nat \<Rightarrow> int \<Rightarrow> string \<Rightarrow> limiter \<Rightarrow> bool option \<times> limiter" where
  "Allow limit window key st =
     (if \<not> lm_up st then (None, st)
      else let k = ''ratelimit:'' @ key; now = lm_now st;
               left = filter (\<lambda>s. \<not> (0 \<le> s \<and> s \<le> window_cut window now)) (stored_window k st);
               all = left @ [fl (of_int now)] in
        (Some (\<not> limit < length all),
         st\<lparr>lm_zsets := (lm_zsets st)(k := all), lm_expiry := (lm_expiry st)(k := Some (now + window))\<rparr>))"

text \<open>Attempts of clients, with pauses and outages of Redis between them.\<close>

datatype limiter_event = Attempt string | Later nat | LimiterStore bool

fun limiter_step :: "nat \<Rightarrow> int \<Rightarrow> limiter_event \<Rightarrow> limiter \<Rightarrow> limiter" where
  "limiter_step limit window (Attempt key) st = snd (Allow limit window key st)"
| "limiter_step limit window (Later ns) st = st\<lparr>lm_now := lm_now st + int ns\<rparr>"
| "limiter_step limit window (LimiterStore up) st = st\<lparr>lm_up := up\<rparr>"

text \<open>The times of the attempts of a client that reached the store.\<close>

fun attempts :: "string \<Rightarrow> int \<Rightarrow> bool \<Rightarrow> limiter_event list \<Rightarrow> int list" where
  "attempts key now up [] = []"
| "attempts key now up (Attempt k # es) = (if k = key \<and> up then [now] else []) @ attempts key now up es"
| "attempts key now up (Later ns # es) = attempts key (now + int ns) up es"
| "attempts key now up (LimiterStore b # es) = attempts key now b es"

definition fresh_limiter :: "int \<Rightarrow> limiter" where
  "fresh_limiter now = \<lparr>lm_zsets = (\<lambda>_. []), lm_expiry = (\<lambda>_. None), lm_now = now, lm_up = True\<rparr>"

interpretation lim: sliding_window "window_cut w" for w
  by unfold_locales (simp add: window_cut_def fl_mono)

definition lim_inv :: "int \<Rightarrow> string \<Rightarrow> int list \<Rightarrow> limiter \<Rightarrow> bool" where
  "lim_inv w key ts st \<longleftrightarrow> (let k = ''ratelimit:'' @ key in
     0 \<le> lm_now st \<and> lim.agrees w (lm_now st) (stored_window k st) (map (\<lambda>t. fl (of_int t)) ts)
     \<and> (\<forall>s \<in> set (lm_zsets st k). 0 \<le> s) \<and> (\<forall>t \<in> set ts. t \<le> lm_now st)
     \<and> (\<forall>e. lm_expiry st k = Some e \<longrightarrow> (\<forall>t \<in> set ts. t + w \<le> e)))"

lemma stored_nonneg: "lim_inv w key ts st \<Longrightarrow> s \<in> set (stored_window (''ratelimit:'' @ key) st) \<Longrightarrow> 0 \<le> s"
  by (auto simp: lim_inv_def stored_window_def Let_def split: option.splits if_splits)

lemma purge_agrees:
  assumes "lim_inv w key ts st"
  shows "filter (\<lambda>s. \<not> (0 \<le> s \<and> s \<le> window_cut w (lm_now st))) (stored_window (''ratelimit:'' @ key) st)
      = filter (\<lambda>s. window_cut w (lm_now st) < s) (stored_window (''ratelimit:'' @ key) st)"
  using stored_nonneg [OF assms] by (intro filter_cong) (auto simp: not_le)

lemma lim_inv_attempt:
  assumes "lim_inv w key ts st" "lm_up st" "0 < w"
  shows "lim_inv w key (ts @ [lm_now st]) (snd (Allow limit w key st))"
proof -
  let ?k = "''ratelimit:'' @ key"
  let ?left = "filter (\<lambda>s. window_cut w (lm_now st) < s) (stored_window ?k st)"
  let ?st = "snd (Allow limit w key st)"
  have st: "?st = st\<lparr>lm_zsets := (lm_zsets st)(?k := ?left @ [fl (of_int (lm_now st))]),
      lm_expiry := (lm_expiry st)(?k := Some (lm_now st + w))\<rparr>"
    using assms(2) purge_agrees [OF assms(1)] by (simp add: Allow_def Let_def)
  have "lim.agrees w (lm_now st) ?left (map (\<lambda>t. fl (of_int t)) ts)"
    using assms(1) by (intro lim.agrees_purge) (auto simp: lim_inv_def Let_def)
  then have "lim.agrees w (lm_now st) (?left @ [fl (of_int (lm_now st))]) (map (\<lambda>t. fl (of_int t)) ts @ [fl (of_int (lm_now st))])"
    by (rule lim.agrees_add)
  moreover have "0 \<le> fl (of_int (lm_now st))" using assms(1) by (auto simp: lim_inv_def Let_def intro: dbl.ge_0)
  ultimately show ?thesis using assms stored_nonneg [OF assms(1)]
    by (auto simp: st lim_inv_def Let_def stored_window_def)
qed

lemma lim_inv_later:
  assumes "lim_inv w key ts st"
  shows "lim_inv w key ts (st\<lparr>lm_now := lm_now st + int ns\<rparr>)"
proof -
  let ?k = "''ratelimit:'' @ key" and ?now = "lm_now st + int ns"
  let ?st = "st\<lparr>lm_now := ?now\<rparr>"
  have later: "lm_now st \<le> ?now" by simp
  have "lim.agrees w ?now (stored_window ?k ?st) (map (\<lambda>t. fl (of_int t)) ts)"
  proof (cases "stored_window ?k ?st = stored_window ?k st")
    case True
    then show ?thesis using assms lim.agrees_later [OF _ later] by (simp add: lim_inv_def Let_def)
  next
    case False
    then obtain e where e: "lm_expiry st ?k = Some e" "e \<le> ?now" "stored_window ?k ?st = []"
      by (auto simp: stored_window_def split: option.splits if_splits)
    have "fl (of_int t) \<le> window_cut w ?now" if "t \<in> set ts" for t
    proof -
      have "t + w \<le> ?now" using assms e that by (force simp: lim_inv_def Let_def)
      then have "(of_int t :: rat) \<le> of_int (?now - w)" by simp
      then show ?thesis unfolding window_cut_def by (rule fl_mono)
    qed
    then have "lim.agrees w ?now [] (map (\<lambda>t. fl (of_int t)) ts)" by (intro lim.agrees_drop) auto
    with e(3) show ?thesis by simp
  qed
  moreover have "t \<le> ?now" if "t \<in> set ts" for t
    using assms that by (force simp: lim_inv_def Let_def)
  ultimately show ?thesis using assms by (simp add: lim_inv_def Let_def)
qed

lemma lim_inv_frame:
  assumes "lim_inv w key ts st" "lm_zsets st' (''ratelimit:'' @ key) = lm_zsets st (''ratelimit:'' @ key)"
    "lm_expiry st' (''ratelimit:'' @ key) = lm_expiry st (''ratelimit:'' @ key)" "lm_now st' = lm_now st"
  shows "lim_inv w key ts st'"
proof -
  have "stored_window (''ratelimit:'' @ key) st' = stored_window (''ratelimit:'' @ key) st"
    unfolding stored_window_def assms(2-4) ..
  with assms show ?thesis by (simp add: lim_inv_def Let_def)
qed

lemma lim_inv_run:
  assumes "0 < w" "lim_inv w key ts st"
  shows "lim_inv w key (ts @ attempts key (lm_now st) (lm_up st) es) (fold (limiter_step limit w) es st)"
  using assms(2)
proof (induction es arbitrary: ts st)
  case (Cons e es)
  show ?case
  proof (cases e)
    case (Attempt k)
    show ?thesis
    proof (cases "k = key \<and> lm_up st")
      case True
      from Cons.IH [OF lim_inv_attempt [OF Cons.prems _ assms(1)], of limit] True Attempt
      show ?thesis by (simp add: Allow_def Let_def)
    next
      case False
      have "lim_inv w key ts (snd (Allow limit w k st))"
        by (rule lim_inv_frame [OF Cons.prems]) (use False in \<open>auto simp: Allow_def Let_def\<close>)
      from Cons.IH [OF this] False Attempt show ?thesis by (auto simp: Allow_def Let_def)
    qed
  next
    case (Later ns)
    from Cons.IH [OF lim_inv_later [OF Cons.prems, of ns]] Later show ?thesis by simp
  next
    case (LimiterStore b)
    have "lim_inv w key ts (st\<lparr>lm_up := b\<rparr>)" by (rule lim_inv_frame [OF Cons.prems]) simp_all
    from Cons.IH [OF this] LimiterStore show ?thesis by simp
  qed
qed simp

lemma Allow_exact:
  fixes start window :: int and limit :: nat and key :: string and es :: "limiter_event list"
  assumes "0 < window" "0 \<le> start"
  defines "st \<equiv> fold (limiter_step limit window) es (fresh_limiter start)"
  shows "fst (Allow limit window key st) = (if lm_up st
    then Some (length (filter (\<lambda>t. window_cut window (lm_now st) < fl (of_int t)) (attempts key start True es)) < limit)
    else None)"
proof -
  let ?ts = "attempts key start True es" and ?k = "''ratelimit:'' @ key"
  have "lim_inv window key [] (fresh_limiter start)"
    using assms(2) by (simp add: lim_inv_def fresh_limiter_def stored_window_def lim.agrees_def)
  from lim_inv_run [OF assms(1) this, of es limit]
  have inv: "lim_inv window key ?ts st" by (simp add: st_def fresh_limiter_def)
  have "filter (\<lambda>s. window_cut window (lm_now st) < s) (stored_window ?k st)
      = filter (\<lambda>s. window_cut window (lm_now st) < s) (map (\<lambda>t. fl (of_int t)) ?ts)"
    using inv by (intro lim.agrees_count) (simp add: lim_inv_def Let_def)
  then have "length (filter (\<lambda>s. window_cut window (lm_now st) < s) (stored_window ?k st))
      = length (filter (\<lambda>t. window_cut window (lm_now st) < fl (of_int t)) ?ts)"
    by (simp add: filter_map o_def)
  then show ?thesis using purge_agrees [OF inv]
    by (simp add: Allow_def Let_def) linarith
qed

text \<open>
  C17: the limiter admits a request exactly when the client has made at most \<open>limit\<close> attempts in the
  sliding window, this one included, whatever other clients do and whenever keys expire. Refused
  attempts count like admitted ones, so a client that has made \<open>limit\<close> attempts in the last window is
  refused and stays refused as long as it keeps up that rate; while Redis is down every request is an
  error.
\<close>

theorem rate_limit_exact:
  fixes start window :: int and limit :: nat and key :: string and es :: "limiter_event list"
  assumes "0 < window" "0 \<le> start"
  defines "st \<equiv> fold (limiter_step limit window) es (fresh_limiter start)"
  shows "fst (Allow limit window key st) = (if lm_up st
    then Some (length (filter (\<lambda>t. window_cut window (lm_now st) < fl (of_int t)) (attempts key start True es)) < limit)
    else None)"
  unfolding st_def by (rule Allow_exact [OF assms(1,2)])

theorem rate_limit_exact_witness:
  "fst (Allow 1 60 ''a'' (fold (limiter_step 1 60) [Attempt ''a'', Later 30, Attempt ''a'', Later 40] (fresh_limiter 1000))) = Some False"
proof -
  have f: "fl 1000 = 1000" "fl 1030 = 1030" "fl 1010 = 1010" by (simp_all add: fl_numeral)
  show ?thesis
    using rate_limit_exact [of 60 1000 1 "''a''" "[Attempt ''a'', Later 30, Attempt ''a'', Later 40]"]
    by (simp add: fresh_limiter_def Allow_def Let_def window_cut_def f)
qed

section \<open>Keys\<close>

text \<open>
  What the middleware calls: \<open>pem.Decode\<close>, \<open>x509.ParsePKIXPublicKey\<close> (\<open>None\<close> for a key that is not RSA),
  the verification of a JWT with a key, issuer, audience and time, and chi's \<open>RealIP\<close>, which gives
  \<open>r.RemoteAddr\<close>.
\<close>

record jwt_claims =
  jc_sub :: "string option"
  jc_role :: "string option"
  jc_email :: "string option"

record 'k gateway_params =
  gp_decode_pem :: "string \<Rightarrow> string option"
  gp_pkix :: "string \<Rightarrow> string + 'k option"
  gp_jwt :: "'k \<Rightarrow> string \<Rightarrow> string \<Rightarrow> int \<Rightarrow> string \<Rightarrow> jwt_claims option"
  gp_real_ip :: "string \<Rightarrow> (string \<Rightarrow> string option) \<Rightarrow> string"
  gp_issuer :: string
  gp_audience :: string
  gp_limit :: nat
  gp_trustProxy :: bool

definition ParsePEMPublicKey :: "'k gateway_params \<Rightarrow> string \<Rightarrow> string + 'k" where
  "ParsePEMPublicKey P pemBytes = (case gp_decode_pem P pemBytes of None \<Rightarrow> Inl ''failed to decode PEM block''
     | Some block \<Rightarrow> (case gp_pkix P block of Inl err \<Rightarrow> Inl err
         | Inr None \<Rightarrow> Inl ''not an RSA public key'' | Inr (Some k) \<Rightarrow> Inr k))"

text \<open>The answer to one GET of the key: none, an error status, an unreadable body, or a body.\<close>

datatype fetched = Unreachable string | BadStatus nat | Unreadable string | Pem string

text \<open>At most thirty tries; with the number of those made.\<close>

function FetchPublicKey :: "'k gateway_params \<Rightarrow> nat \<Rightarrow> (nat \<Rightarrow> fetched) \<Rightarrow> (string + 'k) \<times> nat" where
  "FetchPublicKey P i answers =
     (if 30 \<le> i then (Inl ''timeout waiting for auth service public key'', i)
      else case answers i of Pem bytes \<Rightarrow> (ParsePEMPublicKey P bytes, i + 1)
      | Unreadable err \<Rightarrow> (Inl err, i + 1)
      | _ \<Rightarrow> FetchPublicKey P (i + 1) answers)"
  by auto
termination by (relation "measure (\<lambda>(P, i, answers). 30 - i)") auto

declare FetchPublicKey.simps [simp del]

text \<open>
  The middleware's key and the poller's: \<open>ks_public\<close> is nil only if it was created so. The poller writes
  \<open>lastErr\<close> with \<open>atomic.StoreString\<close>, which the standard library does not have; it is read as
  \<open>lastErr.Store\<close>.
\<close>

record 'k key_state =
  ks_public :: "'k option"
  ks_current :: "'k option"
  ks_lastErr :: string

definition NewAuthMiddleware :: "'k option \<Rightarrow> 'k key_state" where
  "NewAuthMiddleware pubKey = \<lparr>ks_public = pubKey, ks_current = None, ks_lastErr = []\<rparr>"

definition RefreshKey :: "'k option \<Rightarrow> 'k key_state \<Rightarrow> 'k key_state" where
  "RefreshKey pubKey st = (if pubKey = None then st else st\<lparr>ks_public := pubKey\<rparr>)"

fun poll_key :: "'k gateway_params \<Rightarrow> fetched \<Rightarrow> 'k key_state \<Rightarrow> 'k key_state" where
  "poll_key P (Unreachable err) st = st\<lparr>ks_lastErr := err\<rparr>"
| "poll_key P (BadStatus n) st = st\<lparr>ks_lastErr := ''status '' @ dec n\<rparr>"
| "poll_key P (Unreadable err) st = st\<lparr>ks_lastErr := err\<rparr>"
| "poll_key P (Pem bytes) st = (case ParsePEMPublicKey P bytes of Inl err \<Rightarrow> st\<lparr>ks_lastErr := err\<rparr>
     | Inr pub \<Rightarrow> (let sameKey = ks_current st = Some pub; st = st\<lparr>ks_current := Some pub\<rparr>;
         st = (if \<not> sameKey then RefreshKey (Some pub) st else st) in st\<lparr>ks_lastErr := []\<rparr>))"

definition polled_keys :: "'k gateway_params \<Rightarrow> fetched list \<Rightarrow> 'k list" where
  "polled_keys P fs = List.map_filter (\<lambda>f. case f of Pem bytes \<Rightarrow> (case ParsePEMPublicKey P bytes of Inl _ \<Rightarrow> None | Inr k \<Rightarrow> Some k)
     | _ \<Rightarrow> None) fs"

lemma poll_key_run:
  assumes "ks_public st = Some k" "ks_current st = None \<or> ks_current st = Some k"
  shows "ks_public (fold (poll_key P) fs st) = Some (last (k # polled_keys P fs))"
  using assms
proof (induction fs arbitrary: st k)
  case (Cons f fs)
  show ?case
  proof (cases "\<exists>bytes k'. f = Pem bytes \<and> ParsePEMPublicKey P bytes = Inr k'")
    case True
    then obtain bytes k' where f: "f = Pem bytes" "ParsePEMPublicKey P bytes = Inr k'" by blast
    have "ks_public (fold (poll_key P) fs (poll_key P f st)) = Some (last (k' # polled_keys P fs))"
      by (rule Cons.IH) (use Cons.prems f in \<open>auto simp: RefreshKey_def Let_def\<close>)
    with f show ?thesis by (simp add: polled_keys_def map_filter_simps)
  next
    case False
    then have "ks_public (poll_key P f st) = ks_public st" "ks_current (poll_key P f st) = ks_current st"
      "polled_keys P (f # fs) = polled_keys P fs"
      by (cases f; auto simp: polled_keys_def map_filter_simps split: sum.split)+
    with Cons.IH [of "poll_key P f st" k] Cons.prems show ?thesis by simp
  qed
qed (simp add: polled_keys_def map_filter_simps)

text \<open>At most thirty tries, and the outcome is that of the first answer with a body.\<close>

lemma FetchPublicKey_outcome:
  assumes "i \<le> 30" "FetchPublicKey P i answers = (r, n)"
  shows "n \<le> 30 \<and> (\<forall>j \<in> {i ..< n - 1}. \<not> (\<exists>b. answers j \<in> {Pem b, Unreadable b}))
    \<and> (case r of Inr k \<Rightarrow> i < n \<and> (\<exists>b. answers (n - 1) = Pem b \<and> ParsePEMPublicKey P b = Inr k) | Inl _ \<Rightarrow> True)"
  using assms
proof (induction P i answers rule: FetchPublicKey.induct)
  case (1 P i answers)
  show ?case
  proof (cases "30 \<le> i")
    case True
    then have "r = Inl ''timeout waiting for auth service public key'' \<and> n = i"
      using 1(4) by (subst (asm) FetchPublicKey.simps) simp
    with 1(3) show ?thesis by simp
  next
    case False
    show ?thesis
    proof (cases "\<exists>b. answers i \<in> {Pem b, Unreadable b}")
      case True
      with False 1(4) show ?thesis by (auto simp: FetchPublicKey.simps [of P i] split: sum.split)
    next
      case no: False
      then have "FetchPublicKey P (i + 1) answers = (r, n)" using 1(4) False
        by (cases "answers i") (auto simp: FetchPublicKey.simps [of P i])
      with 1(1,2) False no have "n \<le> 30 \<and> (\<forall>j \<in> {i + 1 ..< n - 1}. \<not> (\<exists>b. answers j \<in> {Pem b, Unreadable b}))
        \<and> (case r of Inr k \<Rightarrow> i + 1 < n \<and> (\<exists>b. answers (n - 1) = Pem b \<and> ParsePEMPublicKey P b = Inr k) | Inl _ \<Rightarrow> True)"
        by (cases "answers i") auto
      with no show ?thesis by (auto split: sum.splits simp: Suc_le_eq dest: le_neq_implies_less)
    qed
  qed
qed

section \<open>The check of a token\<close>

text \<open>\<open>r.URL.Query().Get(key)\<close>: the first pair with the key; pairs that do not decode are left out.\<close>

definition hex_of :: "char \<Rightarrow> nat option" where
  "hex_of c = (let n = char_code c in
     if 48 \<le> n \<and> n \<le> 57 then Some (n - 48) else if 65 \<le> n \<and> n \<le> 70 then Some (n - 55)
     else if 97 \<le> n \<and> n \<le> 102 then Some (n - 87) else None)"

fun QueryUnescape :: "string \<Rightarrow> string option" where
  "QueryUnescape [] = Some []"
| "QueryUnescape (c # s) =
     (if c = CHR ''%'' then (case s of h # l # t \<Rightarrow> (case (hex_of h, hex_of l) of
          (Some a, Some b) \<Rightarrow> map_option (Cons (char_of (16 * a + b))) (QueryUnescape t) | _ \<Rightarrow> None)
        | _ \<Rightarrow> None)
      else map_option (Cons (if c = CHR ''+'' then CHR '' '' else c)) (QueryUnescape s))"

definition cut_at :: "char \<Rightarrow> string \<Rightarrow> string \<times> string" where
  "cut_at c s = (takeWhile (\<lambda>x. x \<noteq> c) s, drop 1 (dropWhile (\<lambda>x. x \<noteq> c) s))"

definition query_pair :: "string \<Rightarrow> (string \<times> string) option" where
  "query_pair p = (if p = [] \<or> CHR '';'' \<in> set p then None else case cut_at (CHR ''='') p of (k, v) \<Rightarrow>
     (case (QueryUnescape k, QueryUnescape v) of (Some k', Some v') \<Rightarrow> Some (k', v') | _ \<Rightarrow> None))"

definition raw_query :: "string \<Rightarrow> string" where
  "raw_query url = snd (cut_at (CHR ''?'') (fst (cut_at (CHR ''#'') url)))"

definition query_get :: "string \<Rightarrow> string \<Rightarrow> string" where
  "query_get url key = default (map_of (List.map_filter query_pair (split_on (CHR ''&'') (raw_query url))) key) []"

definition isWebSocketUpgrade :: "request \<Rightarrow> bool" where
  "isWebSocketUpgrade r \<longleftrightarrow> toLowerCase (header r ''Connection'') = ''upgrade'' \<and> toLowerCase (header r ''Upgrade'') = ''websocket''"

definition token_header :: "request \<Rightarrow> string" where
  "token_header r = (let authHeader = header r ''Authorization'' in
     if authHeader = [] \<and> isWebSocketUpgrade r
     then (let accessToken = query_get (rq_url r) ''access_token'' in
       if accessToken \<noteq> [] then ''Bearer '' @ accessToken else authHeader)
     else authHeader)"

definition set_header :: "string \<Rightarrow> string option \<Rightarrow> request \<Rightarrow> request" where
  "set_header k v r = (case v of None \<Rightarrow> r | Some v \<Rightarrow> r\<lparr>rq_headers := (rq_headers r)(k \<mapsto> v)\<rparr>)"

definition forward_claims :: "jwt_claims \<Rightarrow> request \<Rightarrow> request" where
  "forward_claims c r =
     (let r = r\<lparr>rq_headers := (rq_headers r)(''X-User-Id'' := None, ''X-User-Role'' := None, ''X-User-Email'' := None)\<rparr> in
      set_header ''X-User-Email'' (jc_email c) (set_header ''X-User-Role'' (jc_role c) (set_header ''X-User-Id'' (jc_sub c) r)))"

text \<open>\<open>VerifyJWT\<close>: an error, or the request for the next handler.\<close>

definition verify_token :: "'k gateway_params \<Rightarrow> 'k key_state \<Rightarrow> int \<Rightarrow> request \<Rightarrow> reply + request" where
  "verify_token P ks now r =
     (let authHeader = token_header r in
      if authHeader = [] then Inl (http_error ''missing authorization header'' 401)
      else case go_fields authHeader of
        [scheme, tokenString] \<Rightarrow>
          if scheme \<noteq> ''Bearer'' then Inl (http_error ''invalid authorization header format'' 401)
          else (case ks_public ks of None \<Rightarrow> Inl (http_error ''auth key unavailable'' 503)
            | Some pubKey \<Rightarrow> (case gp_jwt P pubKey (gp_issuer P) (gp_audience P) now tokenString of
                None \<Rightarrow> Inl (http_error ''invalid or expired token'' 401)
              | Some claims \<Rightarrow> Inr (forward_claims claims r)))
      | _ \<Rightarrow> Inl (http_error ''invalid authorization header format'' 401))"

text \<open>
  For a request that is no upgrade, and with a key, this is the check that the auth service's theories
  use (\<open>Auth_Service.VerifyJWT\<close>).
\<close>

lemma verify_token_VerifyJWT:
  assumes "ks_public ks = Some key" "\<not> isWebSocketUpgrade r"
    and "\<And>t. gp_jwt P key (gp_issuer P) (gp_audience P) (as_now st) t = None
      \<longleftrightarrow> ap_parse_claims A (ap_issuer A) (ap_audience A) (as_now st) t = None"
  shows "(\<exists>r'. verify_token P ks (as_now st) r = Inr r') \<longleftrightarrow> VerifyJWT A (rq_headers r ''Authorization'') st"
proof -
  have "go_fields [] = []" by (simp add: go_fields_def)
  with assms show ?thesis
    by (auto simp: verify_token_def VerifyJWT_def token_header_def header_def Let_def simp flip: not_None_eq split: list.split option.split)
qed

section \<open>Routes\<close>

datatype backend = AuthBackend | RiskBackend | AnalyticsBackend

datatype gateway_reply = Answer reply | Proxy backend request | HealthAnswer nat bool bool | MetricsAnswer

record 'k gateway =
  gw_limiter :: limiter
  gw_keys :: "'k key_state"

text \<open>
  The director of the proxies; the header map of a Go request holds no \<open>Host\<close>. What Go's
  \<open>ReverseProxy\<close> does after it, removing hop-by-hop headers and adding \<open>X-Forwarded-For\<close>, is left out.
\<close>

definition director :: "request \<Rightarrow> request" where
  "director r = set_header ''X-Forwarded-Proto'' (Some ''http'') (set_header ''X-Forwarded-Host'' (Some []) r)"

lemma set_header_frame [simp]: "rq_url (set_header k v r) = rq_url r" "rq_method (set_header k v r) = rq_method r"
  "rq_body (set_header k v r) = rq_body r"
  by (simp_all add: set_header_def split: option.split)

lemma passed_on [simp]: "rq_url (director (forward_claims c r)) = rq_url r" "rq_method (director (forward_claims c r)) = rq_method r"
  "rq_body (director (forward_claims c r)) = rq_body r"
  by (simp_all add: director_def forward_claims_def Let_def)

definition gateway_health :: "'k gateway \<Rightarrow> gateway_reply" where
  "gateway_health g = (let redisOK = lm_up (gw_limiter g); keyOK = ks_lastErr (gw_keys g) = [] in
     HealthAnswer (if redisOK \<and> keyOK then 200 else 503) redisOK keyOK)"

definition url_path :: "string \<Rightarrow> string" where
  "url_path url = fst (cut_at (CHR ''?'') (fst (cut_at (CHR ''#'') url)))"

definition protected_backend :: "string \<Rightarrow> backend option" where
  "protected_backend path =
     (if startsWith path ''/api/v1/risk/'' \<or> startsWith path ''/api/v1/rules/'' then Some RiskBackend
      else if startsWith path ''/api/v1/analytics/'' then Some AnalyticsBackend else None)"

definition gateway_route :: "'k gateway_params \<Rightarrow> 'k gateway \<Rightarrow> request \<Rightarrow> gateway_reply" where
  "gateway_route P g r =
     (let path = url_path (rq_url r); get = (\<lambda>a. if rq_method r = ''GET'' then a else Answer \<lparr>rp_status = 405, rp_body = EmptyBody\<rparr>) in
      if path = ''/metrics'' then get MetricsAnswer
      else if path = ''/health'' then get (gateway_health g)
      else if startsWith path ''/api/v1/auth/'' then Proxy AuthBackend (director r)
      else case protected_backend path of None \<Rightarrow> Answer (http_error ''404 page not found'' 404)
      | Some b \<Rightarrow> (case verify_token P (gw_keys g) (lm_now (gw_limiter g)) r of
          Inl e \<Rightarrow> Answer e | Inr r' \<Rightarrow> Proxy b (director r')))"

text \<open>
  One request: \<open>RealIP\<close> rewrites the address before the limiter reads it. The window is a minute.
  \<open>url\<close> of the request is its target (path and query); the CORS handler is left out.
\<close>

definition minute :: int where
  "minute = 60000000000"

definition client_key :: "'k gateway_params \<Rightarrow> string \<Rightarrow> request \<Rightarrow> string" where
  "client_key P remoteAddr r = rate_key (gp_trustProxy P) (gp_real_ip P remoteAddr (rq_headers r)) (rq_headers r)"

definition gateway_serve :: "'k gateway_params \<Rightarrow> string \<Rightarrow> request \<Rightarrow> 'k gateway \<Rightarrow> gateway_reply \<times> 'k gateway" where
  "gateway_serve P remoteAddr r g =
     (case Allow (gp_limit P) minute (client_key P remoteAddr r) (gw_limiter g) of (allowed, ltr) \<Rightarrow>
        (let g = g\<lparr>gw_limiter := ltr\<rparr> in case allowed of
           None \<Rightarrow> (Answer (http_error ''rate limiting temporarily unavailable'' 503), g)
         | Some False \<Rightarrow> (Answer (http_error ''Too Many Requests'' 429), g)
         | Some True \<Rightarrow> (gateway_route P g r, g)))"

section \<open>What the backends can rely on\<close>

lemma verify_token_accepts:
  assumes "verify_token P ks now r = Inr r'"
  shows "\<exists>key token claims. ks_public ks = Some key \<and> go_fields (token_header r) = [''Bearer'', token]
    \<and> gp_jwt P key (gp_issuer P) (gp_audience P) now token = Some claims \<and> r' = forward_claims claims r"
  using assms by (auto simp: verify_token_def Let_def split: if_splits list.splits option.splits)

lemma gateway_route_backend:
  assumes "gateway_route P g r = Proxy b r'" "b \<noteq> AuthBackend"
  shows "\<exists>q. verify_token P (gw_keys g) (lm_now (gw_limiter g)) r = Inr q \<and> r' = director q
    \<and> protected_backend (url_path (rq_url r)) = Some b"
  using assms by (auto simp: gateway_route_def gateway_health_def Let_def split: if_splits option.splits sum.splits)

lemma gateway_serve_backend:
  assumes "fst (gateway_serve P addr r g) = Proxy b r'" "b \<noteq> AuthBackend"
  shows "\<exists>q. verify_token P (gw_keys g) (lm_now (gw_limiter g)) r = Inr q \<and> r' = director q
    \<and> protected_backend (url_path (rq_url r)) = Some b"
proof -
  obtain allowed ltr where a: "Allow (gp_limit P) minute (client_key P addr r) (gw_limiter g) = (allowed, ltr)" by fastforce
  then have "lm_now ltr = lm_now (gw_limiter g)" by (auto simp: Allow_def Let_def split: if_splits)
  moreover have "gateway_route P (g\<lparr>gw_limiter := ltr\<rparr>) r = Proxy b r'"
    using assms(1) a by (auto simp: gateway_serve_def Let_def split: option.splits bool.splits)
  ultimately show ?thesis using gateway_route_backend [OF _ assms(2)] by fastforce
qed

lemma forwarded_headers:
  "rq_headers (director (forward_claims c r)) ''X-User-Id'' = jc_sub c" "rq_headers (director (forward_claims c r)) ''X-User-Role'' = jc_role c"
  "rq_headers (director (forward_claims c r)) ''X-User-Email'' = jc_email c"
  "k \<notin> {''X-User-Id'', ''X-User-Role'', ''X-User-Email'', ''X-Forwarded-Host'', ''X-Forwarded-Proto''}
    \<Longrightarrow> rq_headers (director (forward_claims c r)) k = rq_headers r k"
  by (simp_all add: director_def forward_claims_def set_header_def Let_def split: option.splits)

text \<open>
  C4: what the risk engine and the analytics service are told about the caller is what the token says.
  A request reaches them only with a token that verifies under the gateway's current key, issuer,
  audience and time; its user, role and email headers are then the claims of that token, whatever
  headers of these names the client sent, and nothing else of the request but the proxy's two headers
  is changed.
\<close>

theorem backend_identity_verified:
  assumes "fst (gateway_serve P addr r g) = Proxy b r'" "b \<noteq> AuthBackend"
  shows "\<exists>key token claims. ks_public (gw_keys g) = Some key \<and> go_fields (token_header r) = [''Bearer'', token]
    \<and> gp_jwt P key (gp_issuer P) (gp_audience P) (lm_now (gw_limiter g)) token = Some claims
    \<and> rq_headers r' ''X-User-Id'' = jc_sub claims \<and> rq_headers r' ''X-User-Role'' = jc_role claims
    \<and> rq_headers r' ''X-User-Email'' = jc_email claims
    \<and> (\<forall>k. k \<notin> {''X-User-Id'', ''X-User-Role'', ''X-User-Email'', ''X-Forwarded-Host'', ''X-Forwarded-Proto''}
         \<longrightarrow> rq_headers r' k = rq_headers r k)
    \<and> rq_url r' = rq_url r \<and> rq_method r' = rq_method r \<and> rq_body r' = rq_body r"
proof -
  obtain q where q: "verify_token P (gw_keys g) (lm_now (gw_limiter g)) r = Inr q" "r' = director q"
    using gateway_serve_backend [OF assms] by blast
  obtain key token claims where "ks_public (gw_keys g) = Some key" "go_fields (token_header r) = [''Bearer'', token]"
    "gp_jwt P key (gp_issuer P) (gp_audience P) (lm_now (gw_limiter g)) token = Some claims" "q = forward_claims claims r"
    using verify_token_accepts [OF q(1)] by blast
  with q(2) show ?thesis
    by (intro exI [of _ key] exI [of _ token] exI [of _ claims]) (simp add: forwarded_headers)
qed

section \<open>The token in the address of the socket\<close>

lemma hex_of_digit: "d < 16 \<Longrightarrow> hex_of (hex_digit d) = Some d"
  by (auto simp: hex_of_def Let_def hex_digit_code)

lemma QueryUnescape_encode: "QueryUnescape (encodeURIComponent s) = Some s"
proof (induction s)
  case (Cons c s)
  have d: "char_code c div 16 < 16" "char_code c mod 16 < 16" using char_code_bound [of c] by auto
  have plus: "\<not> unreserved (CHR ''+'')" by code_simp
  have e: "encodeURIComponent (c # s) = encode_char c @ encodeURIComponent s" by (simp add: encodeURIComponent_def)
  show ?case
  proof (cases "unreserved c")
    case True
    then have "c \<noteq> CHR ''%''" "c \<noteq> CHR ''+''" using percent_reserved plus by auto
    with True Cons show ?thesis by (simp add: e encode_char_def)
  next
    case False
    have "char_of (16 * (char_code c div 16) + char_code c mod 16) = c" by (simp add: char_code_def)
    with False Cons show ?thesis by (simp add: e encode_char_def hex_of_digit [OF d(1)] hex_of_digit [OF d(2)])
  qed
qed (simp add: encodeURIComponent_def)

lemma encode_free: "\<not> unreserved c \<Longrightarrow> c \<noteq> CHR ''%'' \<Longrightarrow> c \<notin> set (encodeURIComponent s)"
proof (induction s)
  case (Cons x s)
  from Cons encode_char_cases [of x] show ?case by (cases "unreserved x") (auto simp: encodeURIComponent_def encode_char_def)
qed (simp add: encodeURIComponent_def)

lemma cut_at_free: "c \<notin> set s \<Longrightarrow> cut_at c s = (s, [])"
  unfolding cut_at_def by (induction s) auto

lemma cut_at_append: "c \<notin> set s \<Longrightarrow> cut_at c (s @ c # t) = (s, t)"
  unfolding cut_at_def by (induction s) auto

lemma query_get_encoded:
  assumes "CHR ''?'' \<notin> set base" "CHR ''#'' \<notin> set base"
  shows "query_get (base @ ''?access_token='' @ encodeURIComponent t) ''access_token'' = t"
proof -
  have res: "\<not> unreserved (CHR ''#'')" "\<not> unreserved (CHR ''&'')" "\<not> unreserved (CHR '';'')" by code_simp+
  note free = res [THEN encode_free, of t, simplified]
  let ?e = "encodeURIComponent t"
  have "CHR ''#'' \<notin> set (base @ ''?access_token='' @ ?e)" using assms free by auto
  then have "raw_query (base @ ''?access_token='' @ ?e) = ''access_token='' @ ?e"
    using cut_at_append [OF assms(1), of "''access_token='' @ ?e"] by (simp add: raw_query_def cut_at_free)
  moreover have "split_on (CHR ''&'') (''access_token='' @ ?e) = [''access_token='' @ ?e]"
    by (rule split_on_free) (use free in auto)
  moreover have "query_pair (''access_token='' @ ?e) = Some (''access_token'', t)"
  proof -
    have "cut_at (CHR ''='') (''access_token='' @ ?e) = (''access_token'', ?e)"
      using cut_at_append [of "CHR ''=''" "''access_token''" ?e] by simp
    moreover have "QueryUnescape ''access_token'' = Some ''access_token''" by simp
    moreover have "CHR '';'' \<notin> set (''access_token='' @ ?e)" "''access_token='' @ ?e \<noteq> []" using free by auto
    ultimately show ?thesis by (simp only: query_pair_def) (simp add: QueryUnescape_encode)
  qed
  ultimately show ?thesis by (simp only: query_get_def) (simp add: map_filter_simps)
qed

text \<open>
  C19: the access token travels in the address of the live socket and comes out of it unchanged: a
  browser that sends \<open>Connection: Upgrade\<close> is checked with exactly the stored token, as if it had sent
  it in a header. A browser that sends another value of the header, as Firefox does with
  \<open>keep-alive, Upgrade\<close>, is answered 401 whatever its token.
\<close>

theorem socket_token_roundtrip:
  assumes "fst (websocketURL ev w) = Inr (Some url)" "w_storage w access_key = Some token" "word_token token"
    and "CHR ''?'' \<notin> set (getAPIURL ev)" "CHR ''#'' \<notin> set (getAPIURL ev)"
    and "rq_url r = url" "header r ''Authorization'' = []" "toLowerCase (header r ''Upgrade'') = ''websocket''"
  shows "verify_token P ks now r =
    (if toLowerCase (header r ''Connection'') \<noteq> ''upgrade'' then Inl (http_error ''missing authorization header'' 401)
     else case ks_public ks of None \<Rightarrow> Inl (http_error ''auth key unavailable'' 503)
     | Some key \<Rightarrow> (case gp_jwt P key (gp_issuer P) (gp_audience P) now token of
         None \<Rightarrow> Inl (http_error ''invalid or expired token'' 401) | Some claims \<Rightarrow> Inr (forward_claims claims r)))"
proof -
  have t: "token \<noteq> []" using assms(3) by (simp add: word_token_def)
  define base where "base = ws_base (getAPIURL ev) @ ''/api/v1/analytics/ws''"
  have "url = base @ ''?access_token='' @ encodeURIComponent token"
    using assms(1,2) t by (auto simp: websocketURL_def readE_def truthy_def base_def split: if_splits)
  moreover have "CHR ''?'' \<notin> set base" "CHR ''#'' \<notin> set base"
    using assms(4,5) by (auto simp: base_def ws_base_def dest: in_set_dropD)
  ultimately have "query_get (rq_url r) ''access_token'' = token"
    using query_get_encoded [of base token] assms(6) by (simp only: not_False_eq_True simp_thms)
  then have "token_header r = (if toLowerCase (header r ''Connection'') = ''upgrade'' then ''Bearer '' @ token else [])"
    using assms(7,8) t by (simp add: token_header_def isWebSocketUpgrade_def Let_def)
  then show ?thesis using go_fields_bearer [OF assms(3)] by (simp add: verify_token_def Let_def)
qed

section \<open>Whose requests are counted\<close>

text \<open>A run of the gateway: requests one after the other.\<close>

definition gateway_run :: "'k gateway_params \<Rightarrow> string \<Rightarrow> request list \<Rightarrow> 'k gateway \<Rightarrow> 'k gateway" where
  "gateway_run P addr rs g = fold (\<lambda>r g. snd (gateway_serve P addr r g)) rs g"

lemma gateway_serve_limiter:
  "gw_limiter (snd (gateway_serve P addr r g)) = snd (Allow (gp_limit P) minute (client_key P addr r) (gw_limiter g))"
  "gw_keys (snd (gateway_serve P addr r g)) = gw_keys g"
  by (auto simp: gateway_serve_def Let_def split: prod.split option.split bool.split)

lemma gateway_run_limiter:
  "gw_limiter (gateway_run P addr rs g)
     = fold (limiter_step (gp_limit P) minute) (map (\<lambda>r. Attempt (client_key P addr r)) rs) (gw_limiter g)"
  by (induction rs arbitrary: g) (simp_all add: gateway_run_def gateway_serve_limiter)

lemma attempts_none: "key \<notin> set ks \<Longrightarrow> attempts key now up (map Attempt ks) = []"
  by (induction ks) auto

lemma limiter_up: "lm_up (fold (limiter_step limit window) (map Attempt ks) st) = lm_up st"
  by (induction ks arbitrary: st) (auto simp: Allow_def Let_def)

lemma first_attempt_allowed:
  assumes "0 < gp_limit P" "0 \<le> start" "client_key P addr r \<notin> client_key P addr ` set rs"
    and "gw_limiter g = fresh_limiter start"
  shows "fst (gateway_serve P addr r (gateway_run P addr rs g))
    = gateway_route P (snd (gateway_serve P addr r (gateway_run P addr rs g))) r"
proof -
  let ?ks = "map (client_key P addr) rs" and ?g = "gateway_run P addr rs g"
  have l: "gw_limiter ?g = fold (limiter_step (gp_limit P) minute) (map Attempt ?ks) (fresh_limiter start)"
    using assms(4) by (simp add: gateway_run_limiter comp_def)
  have "lm_up (gw_limiter ?g)" unfolding l limiter_up by (simp add: fresh_limiter_def)
  moreover have "attempts (client_key P addr r) start True (map Attempt ?ks) = []"
    using assms(3) by (intro attempts_none) auto
  moreover have "0 < minute" by (simp add: minute_def)
  ultimately have "fst (Allow (gp_limit P) minute (client_key P addr r) (gw_limiter ?g)) = Some True"
    using assms(1) Allow_exact [of minute start "gp_limit P" "client_key P addr r" "map Attempt ?ks"] assms(2)
    unfolding l by simp
  then show ?thesis by (auto simp: gateway_serve_def Let_def split: prod.split)
qed

text \<open>
  The IPv4 addresses that \<open>net.ParseIP\<close> accepts: four decimal numbers up to 255 without leading zeros.
  \<open>chi/middleware.RealIP\<close> (v5.0.12) takes the first of \<open>True-Client-IP\<close>, \<open>X-Real-IP\<close> and
  \<open>X-Forwarded-For\<close> that is set, and keeps the address of the connection unless \<open>net.ParseIP\<close> accepts
  what it took.
\<close>

definition dotted_quad :: "string \<Rightarrow> bool" where
  "dotted_quad s \<longleftrightarrow> (let fields = split_on (CHR ''.'') s in
     length fields = 4 \<and> list_all (\<lambda>f. f \<in> set (map dec [0..<256])) fields)"

definition real_ip_ok :: "'k gateway_params \<Rightarrow> bool" where
  "real_ip_ok P \<longleftrightarrow> (\<forall>addr h ip. h ''True-Client-Ip'' = None \<and> h ''X-Real-Ip'' = Some ip \<and> dotted_quad ip
     \<longrightarrow> gp_real_ip P addr h = ip)"

lemma split_on_chars: "x \<in> set s \<Longrightarrow> x \<noteq> c \<Longrightarrow> \<exists>p \<in> set (split_on c s). x \<in> set p"
  by (induction s) (auto split: list.splits if_splits)

lemma dotted_quad_plain:
  assumes "dotted_quad ip"
  shows "ip \<noteq> [] \<and> CHR '':'' \<notin> set ip"
proof
  show "ip \<noteq> []" using assms by (auto simp: dotted_quad_def)
  show "CHR '':'' \<notin> set ip"
  proof
    assume "CHR '':'' \<in> set ip"
    then obtain f where "f \<in> set (split_on (CHR ''.'') ip)" "CHR '':'' \<in> set f"
      using split_on_chars [of "CHR '':''" ip "CHR ''.''"] by auto
    with assms dec_no_colon show False by (auto simp: dotted_quad_def Let_def list_all_iff)
  qed
qed

definition claims_address :: "string \<Rightarrow> request \<Rightarrow> bool" where
  "claims_address ip r \<longleftrightarrow> rq_headers r ''True-Client-Ip'' = None \<and> rq_headers r ''X-Real-Ip'' = Some ip"

lemma client_key_claimed:
  assumes "real_ip_ok P" "\<not> gp_trustProxy P" "claims_address ip r" "dotted_quad ip"
  shows "client_key P addr r = ip"
proof -
  have "gp_real_ip P addr (rq_headers r) = ip" using assms unfolding real_ip_ok_def claims_address_def by blast
  with assms(2) dotted_quad_plain [OF assms(4)] show ?thesis by (simp add: client_key_def rate_key_def SplitHost_def Let_def)
qed

text \<open>
  C18: the rate limit binds only clients that let it. Even with \<open>TRUST_PROXY\<close> off, a client that puts
  a new IPv4 address into \<open>X-Real-IP\<close> of every request is never limited: whatever it sent before, under
  other addresses, each of its requests is routed.
\<close>

theorem forged_address_evades_limit:
  assumes "real_ip_ok P" "\<not> gp_trustProxy P" "0 < gp_limit P" "0 \<le> start" "gw_limiter g = fresh_limiter start"
    and "distinct ips" "\<forall>ip \<in> set ips. dotted_quad ip" "list_all2 claims_address ips rs"
    and i: "i < length rs"
  shows "fst (gateway_serve P addr (rs ! i) (gateway_run P addr (take i rs) g))
    = gateway_route P (gateway_run P addr (take (i + 1) rs) g) (rs ! i)"
proof -
  have len: "length ips = length rs" using assms(8) by (rule list_all2_lengthD)
  have key: "client_key P addr (rs ! j) = ips ! j" if "j < length rs" for j
    using client_key_claimed [OF assms(1,2)] assms(7,8) that len by (simp add: list_all2_nthD2 [OF assms(8)])
  have "client_key P addr (rs ! i) \<noteq> client_key P addr (rs ! j)" if "j < i" for j
    using key [OF i] key [of j] that i assms(6) len by (simp add: nth_eq_iff_index_eq)
  then have "client_key P addr (rs ! i) \<notin> client_key P addr ` set (take i rs)"
    using i by (auto simp: in_set_conv_nth) metis
  from first_attempt_allowed [OF assms(3,4) this assms(5)] i show ?thesis
    by (simp add: gateway_run_def take_Suc_conv_app_nth)
qed

text \<open>A gateway that takes the tokens \<open>abc\<close> of Ann and \<open>adm\<close> of an administrator, with a limit of one request a minute.\<close>

definition sample_gateway :: "string gateway_params" where
  "sample_gateway = \<lparr>gp_decode_pem = (\<lambda>b. if b = [] then None else Some b), gp_pkix = (\<lambda>b. Inr (Some b)),
     gp_jwt = (\<lambda>k iss aud now t. if t = ''abc'' then Some \<lparr>jc_sub = Some ''u1'', jc_role = Some ''viewer'', jc_email = Some ''ann@example.org''\<rparr>
       else if t = ''adm'' then Some \<lparr>jc_sub = Some ''u0'', jc_role = Some ''admin'', jc_email = Some ''root@example.org''\<rparr> else None),
     gp_real_ip = (\<lambda>addr h. let tcip = default (h ''True-Client-Ip'') []; xrip = default (h ''X-Real-Ip'') [];
         xff = default (h ''X-Forwarded-For'') []; ip = (if tcip \<noteq> [] then tcip else if xrip \<noteq> [] then xrip else fst (cut_at (CHR '','') xff))
       in if dotted_quad ip then ip else addr),
     gp_issuer = ''sentinel-auth-service'', gp_audience = ''sentinel-api'', gp_limit = 1, gp_trustProxy = False\<rparr>"

lemma sample_real_ip: "real_ip_ok sample_gateway"
  by (auto simp: real_ip_ok_def sample_gateway_def default_def dest: dotted_quad_plain)

definition sample_get :: "string \<Rightarrow> (string \<rightharpoonup> string) \<Rightarrow> request" where
  "sample_get url hs = \<lparr>rq_url = url, rq_method = ''GET'', rq_headers = hs, rq_body = NoBody\<rparr>"

theorem forged_address_evades_limit_witness:
  "\<exists>g'. fst (gateway_serve sample_gateway ''9.9.9.9:1234'' (sample_get ''/health'' [''X-Real-Ip'' \<mapsto> ''2.2.2.2''])
     (gateway_run sample_gateway ''9.9.9.9:1234'' [sample_get ''/health'' [''X-Real-Ip'' \<mapsto> ''1.1.1.1'']]
       \<lparr>gw_limiter = fresh_limiter 0, gw_keys = NewAuthMiddleware None\<rparr>))
    = gateway_route sample_gateway g' (sample_get ''/health'' [''X-Real-Ip'' \<mapsto> ''2.2.2.2''])"
proof -
  let ?rs = "[sample_get ''/health'' [''X-Real-Ip'' \<mapsto> ''1.1.1.1''], sample_get ''/health'' [''X-Real-Ip'' \<mapsto> ''2.2.2.2'']]"
  let ?g = "\<lparr>gw_limiter = fresh_limiter 0, gw_keys = NewAuthMiddleware None\<rparr> :: string gateway"
  have "dec 1 = ''1''" "dec 2 = ''2''" by code_simp+
  moreover have "dec 1 \<in> dec ` {0..<256}" "dec 2 \<in> dec ` {0..<256}" by (rule imageI, simp)+
  ultimately have "''1'' \<in> dec ` {0..<256}" "''2'' \<in> dec ` {0..<256}" by simp_all
  then have quads: "dotted_quad ''1.1.1.1''" "dotted_quad ''2.2.2.2''" by (simp_all add: dotted_quad_def)
  have *: "list_all2 claims_address [''1.1.1.1'', ''2.2.2.2''] ?rs" by (simp add: claims_address_def sample_get_def)
  have "\<not> gp_trustProxy sample_gateway" "0 < gp_limit sample_gateway" by (simp_all add: sample_gateway_def)
  from forged_address_evades_limit [OF sample_real_ip this order.refl _ _ _ *, of ?g 1 "''9.9.9.9:1234''"] quads
  have "fst (gateway_serve sample_gateway ''9.9.9.9:1234'' (?rs ! 1) (gateway_run sample_gateway ''9.9.9.9:1234'' (take 1 ?rs) ?g))
    = gateway_route sample_gateway (gateway_run sample_gateway ''9.9.9.9:1234'' (take (1 + 1) ?rs) ?g) (?rs ! 1)"
    by simp
  moreover have "?rs ! 1 = sample_get ''/health'' [''X-Real-Ip'' \<mapsto> ''2.2.2.2'']"
    "take 1 ?rs = [sample_get ''/health'' [''X-Real-Ip'' \<mapsto> ''1.1.1.1'']]" by simp_all
  ultimately show ?thesis by metis
qed

theorem backend_identity_verified_witness:
  "\<exists>r'. fst (gateway_serve sample_gateway ''9.9.9.9:1234'' (sample_get ''/api/v1/rules/''
        [''Authorization'' \<mapsto> ''Bearer abc'', ''X-User-Role'' \<mapsto> ''admin'']) \<lparr>gw_limiter = fresh_limiter 0, gw_keys = NewAuthMiddleware (Some ''K'')\<rparr>)
      = Proxy RiskBackend r' \<and> rq_headers r' ''X-User-Role'' = Some ''viewer''"
proof -
  let ?r = "sample_get ''/api/v1/rules/'' [''Authorization'' \<mapsto> ''Bearer abc'', ''X-User-Role'' \<mapsto> ''admin'']"
  let ?g = "\<lparr>gw_limiter = fresh_limiter 0, gw_keys = NewAuthMiddleware (Some ''K'')\<rparr> :: string gateway"
  let ?serve = "gateway_serve sample_gateway ''9.9.9.9:1234'' ?r ?g"
  have t: "token_header ?r = ''Bearer abc''" by (simp add: token_header_def header_def sample_get_def Let_def)
  have f: "go_fields ''Bearer abc'' = [''Bearer'', ''abc'']" by code_simp
  have jwt: "gp_jwt sample_gateway k iss aud now ''abc'' = Some \<lparr>jc_sub = Some ''u1'', jc_role = Some ''viewer'', jc_email = Some ''ann@example.org''\<rparr>" for k iss aud now
    by (simp add: sample_gateway_def)
  have path: "url_path (rq_url ?r) = ''/api/v1/rules/''" by (simp add: sample_get_def url_path_def cut_at_def)
  have p: "startsWith ''/api/v1/rules/'' ''/api/v1/auth/'' = False" "protected_backend ''/api/v1/rules/'' = Some RiskBackend" by code_simp+
  have "fst ?serve = gateway_route sample_gateway (snd ?serve) ?r"
    using first_attempt_allowed [of sample_gateway 0 "''9.9.9.9:1234''" ?r "[]" ?g]
    by (simp add: sample_gateway_def gateway_run_def)
  also have "\<dots> = Proxy RiskBackend (director (forward_claims \<lparr>jc_sub = Some ''u1'', jc_role = Some ''viewer'', jc_email = Some ''ann@example.org''\<rparr> ?r))"
    using path p by (simp add: gateway_route_def gateway_serve_limiter verify_token_def t f jwt NewAuthMiddleware_def Let_def)
  finally have s: "fst ?serve = Proxy RiskBackend (director (forward_claims \<lparr>jc_sub = Some ''u1'', jc_role = Some ''viewer'', jc_email = Some ''ann@example.org''\<rparr> ?r))" .
  from backend_identity_verified [OF s] have "rq_headers (director (forward_claims \<lparr>jc_sub = Some ''u1'', jc_role = Some ''viewer'', jc_email = Some ''ann@example.org''\<rparr> ?r)) ''X-User-Role'' = Some ''viewer''"
    by (auto simp: t f jwt)
  with s show ?thesis by blast
qed

theorem socket_token_roundtrip_witness:
  "verify_token sample_gateway (NewAuthMiddleware (Some ''K'')) 0 \<lparr>rq_url = ''ws://localhost:8080/api/v1/analytics/ws?access_token=abc'',
      rq_method = ''GET'', rq_headers = [''Connection'' \<mapsto> ''keep-alive, Upgrade'', ''Upgrade'' \<mapsto> ''websocket''], rq_body = NoBody\<rparr>
    = Inl (http_error ''missing authorization header'' 401)"
proof -
  let ?w = "blank_world\<lparr>w_storage := [access_key \<mapsto> ''abc'']\<rparr>"
  let ?url = "''ws://localhost:8080/api/v1/analytics/ws?access_token=abc''"
  let ?r = "\<lparr>rq_url = ?url, rq_method = ''GET'',
    rq_headers = [''Connection'' \<mapsto> ''keep-alive, Upgrade'', ''Upgrade'' \<mapsto> ''websocket''], rq_body = NoBody\<rparr>"
  have api: "getAPIURL local_env = ''http://localhost:8080''" by code_simp
  have enc: "encodeURIComponent ''abc'' = ''abc''" by code_simp
  have 1: "fst (websocketURL local_env ?w) = Inr (Some ?url)"
    by (simp add: websocketURL_def readE_def api enc ws_base_def startsWith_def) (simp add: local_env_def)
  have 2: "word_token ''abc''" by (simp add: word_token_def go_space_def char_code_def)
  have 3: "CHR ''?'' \<notin> set (getAPIURL local_env)" "CHR ''#'' \<notin> set (getAPIURL local_env)" by (simp_all add: api)
  have low: "toLowerCase ''websocket'' = ''websocket''" "toLowerCase ''keep-alive, Upgrade'' \<noteq> ''upgrade''" by code_simp+
  from socket_token_roundtrip [OF 1 _ 2 3, of ?r sample_gateway "NewAuthMiddleware (Some ''K'')" 0] show ?thesis
    by (simp add: header_def low)
qed

section \<open>Outages of the auth service\<close>

text \<open>
  A gateway that started keeps a key. It starts after at most thirty tries, with the key of the
  auth service; from then on, whatever the answers to its polls, requests are checked with the last key
  that was received and parsed, so an outage of the auth service never takes the key away, and a new
  key is in use as soon as one poll has delivered it.
\<close>

lemma gateway_keeps_key:
  fixes fs
  assumes "FetchPublicKey P 0 answers = (Inr k, n)"
  defines "ks \<equiv> fold (poll_key P) fs (NewAuthMiddleware (Some k))"
  shows "n \<le> 30 \<and> (\<exists>b. answers (n - 1) = Pem b \<and> ParsePEMPublicKey P b = Inr k)
    \<and> ks_public ks = Some (last (k # polled_keys P fs))
    \<and> verify_token P ks now r \<noteq> Inl (http_error ''auth key unavailable'' 503)"
proof -
  have key: "ks_public ks = Some (last (k # polled_keys P fs))"
    unfolding ks_def by (rule poll_key_run) (simp_all add: NewAuthMiddleware_def)
  moreover have "verify_token P ks now r \<noteq> Inl (http_error ''auth key unavailable'' 503)"
    unfolding verify_token_def Let_def key
    by (auto simp: http_error_def split: list.split option.split)
  ultimately show ?thesis using FetchPublicKey_outcome [OF _ assms(1)] by auto
qed

lemma gateway_keeps_key_witness:
  "ks_public (fold (poll_key sample_gateway) [Unreachable ''EOF'', Pem ''K2'', BadStatus 500] (NewAuthMiddleware (Some ''K1''))) = Some ''K2''"
proof -
  have "FetchPublicKey sample_gateway 0 (\<lambda>i. if i < 2 then BadStatus 503 else Pem ''K1'') = (Inr ''K1'', 3)"
    by (simp add: FetchPublicKey.simps ParsePEMPublicKey_def sample_gateway_def)
  from gateway_keeps_key [OF this, of "[Unreachable ''EOF'', Pem ''K2'', BadStatus 500]"] show ?thesis
    by (simp add: polled_keys_def map_filter_simps ParsePEMPublicKey_def sample_gateway_def)
qed

end
