(* ===== verification/Analytics_Service.thy ===== *)
theory Analytics_Service
  imports Analytics_Page Tokens
begin

text \<open>
  The analytics service: what its consumers make of a message (\<open>internal/kafka/consumer.go\<close>,
  \<open>internal/models/event.go\<close>), the batch engine in front of the table
  (\<open>internal/batch/engine.go\<close>), the queries (\<open>internal/repository\<close>) and the HTTP API
  (\<open>internal/api/server.go\<close>), with the two shapes its JSON has for a list.

  Decoding JSON (by Go and by ClickHouse), UUIDs, the 32-bit float of the score column and its quantiles
  are the fields of \<open>analytics_params\<close>. Groups with equal counts keep the order of their first rows;
  rows are not aged out. Times are milliseconds, a zero \<open>time.Time\<close> is \<open>None\<close>.
\<close>

section \<open>Events\<close>

record go_event =
  ge_ID :: string
  ge_EventID :: string
  ge_DecisionID :: string
  ge_SessionID :: string
  ge_UserID :: string
  ge_EventType :: string
  ge_Producer :: string
  ge_Payload :: string
  ge_IPAddress :: string
  ge_UserAgent :: string
  ge_RequestID :: string
  ge_Action :: string
  ge_Timestamp :: "int option"
  ge_OccurredAt :: "int option"
  ge_RiskScore :: rat
  ge_FinalScore :: rat
  ge_Country :: string
  ge_CountryCode :: string
  ge_Lat :: rat
  ge_Lon :: rat

record geo_fields =
  gf_country :: string
  gf_code :: string
  gf_lat :: rat
  gf_lon :: rat

record analytics_params =
  an_unmarshal :: "string \<Rightarrow> go_event option"
  an_geo :: "string \<Rightarrow> geo_fields option"
  an_json_string :: "string \<Rightarrow> string \<Rightarrow> string"
  an_json_float :: "string \<Rightarrow> string \<Rightarrow> rat"
  an_uuid :: "nat \<Rightarrow> string"
  an_float32 :: "rat \<Rightarrow> rat"
  an_quantiles :: "rat list \<Rightarrow> rat list"

text \<open>With the number of the next UUID.\<close>

definition Normalize :: "analytics_params \<Rightarrow> int \<Rightarrow> nat \<Rightarrow> go_event \<Rightarrow> go_event \<times> nat" where
  "Normalize P now n e =
     (let e1 = (if ge_ID e = [] then e\<lparr>ge_ID := ge_EventID e\<rparr> else e);
          (e2, n2) = (if ge_ID e1 = [] then (e1\<lparr>ge_ID := an_uuid P n\<rparr>, n + 1) else (e1, n));
          e3 = (if ge_Timestamp e2 = None then e2\<lparr>ge_Timestamp := ge_OccurredAt e2\<rparr> else e2);
          e4 = (if ge_Timestamp e3 = None then e3\<lparr>ge_Timestamp := Some now\<rparr> else e3);
          e5 = (if ge_EventID e4 = [] then e4\<lparr>ge_EventID := ge_ID e4\<rparr> else e4) in (e5, n2))"

definition extractGeo :: "analytics_params \<Rightarrow> go_event \<Rightarrow> go_event" where
  "extractGeo P e = (if ge_Payload e = [] then e else case an_geo P (ge_Payload e) of None \<Rightarrow> e
     | Some g \<Rightarrow> let e = e\<lparr>ge_Country := gf_country g, ge_CountryCode := gf_code g\<rparr> in
         if gf_lat g \<noteq> 0 \<or> gf_lon g \<noteq> 0 then e\<lparr>ge_Lat := gf_lat g, ge_Lon := gf_lon g\<rparr> else e)"

text \<open>What a consumer hands to the engine for a message.\<close>

definition consumed_event :: "analytics_params \<Rightarrow> int \<Rightarrow> nat \<Rightarrow> string \<Rightarrow> (go_event \<times> nat) option" where
  "consumed_event P now n raw = (case an_unmarshal P raw of None \<Rightarrow> None
     | Some event \<Rightarrow>
        (let event = event\<lparr>ge_Payload := raw\<rparr>;
             event = (if ge_EventID event = [] then event\<lparr>ge_EventID := ge_DecisionID event\<rparr> else event);
             event = (if ge_RiskScore event = 0 then event\<lparr>ge_RiskScore := ge_FinalScore event\<rparr> else event) in
         Some (Normalize P now n (extractGeo P event))))"

text \<open>The row of an event: the columns of the table; and the event a row is read as.\<close>

definition row_of :: "analytics_params \<Rightarrow> go_event \<Rightarrow> go_event" where
  "row_of P e = e\<lparr>ge_DecisionID := [], ge_OccurredAt := None, ge_FinalScore := 0, ge_Country := [], ge_CountryCode := [],
     ge_Lat := 0, ge_Lon := 0, ge_RiskScore := an_float32 P (ge_RiskScore e),
     ge_Timestamp := map_option (\<lambda>t. t - t mod 1000) (ge_Timestamp e)\<rparr>"

definition read_row :: "analytics_params \<Rightarrow> go_event \<Rightarrow> go_event" where
  "read_row P r = r\<lparr>ge_Country := an_json_string P (ge_Payload r) ''country'', ge_CountryCode := an_json_string P (ge_Payload r) ''country_code'',
     ge_Lat := an_json_float P (ge_Payload r) ''lat'', ge_Lon := an_json_float P (ge_Payload r) ''lon''\<rparr>"

text \<open>The JSON of an event as the dashboard reads it; \<open>omitempty\<close> drops empty strings and zeros.\<close>

definition omit :: "string \<Rightarrow> string option" where
  "omit s = (if s = [] then None else Some s)"

definition omit_zero :: "rat \<Rightarrow> rat option" where
  "omit_zero x = (if x = 0 then None else Some x)"

definition to_json :: "go_event \<Rightarrow> analytics_event" where
  "to_json e = \<lparr>ev_id = Some (ge_ID e), ev_event_id = omit (ge_EventID e), ev_type = ge_EventType e, ev_user_id = Some (ge_UserID e),
     ev_ip = Some (ge_IPAddress e),
     ev_timestamp = (case ge_Timestamp e of Some t \<Rightarrow> Iso t | None \<Rightarrow> Unparsable ''0001-01-01T00:00:00Z''),
     ev_action = omit (ge_Action e), ev_score = omit_zero (ge_RiskScore e), ev_country_code = omit (ge_CountryCode e),
     ev_country = omit (ge_Country e), ev_lat = omit_zero (ge_Lat e), ev_lon = omit_zero (ge_Lon e)\<rparr>"

lemma Normalize_complete:
  "ge_ID (fst (Normalize P now n e)) = (if ge_ID e \<noteq> [] then ge_ID e else if ge_EventID e \<noteq> [] then ge_EventID e else an_uuid P n)
   \<and> (an_uuid P n \<noteq> [] \<longrightarrow> ge_EventID (fst (Normalize P now n e)) \<noteq> []) \<and> ge_Timestamp (fst (Normalize P now n e)) \<noteq> None"
  by (auto simp: Normalize_def Let_def)

section \<open>The batch engine\<close>

text \<open>
  The worker's batch with the callers that wait for it, the callers answered so far, the table and the
  live stream. A flush tries to insert three times; \<open>ups\<close> says which tries the table would take.
\<close>

record engine =
  en_batch :: "(nat \<times> go_event) list"
  en_answers :: "(nat \<times> bool) list"
  en_rows :: "go_event list"
  en_live :: "(nat \<times> go_event) list"

definition insert_tries :: "(nat \<Rightarrow> bool) \<Rightarrow> bool" where
  "insert_tries ups = list_ex ups [0, 1, 2]"

definition flush :: "analytics_params \<Rightarrow> (nat \<Rightarrow> bool) \<Rightarrow> engine \<Rightarrow> engine" where
  "flush P ups en =
     (if en_batch en = [] then en
      else if insert_tries ups
      then en\<lparr>en_rows := en_rows en @ map (row_of P \<circ> snd) (en_batch en), en_answers := en_answers en @ map (\<lambda>(c, e). (c, True)) (en_batch en),
             en_live := en_live en @ en_batch en, en_batch := []\<rparr>
      else en\<lparr>en_answers := en_answers en @ map (\<lambda>(c, e). (c, False)) (en_batch en), en_batch := []\<rparr>)"

definition accept :: "analytics_params \<Rightarrow> nat \<Rightarrow> (nat \<Rightarrow> bool) \<Rightarrow> nat \<Rightarrow> go_event \<Rightarrow> engine \<Rightarrow> engine" where
  "accept P batchSize ups c e en = (let en = en\<lparr>en_batch := en_batch en @ [(c, e)]\<rparr> in
     if batchSize \<le> length (en_batch en) then flush P ups en else en)"

datatype engine_input = Item nat go_event "nat \<Rightarrow> bool" | FlushTick "nat \<Rightarrow> bool"

fun engine_step :: "analytics_params \<Rightarrow> nat \<Rightarrow> engine_input \<Rightarrow> engine \<Rightarrow> engine" where
  "engine_step P batchSize (Item c e ups) en = accept P batchSize ups c e en"
| "engine_step P batchSize (FlushTick ups) en = flush P ups en"

fun items_of :: "engine_input list \<Rightarrow> (nat \<times> go_event) list" where
  "items_of [] = []"
| "items_of (Item c e ups # is) = (c, e) # items_of is"
| "items_of (FlushTick ups # is) = items_of is"

definition engine_init :: "go_event list \<Rightarrow> engine" where
  "engine_init rows = \<lparr>en_batch = [], en_answers = [], en_rows = rows, en_live = []\<rparr>"

definition engine_ok :: "analytics_params \<Rightarrow> nat \<Rightarrow> go_event list \<Rightarrow> engine \<Rightarrow> bool" where
  "engine_ok P batchSize rows en \<longleftrightarrow> length (en_batch en) < batchSize
     \<and> en_rows en = rows @ map (row_of P \<circ> snd) (en_live en)
     \<and> map fst (filter snd (en_answers en)) = map fst (en_live en)"

lemma flush_ok: "engine_ok P k rows en \<Longrightarrow> engine_ok P k rows (flush P ups en)"
  by (auto simp: engine_ok_def flush_def filter_map comp_def split_def)

interpretation engine: machine "engine_step P (Suc k)" "engine_ok P (Suc k) rows" for P k rows
proof
  fix en i
  assume ok: "engine_ok P (Suc k) rows en"
  show "engine_ok P (Suc k) rows (engine_step P (Suc k) i en)"
  proof (cases i)
    case (Item c e ups)
    show ?thesis
    proof (cases "Suc k \<le> length (en_batch en) + 1")
      case True
      then show ?thesis using ok Item
        by (auto simp: engine_ok_def accept_def flush_def filter_map comp_def split_def Let_def)
    qed (use ok Item in \<open>simp add: engine_ok_def accept_def Let_def\<close>)
  qed (use ok flush_ok in simp)
qed

lemma engine_complete:
  "mset (map fst (items_of is)) + mset (map fst (en_batch en)) + mset (map fst (en_answers en))
   = mset (map fst (en_batch (fold (engine_step P k) is en))) + mset (map fst (en_answers (fold (engine_step P k) is en)))"
proof (induction "is" arbitrary: en)
  case (Cons i "is")
  have flush: "mset (map fst (en_batch (flush P ups en))) + mset (map fst (en_answers (flush P ups en)))
      = mset (map fst (en_batch en)) + mset (map fst (en_answers en))" for ups en
    by (auto simp: flush_def image_mset.compositionality comp_def split_def)
  have "mset (map fst (en_batch (engine_step P k i en))) + mset (map fst (en_answers (engine_step P k i en)))
      = mset (map fst (items_of [i])) + mset (map fst (en_batch en)) + mset (map fst (en_answers en))"
    by (cases i) (auto simp: accept_def Let_def flush [simplified])
  with Cons.IH [of "engine_step P k i en"] show ?case by (cases i) (simp_all add: ac_simps)
qed simp

text \<open>
  C23: what the dashboard sees live is stored, and the caller is told so. In every run of the engine,
  whichever inserts fail, the table is the initial one followed by the broadcast events in their order;
  the callers answered without an error are exactly those of the broadcast events; every event handed
  over is waiting or was answered once; and a batch never holds a full batch size.
\<close>

theorem live_is_stored:
  fixes P rows "is" k
  defines "en \<equiv> fold (engine_step P (Suc k)) is (engine_init rows)"
  shows "en_rows en = rows @ map (row_of P \<circ> snd) (en_live en)
    \<and> map fst (filter snd (en_answers en)) = map fst (en_live en)
    \<and> mset (map fst (items_of is)) = mset (map fst (en_batch en)) + mset (map fst (en_answers en))
    \<and> length (en_batch en) \<le> k"
proof -
  have "engine_ok P (Suc k) rows en"
    unfolding en_def by (rule engine.run) (simp add: engine_ok_def engine_init_def)
  moreover have "mset (map fst (items_of is)) = mset (map fst (en_batch en)) + mset (map fst (en_answers en))"
    using engine_complete [of "is" "engine_init rows" P "Suc k"] by (simp add: en_def engine_init_def)
  ultimately show ?thesis by (simp add: engine_ok_def)
qed

section \<open>Queries\<close>

record analytics_state =
  as_rows :: "go_event list"
  as_up :: bool
  as_time :: int

definition row_time :: "go_event \<Rightarrow> int" where
  "row_time r = default (ge_Timestamp r) 0"

definition last_day :: "analytics_state \<Rightarrow> go_event list" where
  "last_day st = filter (\<lambda>r. as_time st - 86400000 \<le> row_time r) (as_rows st)"

definition risky :: "go_event \<Rightarrow> bool" where
  "risky r \<longleftrightarrow> 60 \<le> ge_RiskScore r"

definition GetOverview :: "analytics_state \<Rightarrow> overview" where
  "GetOverview st = (let total = length (last_day st); fraud = length (filter risky (last_day st)) in
     \<lparr>ov_total_events = int total, ov_fraud_events = int fraud,
      ov_fraud_rate = (if 0 < total then fl (fl (of_nat fraud / of_nat total) * 100) else 0)\<rparr>)"

definition hour_of_row :: "go_event \<Rightarrow> int" where
  "hour_of_row r = row_time r - row_time r mod 3600000"

definition GetFraudRate :: "analytics_state \<Rightarrow> rate_point list" where
  "GetFraudRate st = map (\<lambda>h. let rows = filter (\<lambda>r. hour_of_row r = h) (last_day st) in
     \<lparr>rp_bucket = Iso h, rp_total = int (length rows), rp_fraud = int (length (filter risky rows))\<rparr>)
     (sort (remdups (map hour_of_row (last_day st))))"

definition group_count :: "(go_event \<Rightarrow> string) \<Rightarrow> go_event list \<Rightarrow> (string \<times> nat) list" where
  "group_count f rows = foldl (\<lambda>cs r. bump (f r) cs) [] rows"

definition most_frequent :: "nat \<Rightarrow> (string \<times> nat) list \<Rightarrow> (string \<times> int) list" where
  "most_frequent n cs = map (\<lambda>(k, c). (k, int c)) (take n (sort_key (\<lambda>(k, c). - int c) cs))"

definition GetTopThreats :: "analytics_state \<Rightarrow> (string \<times> int) list" where
  "GetTopThreats st = most_frequent 10 (group_count ge_IPAddress (filter risky (as_rows st)))"

definition row_country :: "analytics_params \<Rightarrow> go_event \<Rightarrow> string" where
  "row_country P r = an_json_string P (ge_Payload r) ''country''"

definition GetGeo :: "analytics_params \<Rightarrow> analytics_state \<Rightarrow> (string \<times> int) list" where
  "GetGeo P st = most_frequent 20 (group_count (row_country P) (filter (\<lambda>r. row_country P r \<noteq> []) (as_rows st)))"

definition GetLatency :: "analytics_params \<Rightarrow> analytics_state \<Rightarrow> rat \<times> rat \<times> rat" where
  "GetLatency P st = (case an_quantiles P (map (\<lambda>r. an_json_float P (ge_Payload r) ''latency'') (last_day st)) of
     [p50, p90, p99] \<Rightarrow> (p50, p90, p99) | _ \<Rightarrow> (0, 0, 0))"

definition GetEvents :: "analytics_params \<Rightarrow> nat \<Rightarrow> nat \<Rightarrow> analytics_state \<Rightarrow> go_event list" where
  "GetEvents P limit offset st = map (read_row P) (take limit (drop offset (sort_key (\<lambda>r. - row_time r) (as_rows st))))"

section \<open>The API\<close>

text \<open>
  A slice that no row was appended to is nil, which JSON renders as \<open>null\<close>.
\<close>

definition json_slice :: "'a list \<Rightarrow> 'a list option" where
  "json_slice xs = (if xs = [] then None else Some xs)"

datatype analytics_body = OverviewJson overview | RateJson "rate_point list option" | CountsJson "(string \<times> int) list option"
  | LatencyJson "rat \<times> rat \<times> rat" | EventsJson "analytics_event list option" | ErrorJson string | StatusJson bool | Upgrade

record analytics_reply =
  ar_status :: nat
  ar_body :: analytics_body

definition Atoi :: "string \<Rightarrow> int option" where
  "Atoi s = (let neg = (s \<noteq> [] \<and> hd s = CHR ''-''); ds = (if s \<noteq> [] \<and> (hd s = CHR ''-'' \<or> hd s = CHR ''+'') then tl s else s);
        v = (if neg then - int (undec ds) else int (undec ds)) in
     if ds \<noteq> [] \<and> list_all (\<lambda>c. 48 \<le> char_code c \<and> char_code c \<le> 57) ds \<and> - (2 ^ 63) \<le> v \<and> v < 2 ^ 63 then Some v else None)"

definition handleEvents :: "analytics_params \<Rightarrow> string \<Rightarrow> string \<Rightarrow> analytics_state \<Rightarrow> analytics_reply" where
  "handleEvents P limitStr offsetStr st =
     (let limitStr = (if limitStr = [] then ''50'' else limitStr); offsetStr = (if offsetStr = [] then ''0'' else offsetStr);
          bad_limit = \<lparr>ar_status = 400, ar_body = ErrorJson ''limit must be between 1 and 500''\<rparr>;
          bad_offset = \<lparr>ar_status = 400, ar_body = ErrorJson ''offset must be non-negative''\<rparr> in
      case Atoi limitStr of None \<Rightarrow> bad_limit
      | Some limit \<Rightarrow> if limit < 1 \<or> 500 < limit then bad_limit
          else (case Atoi offsetStr of None \<Rightarrow> bad_offset
            | Some offset \<Rightarrow> if offset < 0 then bad_offset
                else if \<not> as_up st then \<lparr>ar_status = 500, ar_body = ErrorJson ''clickhouse''\<rparr>
                else \<lparr>ar_status = 200, ar_body = EventsJson (json_slice (map to_json (GetEvents P (nat limit) (nat offset) st)))\<rparr>))"

definition answer_with :: "analytics_body \<Rightarrow> analytics_state \<Rightarrow> analytics_reply" where
  "answer_with b st = (if as_up st then \<lparr>ar_status = 200, ar_body = b\<rparr> else \<lparr>ar_status = 500, ar_body = ErrorJson ''clickhouse''\<rparr>)"

text \<open>The GET routes; \<open>query\<close> reads the query string.\<close>

definition analytics_serve :: "analytics_params \<Rightarrow> string \<Rightarrow> (string \<Rightarrow> string) \<Rightarrow> analytics_state \<Rightarrow> analytics_reply" where
  "analytics_serve P path query st =
     (if path = ''/api/v1/analytics/overview'' then answer_with (OverviewJson (GetOverview st)) st
      else if path = ''/api/v1/analytics/fraud-rate'' then answer_with (RateJson (json_slice (GetFraudRate st))) st
      else if path = ''/api/v1/analytics/top-threats'' then answer_with (CountsJson (json_slice (GetTopThreats st))) st
      else if path = ''/api/v1/analytics/latency'' then answer_with (LatencyJson (GetLatency P st)) st
      else if path = ''/api/v1/analytics/events'' then handleEvents P (query ''limit'') (query ''offset'') st
      else if path = ''/api/v1/analytics/geo'' then answer_with (CountsJson (json_slice (GetGeo P st))) st
      else if path = ''/api/v1/analytics/ws'' then \<lparr>ar_status = 426, ar_body = Upgrade\<rparr>
      else if path = ''/health'' then \<lparr>ar_status = (if as_up st then 200 else 503), ar_body = StatusJson (as_up st)\<rparr>
      else \<lparr>ar_status = 404, ar_body = ErrorJson ''Not Found''\<rparr>)"

section \<open>What the queries return\<close>

lemma group_count_loop:
  "distinct (map fst (group_count f rows)) \<and> sum_list (map snd (group_count f rows)) = length rows
   \<and> (\<forall>k. default (map_of (group_count f rows) k) 0 = length (filter (\<lambda>r. f r = k) rows))
   \<and> (\<forall>c \<in> set (group_count f rows). 0 < snd c)"
  using count_loop [of "[]" "\<lambda>_. True" f rows] count_loop_pos [of "[]" "\<lambda>_. True" f rows] by (simp add: group_count_def)

lemma group_count_Nil: "group_count f rows = [] \<longleftrightarrow> rows = []"
proof
  assume "group_count f rows = []"
  then show "rows = []" using group_count_loop [of f rows] by simp
qed (simp add: group_count_def)

lemma sort_key_Nil: "sort_key f xs = [] \<longleftrightarrow> xs = []"
  by (simp flip: length_0_conv)

lemma most_frequent_Nil: "0 < n \<Longrightarrow> most_frequent n cs = [] \<longleftrightarrow> cs = []"
  by (simp add: most_frequent_def sort_key_Nil)

lemma empty_rollups:
  "GetTopThreats st = [] \<longleftrightarrow> (\<forall>r \<in> set (as_rows st). \<not> risky r)"
  "GetGeo P st = [] \<longleftrightarrow> (\<forall>r \<in> set (as_rows st). row_country P r = [])"
  "GetFraudRate st = [] \<longleftrightarrow> last_day st = []"
proof -
  show "GetTopThreats st = [] \<longleftrightarrow> (\<forall>r \<in> set (as_rows st). \<not> risky r)"
    by (simp add: GetTopThreats_def most_frequent_Nil group_count_Nil filter_empty_conv)
  show "GetGeo P st = [] \<longleftrightarrow> (\<forall>r \<in> set (as_rows st). row_country P r = [])"
    by (simp add: GetGeo_def most_frequent_Nil group_count_Nil filter_empty_conv)
  show "GetFraudRate st = [] \<longleftrightarrow> last_day st = []"
    by (simp add: GetFraudRate_def sort_key_Nil)
qed

lemma events_empty: "0 < limit \<Longrightarrow> GetEvents P limit 0 st = [] \<longleftrightarrow> as_rows st = []"
  by (simp add: GetEvents_def sort_key_Nil)

text \<open>The hourly rollup partitions the last day.\<close>

lemma sum_partition:
  fixes f :: "'a \<Rightarrow> int"
  shows "distinct ks \<Longrightarrow> f ` set xs \<subseteq> set ks \<Longrightarrow> sum_list (map (\<lambda>k. int (length (filter (\<lambda>x. P x \<and> f x = k) xs))) ks) = int (length (filter P xs))"
proof (induction xs)
  case (Cons x xs)
  have "(\<Sum>k\<leftarrow>ks. if f x = k then 1 else (0::int)) = 1"
    using Cons.prems by (simp add: sum_list_distinct_conv_sum_set)
  moreover have "(\<Sum>k\<leftarrow>ks. int (length (filter (\<lambda>y. P y \<and> f y = k) (x # xs))))
      = (\<Sum>k\<leftarrow>ks. int (length (filter (\<lambda>y. P y \<and> f y = k) xs))) + (if P x then (\<Sum>k\<leftarrow>ks. if f x = k then 1 else 0) else 0)"
    by (induction ks) auto
  ultimately show ?case using Cons by simp
qed simp

lemma GetFraudRate_sums:
  "sum_list (map rp_total (GetFraudRate st)) = int (length (last_day st))
   \<and> sum_list (map rp_fraud (GetFraudRate st)) = int (length (filter risky (last_day st)))"
proof -
  let ?ks = "sort (remdups (map hour_of_row (last_day st)))"
  have ks: "distinct ?ks" "hour_of_row ` set (last_day st) \<subseteq> set ?ks" by simp_all
  have "map rp_total (GetFraudRate st) = map (\<lambda>h. int (length (filter (\<lambda>r. True \<and> hour_of_row r = h) (last_day st)))) ?ks"
    "map rp_fraud (GetFraudRate st) = map (\<lambda>h. int (length (filter (\<lambda>r. risky r \<and> hour_of_row r = h) (last_day st)))) ?ks"
    by (simp_all add: GetFraudRate_def Let_def conj_commute)
  with sum_partition [OF ks, of "\<lambda>_. True"] sum_partition [OF ks, of risky] show ?thesis by simp
qed

text \<open>
  The event list the dashboard polls. A reply of 200 means a limit between 1 and 500 and an offset
  that is not negative; it then holds at most that many events, the newest first, each read from a row of
  the table, and it is \<open>null\<close> exactly when there is no row at that offset.
\<close>

lemma events_reply:
  assumes "ar_status (handleEvents P limitStr offsetStr st) = 200"
  shows "\<exists>limit offset rows. Atoi (if limitStr = [] then ''50'' else limitStr) = Some (int limit)
    \<and> Atoi (if offsetStr = [] then ''0'' else offsetStr) = Some (int offset) \<and> 1 \<le> limit \<and> limit \<le> 500
    \<and> ar_body (handleEvents P limitStr offsetStr st) = EventsJson (json_slice (map (to_json \<circ> read_row P) rows))
    \<and> length rows \<le> limit \<and> set rows \<subseteq> set (as_rows st) \<and> sorted_wrt (\<lambda>r s. row_time s \<le> row_time r) rows
    \<and> (ar_body (handleEvents P limitStr offsetStr st) = EventsJson None \<longleftrightarrow> length (as_rows st) \<le> offset)"
proof -
  obtain l where l: "Atoi (if limitStr = [] then ''50'' else limitStr) = Some l" "1 \<le> l" "l \<le> 500"
    using assms by (auto simp: handleEvents_def Let_def split: option.splits if_splits)
  obtain off where off: "Atoi (if offsetStr = [] then ''0'' else offsetStr) = Some off" "0 \<le> off"
    using assms l by (auto simp: handleEvents_def Let_def split: option.splits if_splits)
  let ?rows = "take (nat l) (drop (nat off) (sort_key (\<lambda>r. - row_time r) (as_rows st)))"
  have body: "ar_body (handleEvents P limitStr offsetStr st) = EventsJson (json_slice (map (to_json \<circ> read_row P) ?rows))"
    using assms l off by (simp add: handleEvents_def GetEvents_def Let_def split: if_splits)
  have "sorted (map (\<lambda>r. - row_time r) ?rows)"
    unfolding take_map [symmetric] drop_map [symmetric] by (intro sorted_wrt_take sorted_wrt_drop) simp
  then have sorted: "sorted_wrt (\<lambda>r s. row_time s \<le> row_time r) ?rows" by (simp add: sorted_map)
  have sub: "set ?rows \<subseteq> set (as_rows st)" by (metis set_take_subset set_drop_subset set_sort order_trans)
  have "?rows = [] \<longleftrightarrow> length (as_rows st) \<le> nat off" using l(2) by simp
  then have null: "ar_body (handleEvents P limitStr offsetStr st) = EventsJson None \<longleftrightarrow> length (as_rows st) \<le> nat off"
    unfolding body by (simp add: json_slice_def)
  have len: "length ?rows \<le> nat l \<and> Suc 0 \<le> nat l \<and> nat l \<le> 500" using l by (simp add: le_nat_iff nat_le_iff)
  show ?thesis
    by (rule exI [of _ "nat l"], rule exI [of _ "nat off"], rule exI [of _ ?rows])
      (use l off body sorted sub null len in simp)
qed

definition sample_analytics :: analytics_params where
  "sample_analytics = \<lparr>an_unmarshal = (\<lambda>_. None), an_geo = (\<lambda>_. None), an_json_string = (\<lambda>_ _. []), an_json_float = (\<lambda>_ _. 0),
     an_uuid = (\<lambda>n. ''id'' @ dec n), an_float32 = (\<lambda>x. x), an_quantiles = (\<lambda>_. [])\<rparr>"

lemma events_reply_witness:
  "ar_status (handleEvents sample_analytics ''50'' [] \<lparr>as_rows = [], as_up = True, as_time = 0\<rparr>) = 200
   \<and> ar_body (handleEvents sample_analytics ''50'' [] \<lparr>as_rows = [], as_up = True, as_time = 0\<rparr>) = EventsJson None"
proof -
  have a: "Atoi ''50'' = Some 50" "Atoi ''0'' = Some 0" by code_simp+
  have s: "ar_status (handleEvents sample_analytics ''50'' [] \<lparr>as_rows = [], as_up = True, as_time = 0\<rparr>) = 200"
    by (simp add: handleEvents_def a Let_def)
  from events_reply [OF s] s show ?thesis by auto
qed

text \<open>The overview's counts and rate are consistent, and equal the sums of the hourly rollup.\<close>

lemma overview_consistent:
  "ov_fraud_events (GetOverview st) \<le> ov_total_events (GetOverview st) \<and> 0 \<le> ov_fraud_rate (GetOverview st)
   \<and> ov_fraud_rate (GetOverview st) \<le> 100 \<and> sum_list (map rp_total (GetFraudRate st)) = ov_total_events (GetOverview st)
   \<and> sum_list (map rp_fraud (GetFraudRate st)) = ov_fraud_events (GetOverview st)"
  using dbl.percent_bounds [of "length (filter risky (last_day st))" "length (last_day st)"] GetFraudRate_sums [of st]
  by (simp add: GetOverview_def Let_def)

text \<open>
  An event has the same key when it comes over the socket and when it is polled from the table, so the
  dashboard's window holds it once.
\<close>

lemma live_key_stored: "event_key (to_json (read_row P (row_of P e))) = event_key (to_json e)"
  by (simp add: event_key_def to_json_def read_row_def row_of_def)

section \<open>A consumer of a topic\<close>

text \<open>
  Offsets as the group sees them; an event whose insert fails is not committed, but the loop goes on to
  the next message. \<open>inserted\<close> says whether the engine stored the event in time.
\<close>

record topic_consumer =
  tc_position :: nat
  tc_committed :: nat
  tc_draws :: nat
  tc_stored :: "(nat \<times> go_event) list"

datatype topic_event = Take int bool bool | TopicRestart

fun topic_step :: "analytics_params \<Rightarrow> string list \<Rightarrow> topic_event \<Rightarrow> topic_consumer \<Rightarrow> topic_consumer" where
  "topic_step P topic (Take now inserted commits) st = (let k = tc_position st in
     if length topic \<le> k then st
     else let st = st\<lparr>tc_position := k + 1\<rparr> in
       (case consumed_event P now (tc_draws st) (topic ! k) of
          None \<Rightarrow> if commits then st\<lparr>tc_committed := k + 1\<rparr> else st
        | Some (event, n) \<Rightarrow> let st = st\<lparr>tc_draws := n\<rparr> in
            if \<not> inserted then st
            else let st = st\<lparr>tc_stored := tc_stored st @ [(k, event)]\<rparr> in
              if commits then st\<lparr>tc_committed := k + 1\<rparr> else st))"
| "topic_step P topic TopicRestart st = st\<lparr>tc_position := tc_committed st\<rparr>"

definition stored_of :: "nat \<Rightarrow> topic_consumer \<Rightarrow> go_event list" where
  "stored_of k st = map snd (filter (\<lambda>p. fst p = k) (tc_stored st))"

interpretation passed_topic: machine "topic_step P topic"
  "\<lambda>st. k < tc_position st \<and> k < tc_committed st \<and> stored_of k st = r" for P topic k r
proof
  fix st e
  assume "k < tc_position st \<and> k < tc_committed st \<and> stored_of k st = r"
  then show "k < tc_position (topic_step P topic e st) \<and> k < tc_committed (topic_step P topic e st)
    \<and> stored_of k (topic_step P topic e st) = r"
    by (cases e) (auto simp: stored_of_def Let_def split: option.split)
qed

text \<open>An event that could not be stored is lost as soon as a later message of its topic is committed.\<close>

lemma outage_loses_event:
  assumes "k < tc_position st" "k < tc_committed st" "stored_of k st = []"
  shows "stored_of k (fold (topic_step P topic) es st) = []"
  using passed_topic.run [of k st "[]" P topic es] assms by simp

end
