(* ===== verification/Platform.thy ===== *)
theory Platform
  imports Rules Rules_Service Gateway Analytics_Service
begin

text \<open>
  The dashboard's pages against the platform they were written for: requests go through the gateway to
  the auth service, the rules API of the risk engine and the analytics service. Other routes of the risk
  engine are taken as down, which the gateway answers with 502. The header \<open>X-Forwarded-For\<close> that Go's
  reverse proxy adds is left out.
\<close>

section \<open>The platform\<close>

record ('k, 'a) platform =
  pf_gateway :: "'k gateway"
  pf_auth :: auth_state
  pf_rules :: "'a rules_state"
  pf_analytics :: analytics_state

datatype upstream = FromGateway gateway_reply | FromAuth reply | FromRules rules_reply
  | FromAnalytics analytics_reply | BadGateway

definition platform_send :: "'k gateway_params \<Rightarrow> auth_params \<Rightarrow> 'a risk_params \<Rightarrow> analytics_params \<Rightarrow> string \<Rightarrow> request
    \<Rightarrow> ('k, 'a) platform \<Rightarrow> upstream \<times> ('k, 'a) platform" where
  "platform_send G A R N addr rq st =
     (case gateway_serve G addr rq (pf_gateway st) of (reply, gw) \<Rightarrow>
      (let st = st\<lparr>pf_gateway := gw\<rparr>; path = url_path (rq_url rq) in
       case reply of
         Proxy b r \<Rightarrow>
           (if b = AuthBackend then (case auth_serve A ''gateway'' path r (pf_auth st) of
              (y, au) \<Rightarrow> (FromAuth y, st\<lparr>pf_auth := au\<rparr>))
            else if b = AnalyticsBackend then (FromAnalytics (if rq_method r = ''GET''
                then analytics_serve N path (query_get (rq_url r)) (pf_analytics st)
                else \<lparr>ar_status = 405, ar_body = ErrorJson ''Method Not Allowed''\<rparr>), st)
            else if startsWith path ''/api/v1/rules/'' then (case rules_serve R (drop 13 path) r (pf_rules st) of
              (y, rs) \<Rightarrow> (FromRules y, st\<lparr>pf_rules := rs\<rparr>))
            else (BadGateway, st))
       | _ \<Rightarrow> (FromGateway reply, st)))"

section \<open>What the dashboard reads\<close>

fun up_status :: "upstream \<Rightarrow> nat" where
  "up_status (FromGateway (Answer r)) = rp_status r"
| "up_status (FromGateway (HealthAnswer n _ _)) = n"
| "up_status (FromGateway MetricsAnswer) = 200"
| "up_status (FromGateway (Proxy _ _)) = 502"
| "up_status (FromAuth r) = rp_status r"
| "up_status (FromRules y) = ry_status y"
| "up_status (FromAnalytics y) = ar_status y"
| "up_status BadGateway = 502"

definition up_pair :: "upstream \<Rightarrow> token_pair response" where
  "up_pair u = \<lparr>rs_status = up_status u, rs_json = (case u of FromAuth r \<Rightarrow> rs_json (pair_of r) | _ \<Rightarrow> Inl JsOther)\<rparr>"

definition up_me :: "upstream \<Rightarrow> current_user response" where
  "up_me u = \<lparr>rs_status = up_status u, rs_json = (case u of FromAuth r \<Rightarrow> rs_json (me_of r) | _ \<Rightarrow> Inl JsOther)\<rparr>"

definition up_rules :: "upstream \<Rightarrow> fraud_rule list response" where
  "up_rules u = \<lparr>rs_status = up_status u, rs_json = (case u of FromRules y \<Rightarrow>
     (case ry_body y of RulesJson js \<Rightarrow> Inr js | _ \<Rightarrow> Inl JsOther) | _ \<Rightarrow> Inl JsOther)\<rparr>"

definition up_features :: "upstream \<Rightarrow> string list response" where
  "up_features u = \<lparr>rs_status = up_status u, rs_json = (case u of FromRules y \<Rightarrow>
     (case ry_body y of FeaturesJson js \<Rightarrow> Inr js | _ \<Rightarrow> Inl JsOther) | _ \<Rightarrow> Inl JsOther)\<rparr>"

text \<open>
  Of a rejected body FastAPI sends a list of objects as \<open>detail\<close>; as the message of an error one such
  object reads as below.
\<close>

definition up_rule :: "upstream \<Rightarrow> rule_reply response" where
  "up_rule u = \<lparr>rs_status = up_status u, rs_json = (case u of FromRules y \<Rightarrow> (case ry_body y of
       RuleJson j \<Rightarrow> Inr (RuleReply j) | Detail d \<Rightarrow> Inr (DetailReply (Some d))
     | FieldErrors \<Rightarrow> Inr (DetailReply (Some ''[object Object]'')) | _ \<Rightarrow> Inl JsOther) | _ \<Rightarrow> Inl JsOther)\<rparr>"

definition platform_endpoint :: "'k gateway_params \<Rightarrow> auth_params \<Rightarrow> 'a risk_params \<Rightarrow> analytics_params \<Rightarrow> string \<Rightarrow> string \<Rightarrow> (upstream \<Rightarrow> 'b response)
    \<Rightarrow> (('k, 'a) platform, 'b) endpoint" where
  "platform_endpoint G A R N addr base conv rq st =
     (case platform_send G A R N addr (rq\<lparr>rq_url := drop (length base) (rq_url rq)\<rparr>) st of (u, st') \<Rightarrow> (Inr (conv u), st'))"

definition platform_api :: "'k gateway_params \<Rightarrow> auth_params \<Rightarrow> 'a risk_params \<Rightarrow> analytics_params \<Rightarrow> string \<Rightarrow> env
    \<Rightarrow> ('k, 'a) platform api \<Rightarrow> ('k, 'a) platform api" where
  "platform_api G A R N addr ev api = 
     api\<lparr>ep_refresh := platform_endpoint G A R N addr (getAPIURL ev) up_pair, ep_login := platform_endpoint G A R N addr (getAPIURL ev) up_pair,
       ep_me := platform_endpoint G A R N addr (getAPIURL ev) up_me, ep_rules := platform_endpoint G A R N addr (getAPIURL ev) up_rules,
       ep_features := platform_endpoint G A R N addr (getAPIURL ev) up_features, ep_rule := platform_endpoint G A R N addr (getAPIURL ev) up_rule\<rparr>"

section \<open>Requests through the gateway\<close>

lemma with_auth_frame [simp]: "rq_url (with_auth ev m r) = rq_url r" "rq_method (with_auth ev m r) = rq_method r"
  "rq_body (with_auth ev m r) = rq_body r"
  by (simp_all add: with_auth_def)

text \<open>A request of the dashboard: an error of the gateway, or the routed request with its checked headers.\<close>

lemma gateway_protected:
  assumes "url_path (rq_url r) = path" "startsWith path ''/api/v1/rules/''"
  shows "(\<exists>e. fst (gateway_serve G addr r g) = Answer e \<and> 400 \<le> rp_status e)
    \<or> (\<exists>q. verify_token G (gw_keys g) (lm_now (gw_limiter g)) r = Inr q \<and> fst (gateway_serve G addr r g) = Proxy RiskBackend (director q))"
proof -
  obtain allowed ltr where a: "Allow (gp_limit G) minute (client_key G addr r) (gw_limiter g) = (allowed, ltr)" by fastforce
  then have now: "lm_now ltr = lm_now (gw_limiter g)" by (auto simp: Allow_def Let_def split: if_splits)
  have p: "path \<noteq> ''/metrics''" "path \<noteq> ''/health''" "\<not> startsWith path ''/api/v1/auth/''" "protected_backend path = Some RiskBackend"
    using assms(2) by (auto simp: startsWith_def protected_backend_def prefix_def)
  have err: "400 \<le> rp_status e" if "verify_token G ks t r = Inl e" for ks t e
    using that by (auto simp: verify_token_def http_error_def Let_def split: if_splits list.splits option.splits)
  have route: "gateway_route G (g\<lparr>gw_limiter := ltr\<rparr>) r = (case verify_token G (gw_keys g) (lm_now (gw_limiter g)) r of
      Inl e \<Rightarrow> Answer e | Inr r' \<Rightarrow> Proxy RiskBackend (director r'))"
    using p assms(1) now by (simp add: gateway_route_def Let_def)
  show ?thesis
  proof (cases "allowed = Some True")
    case True
    then have s: "fst (gateway_serve G addr r g) = gateway_route G (g\<lparr>gw_limiter := ltr\<rparr>) r"
      by (simp add: gateway_serve_def a Let_def)
    show ?thesis
    proof (cases "verify_token G (gw_keys g) (lm_now (gw_limiter g)) r")
      case (Inl e)
      with s route err show ?thesis by simp
    qed (use s route in simp)
  next
    case False
    then show ?thesis by (cases allowed) (auto simp: gateway_serve_def a Let_def http_error_def)
  qed
qed

lemma rules_path: "url_path (''/api/v1/rules/'' @ s) = ''/api/v1/rules/'' @ url_path s"
  by (simp add: url_path_def cut_at_def)

lemma send_rules:
  assumes "url_path (rq_url rq) = ''/api/v1/rules'' @ rest" "startsWith rest ''/''"
  shows "(\<exists>e. fst (platform_send G A R N addr rq st) = FromGateway (Answer e) \<and> 400 \<le> rp_status e
      \<and> pf_rules (snd (platform_send G A R N addr rq st)) = pf_rules st)
    \<or> (\<exists>q. verify_token G (gw_keys (pf_gateway st)) (lm_now (gw_limiter (pf_gateway st))) rq = Inr q
        \<and> fst (platform_send G A R N addr rq st) = FromRules (fst (rules_serve R rest (director q) (pf_rules st)))
        \<and> pf_rules (snd (platform_send G A R N addr rq st)) = snd (rules_serve R rest (director q) (pf_rules st)))"
proof -
  let ?path = "url_path (rq_url rq)"
  have p: "startsWith ?path ''/api/v1/rules/''" "drop 13 ?path = rest" using assms by (auto simp: startsWith_def)
  obtain reply gw where s: "gateway_serve G addr rq (pf_gateway st) = (reply, gw)" by fastforce
  from gateway_protected [OF refl p(1), of G addr "pf_gateway st"] show ?thesis
    by (auto simp: platform_send_def s p Let_def split: prod.split)
qed

section \<open>The wrapper against the platform\<close>

lemma refresh_refused_platform:
  assumes "sha_ok A"
  shows "\<exists>resp st'. platform_endpoint G A R N addr (getAPIURL ev) up_pair (refresh_request ev token) st = (Inr resp, st')
    \<and> \<not> ok resp \<and> pf_rules st' = pf_rules st"
proof -
  let ?rq = "(refresh_request ev token)\<lparr>rq_url := ''/api/v1/auth/refresh''\<rparr>"
  have url: "rq_url (refresh_request ev token) = getAPIURL ev @ ''/api/v1/auth/refresh''" by (simp add: refresh_request_def)
  have path: "url_path ''/api/v1/auth/refresh'' = ''/api/v1/auth/refresh''" by (simp add: url_path_def cut_at_def)
  have pre: "startsWith ''/api/v1/auth/refresh'' ''/api/v1/auth/'' = True" by (simp add: startsWith_def)
  obtain allowed ltr where a: "Allow (gp_limit G) minute (client_key G addr ?rq) (gw_limiter (pf_gateway st)) = (allowed, ltr)" by fastforce
  have route: "gateway_route G g ?rq = Proxy AuthBackend (director ?rq)" for g
    by (simp add: gateway_route_def path pre Let_def)
  have d: "rq_body (director ?rq) = RefreshBody token" "rq_method (director ?rq) = ''POST''"
    by (simp_all add: director_def set_header_def refresh_request_def)
  have no: "\<not> ok (up_pair (FromAuth (fst (refresh_handler A (director ?rq) s))))" for s
    by (auto simp: refresh_handler_def d Refresh_eq [OF assms] up_pair_def ok_def http_error_def split: option.split)
  have au: "auth_serve A h ''/api/v1/auth/refresh'' (director ?rq) s = refresh_handler A (director ?rq) s" for h s
    by (simp add: auth_serve_def routes_def d)
  have r: "(refresh_request ev token)\<lparr>rq_url := drop (length (getAPIURL ev)) (rq_url (refresh_request ev token))\<rparr> = ?rq"
    by (simp add: url)
  show ?thesis
  proof (cases "allowed = Some True")
    case True
    then have g: "gateway_serve G addr ?rq (pf_gateway st) = (Proxy AuthBackend (director ?rq), (pf_gateway st)\<lparr>gw_limiter := ltr\<rparr>)"
      by (simp add: gateway_serve_def a route Let_def)
    obtain y au where y: "refresh_handler A (director ?rq) (pf_auth st) = (y, au)" by fastforce
    show ?thesis unfolding platform_endpoint_def r
      using no [of "pf_auth st"] by (simp add: platform_send_def g path au y Let_def)
  next
    case False
    then obtain e where g: "gateway_serve G addr ?rq (pf_gateway st) = (Answer e, (pf_gateway st)\<lparr>gw_limiter := ltr\<rparr>)" "400 \<le> rp_status e"
      by (cases allowed) (auto simp: gateway_serve_def a Let_def http_error_def)
    show ?thesis unfolding platform_endpoint_def r
      using g(2) by (simp add: platform_send_def g(1) up_pair_def ok_def Let_def)
  qed
qed

text \<open>With a refresh that is always refused the wrapper returns the first answer.\<close>

lemma apiFetch_first:
  assumes "ep (with_auth ev (w_storage w) init) (w_server w) = (Inr resp, s1)"
    and "\<And>t s. \<exists>r s'. refresh_ep (refresh_request ev t) s = (Inr r, s') \<and> \<not> ok r \<and> K s' = K s"
  shows "\<exists>w'. apiFetch ev refresh_ep ep init w = (Inr resp, w') \<and> K (w_server w') = K s1"
proof -
  let ?tok = "the (w_storage w refresh_key)"
  obtain r s2 where "refresh_ep (refresh_request ev ?tok) s1 = (Inr r, s2)" "\<not> ok r" "K s2 = K s1"
    using assms(2) by blast
  with assms(1) show ?thesis
    unfolding apiFetch_def bindE_def send_auth_eq do_fetch_world
    by (auto simp: getItem_def readE_def returnE_def)
qed

lemma endpoint_request:
  assumes "rq_url init = getAPIURL ev @ url"
  shows "platform_endpoint G A R N addr (getAPIURL ev) conv (with_auth ev m init) st =
    (Inr (conv (fst (platform_send G A R N addr ((with_auth ev m init)\<lparr>rq_url := url\<rparr>) st))),
     snd (platform_send G A R N addr ((with_auth ev m init)\<lparr>rq_url := url\<rparr>) st))"
  using assms by (simp add: platform_endpoint_def with_auth_def split: prod.split)

lemma platform_fetch:
  assumes "sha_ok A" "rq_url init = getAPIURL ev @ url"
  shows "\<exists>w'. apiFetch ev (platform_endpoint G A R N addr (getAPIURL ev) up_pair) (platform_endpoint G A R N addr (getAPIURL ev) conv) init w
      = (Inr (conv (fst (platform_send G A R N addr ((with_auth ev (w_storage w) init)\<lparr>rq_url := url\<rparr>) (w_server w)))), w')
    \<and> pf_rules (w_server w') = pf_rules (snd (platform_send G A R N addr ((with_auth ev (w_storage w) init)\<lparr>rq_url := url\<rparr>) (w_server w)))"
  by (rule apiFetch_first [where ep = "platform_endpoint G A R N addr (getAPIURL ev) conv"])
    (rule endpoint_request [OF assms(2)], rule refresh_refused_platform [OF assms(1)])

section \<open>The page never shows the table\<close>

text \<open>
  C7: the rules page never shows a rule of the engine's table. Loading the list ends, for every visitor,
  token, table and state of the stores, without an error and with the fixed demonstration rules, marked
  as such, or, only if the table is empty, with the empty list: for a table with rules the API's answer is
  never a list, because the row ids are UUID objects where the schema wants strings, and the page reads
  every error status as an absent backend. The table is unchanged.
\<close>

theorem rules_page_hides_table:
  fixes s :: "('k, 'a) platform rules_page" and t ev addr api and G :: "'k gateway_params" and N
  assumes "uuid_not_str R" "sha_ok A"
  defines "s' \<equiv> snd (rules_refresh t ev (platform_api G A R N addr ev api) s)"
    and "rows \<equiv> rk_rows (pf_rules (w_server (pg_world s)))"
  shows "(ur_rules s' = Some (DEMO_RULES t) \<and> ur_demo s' \<or> rows = [] \<and> ur_rules s' = Some [] \<and> \<not> ur_demo s')
    \<and> ur_error s' = None \<and> rk_rows (pf_rules (w_server (pg_world s'))) = rows"
proof -
  let ?w = "pg_world s" and ?init = "get_request (apiURL ev ''/api/v1/rules/'')"
  let ?rq = "(with_auth ev (w_storage ?w) ?init)\<lparr>rq_url := ''/api/v1/rules/''\<rparr>"
  let ?send = "platform_send G A R N addr ?rq (w_server ?w)" and ?st = "pf_rules (w_server ?w)"
  have path: "url_path (rq_url ?rq) = ''/api/v1/rules'' @ ''/''" by (simp add: url_path_def cut_at_def)
  have list: "rules_serve R ''/'' r ?st = (get_all_rules R ?st, ?st)" if "rq_method r = ''GET''" for r
    using that by (simp add: rules_serve_def)
  have meth: "rq_method (director q) = ''GET''" if "verify_token G ks now ?rq = Inr q" for q ks now
    using verify_token_accepts [OF that] by (auto simp: get_request_def)
  have "get_all_rules R ?st = internal_error \<or> rows = [] \<and> get_all_rules R ?st = \<lparr>ry_status = 200, ry_body = RulesJson []\<rparr>"
    using list_fails [OF assms(1), of ?st] list_empty_table [of ?st R] by (auto simp: rows_def)
  with send_rules [OF path, of G A R N addr "w_server ?w"] meth list
  have send: "(\<not> ok (up_rules (fst ?send)) \<or> rows = [] \<and> ok (up_rules (fst ?send)) \<and> rs_json (up_rules (fst ?send)) = Inr [])
    \<and> pf_rules (snd ?send) = ?st"
    by (auto simp: startsWith_def up_rules_def ok_def internal_error_def)
  have url: "rq_url ?init = getAPIURL ev @ ''/api/v1/rules/''" by (simp add: get_request_def apiURL_def)
  obtain w' where w': "apiFetch ev (ep_refresh (platform_api G A R N addr ev api)) (ep_rules (platform_api G A R N addr ev api)) ?init ?w
      = (Inr (up_rules (fst ?send)), w')" "pf_rules (w_server w') = pf_rules (snd ?send)"
    using platform_fetch [OF assms(2) url, of G R N addr up_rules ?w] unfolding platform_api_def by auto
  then have "listRules ev (platform_api G A R N addr ev api) ?w = (if ok (up_rules (fst ?send)) then json_of (up_rules (fst ?send)) w'
      else (Inl (failed_with ''Failed to load rules'' (rs_status (up_rules (fst ?send)))), w'))"
    by (simp add: listRules_def bindE_def throwE_def)
  moreover have "demo_worthy (failed_with ''Failed to load rules'' n)" for n
    using load_failed_regex_status [of n] by (simp add: demo_worthy_def failed_with_def)
  ultimately show ?thesis using w'(2) send by (auto simp: s'_def rules_refresh_eq json_of_def returnE_def rows_def)
qed

text \<open>A platform with the two sample rules, and nobody signed in.\<close>

definition sample_platform :: "(string, string) platform" where
  "sample_platform = \<lparr>pf_gateway = \<lparr>gw_limiter = fresh_limiter 0, gw_keys = NewAuthMiddleware (Some ''K'')\<rparr>,
     pf_auth = auth_init, pf_rules = lifespan sample_risk sample_rules,
     pf_analytics = \<lparr>as_rows = [], as_up = True, as_time = 0\<rparr>\<rparr>"

lemma sample_uuid: "uuid_not_str sample_risk"
  by (simp add: uuid_not_str_def sample_risk_def)

definition dead_api :: "'srv api" where
  "dead_api = \<lparr>ep_refresh = not_found, ep_login = not_found, ep_register = not_found,
     ep_public_key = not_found, ep_rules = not_found, ep_features = not_found, ep_rule = not_found,
     ep_me = not_found, ep_fraud_rate = not_found, ep_geo = not_found, ep_top_threats = not_found,
     ep_overview = not_found, ep_events = not_found\<rparr>"

definition platform_page :: "('k, 'a) platform \<Rightarrow> (string \<rightharpoonup> string) \<Rightarrow> ('k, 'a) platform rules_page" where
  "platform_page st m = \<lparr>pg_world = \<lparr>w_storage = m, w_server = st, w_sent = [], w_location = []\<rparr>, pg_toasts = toast_init,
     ur_rules = None, ur_error = None, ur_loading = True, ur_demo = False, rp_confirm = None, rp_editor_open = False,
     rp_features = [], rp_search = '''', rp_filter = FilterAll\<rparr>"

theorem rules_page_hides_table_witness:
  "ur_rules (snd (rules_refresh 0 local_env (platform_api sample_gateway sample_params sample_risk sample_analytics ''9.9.9.9:1234'' local_env dead_api)
     (platform_page sample_platform [access_key \<mapsto> ''abc'']))) = Some (DEMO_RULES 0)"
proof -
  have "rk_rows (pf_rules (w_server (pg_world (platform_page sample_platform [access_key \<mapsto> ''abc''])))) \<noteq> []"
    by (simp add: platform_page_def sample_platform_def lifespan_def load_rules_def get_all_enabled_def sample_rules_def)
  with rules_page_hides_table [OF sample_uuid sample_params_ok(1)] show ?thesis by blast
qed

section \<open>Creating a rule\<close>

lemma create_changed:
  assumes "uuid_not_str P" "rk_rows (snd (create_rule P rq st)) \<noteq> rk_rows st"
  shows "\<exists>rule created st'. fst (create_rule P rq st) = internal_error \<and> parse_create (rq_body rq) = Some rule
    \<and> validate_expression P (ru_expression rule) = None \<and> repo_create P rule st = Inr (created, st')
    \<and> snd (create_rule P rq st) = after_reload P st'"
proof -
  have adm: "require_admin P rq" "rk_pool st" using assms(2) by (auto simp: create_rule_def split: if_splits)
  obtain rule where rule: "parse_create (rq_body rq) = Some rule"
    using assms(2) adm by (cases "parse_create (rq_body rq)") (auto simp: create_rule_def)
  have val: "validate_expression P (ru_expression rule) = None"
    using assms(2) adm rule by (cases "validate_expression P (ru_expression rule)") (auto simp: create_rule_def)
  obtain created st' where ok: "repo_create P rule st = Inr (created, st')"
  proof (cases "repo_create P rule st")
    case (Inl e)
    then show ?thesis using assms(2) adm rule val by (cases e) (auto simp: create_rule_def)
  qed (metis prod.collapse that)
  from create_fails [OF assms(1) adm rule val ok] rule val ok show ?thesis by simp
qed

lemma after_reload_table: "rk_rows (after_reload P st) = rk_rows st"
  "rk_db st \<Longrightarrow> rk_engine (after_reload P st) = map_option (\<lambda>_. compile_rules P (enabled_rows st)) (rk_engine st)"
proof -
  show "rk_rows (after_reload P st) = rk_rows st"
    by (auto simp: after_reload_def default_def reload_rules_def load_rules_def split: option.split if_splits)
  show "rk_db st \<Longrightarrow> rk_engine (after_reload P st) = map_option (\<lambda>_. compile_rules P (enabled_rows st)) (rk_engine st)"
    by (cases "rk_engine st") (simp_all add: after_reload_def reload_rules_def load_rules_def get_all_enabled_def enabled_rows_def)
qed

text \<open>
  C15: a rule that an administrator creates on the page is in force while the page says it is not.
  Creating a rule always ends in an error; and when it changed the table, the error is
  \<open>Failed to create rule (500)\<close>, the table has the submitted rule as its new last row, and the engine's
  cache, if there is one, is the compiled table including it.
\<close>

theorem created_rule_reported_failed:
  fixes w :: "('k, 'a) platform world"
  assumes "uuid_not_str R" "sha_ok A" "rows_ok (rk_rows (pf_rules (w_server w)))"
  shows "\<exists>e w'. createRule ev (platform_api G A R N addr ev api) rule w = (Inl e, w') \<and>
    (rk_rows (pf_rules (w_server w')) \<noteq> rk_rows (pf_rules (w_server w)) \<longrightarrow>
       e = JsError ''Failed to create rule (500)''
       \<and> (\<exists>row r. rk_rows (pf_rules (w_server w')) = rk_rows (pf_rules (w_server w)) @ [row]
            \<and> parse_create (RuleBody rule) = Some r \<and> rule_create.truncate row = r)
       \<and> rk_engine (pf_rules (w_server w'))
          = map_option (\<lambda>_. compile_rules R (enabled_rows (pf_rules (w_server w')))) (rk_engine (pf_rules (w_server w))))"
proof -
  let ?init = "json_request ''POST'' (apiURL ev ''/api/v1/rules/'') (RuleBody rule)"
  let ?rq = "(with_auth ev (w_storage w) ?init)\<lparr>rq_url := ''/api/v1/rules/''\<rparr>"
  let ?send = "platform_send G A R N addr ?rq (w_server w)" and ?old = "pf_rules (w_server w)"
  have url: "rq_url ?init = getAPIURL ev @ ''/api/v1/rules/''" by (simp add: json_request_def apiURL_def)
  have path: "url_path (rq_url ?rq) = ''/api/v1/rules'' @ ''/''" by (simp add: url_path_def cut_at_def)
  obtain w' where w': "apiFetch ev (ep_refresh (platform_api G A R N addr ev api)) (ep_rule (platform_api G A R N addr ev api)) ?init w
      = (Inr (up_rule (fst ?send)), w')" "pf_rules (w_server w') = pf_rules (snd ?send)"
    using platform_fetch [OF assms(2) url, of G R N addr up_rule w] unfolding platform_api_def by auto
  have status: "rs_status (up_rule u) = up_status u" for u by (simp add: up_rule_def)
  have err: "\<exists>e. createRule ev (platform_api G A R N addr ev api) rule w = (Inl e, w')
      \<and> (up_status (fst ?send) = 500 \<longrightarrow> e = JsError ''Failed to create rule (500)'')"
    if "400 \<le> up_status (fst ?send)"
  proof -
    have d: "dec 500 = ''500''" by code_simp
    have "\<not> ok (up_rule (fst ?send))" using that by (simp add: ok_def status)
    then show ?thesis
      unfolding createRule_def bindE_def w'(1)
      by (cases "rs_json (up_rule (fst ?send))") (auto simp: status throwE_def json_of_def failed_with_def d returnE_def)
  qed
  have create: "rules_serve R ''/'' (director q) ?old = create_rule R (director q) ?old \<and> rq_body (director q) = RuleBody rule"
    if "verify_token G ks now ?rq = Inr q" for q ks now
    using verify_token_accepts [OF that] by (auto simp: rules_serve_def json_request_def)
  have slash: "startsWith ''/'' ''/''" by (simp add: startsWith_def)
  from send_rules [OF path slash, of G A R N addr "w_server w"] show ?thesis
  proof (elim disjE exE conjE)
    fix e
    assume "fst ?send = FromGateway (Answer e)" "400 \<le> rp_status e" "pf_rules (snd ?send) = ?old"
    with err w'(2) show ?thesis by auto
  next
    fix q
    assume v: "verify_token G (gw_keys (pf_gateway (w_server w))) (lm_now (gw_limiter (pf_gateway (w_server w)))) ?rq = Inr q"
      and f: "fst ?send = FromRules (fst (rules_serve R ''/'' (director q) ?old))"
      and s: "pf_rules (snd ?send) = snd (rules_serve R ''/'' (director q) ?old)"
    have f': "up_status (fst ?send) = ry_status (fst (create_rule R (director q) ?old))"
      and s': "pf_rules (w_server w') = snd (create_rule R (director q) ?old)" using create [OF v] f s w'(2) by simp_all
    obtain e where e: "createRule ev (platform_api G A R N addr ev api) rule w = (Inl e, w')"
      "up_status (fst ?send) = 500 \<longrightarrow> e = JsError ''Failed to create rule (500)''"
      using err create_never_201 [OF assms(1)] f' by metis
    show ?thesis
    proof (cases "rk_rows (pf_rules (w_server w')) = rk_rows ?old")
      case False
      then obtain r created st' where c: "fst (create_rule R (director q) ?old) = internal_error" "parse_create (RuleBody rule) = Some r"
        "repo_create R r ?old = Inr (created, st')" "snd (create_rule R (director q) ?old) = after_reload R st'"
        using create_changed [OF assms(1), of "director q" ?old] create [OF v] unfolding s' by auto
      from repo_create_ok [OF c(3) assms(3)] have st': "rk_engine st' = rk_engine ?old" "rk_db st'"
        "rk_rows st' = rk_rows ?old @ [created]" "rule_create.truncate created = r" by simp_all
      have "enabled_rows (after_reload R st') = enabled_rows st'" by (simp add: enabled_rows_def after_reload_table)
      moreover have "e = JsError ''Failed to create rule (500)''" using e(2) f' c(1) by (simp add: internal_error_def)
      ultimately show ?thesis
        using st' c(2) e(1) by (auto simp: s' c(4) after_reload_table)
    qed (use e in auto)
  qed
qed

lemma createRule_world: "apiFetch ev (ep_refresh api) (ep_rule api)
      (json_request ''POST'' (apiURL ev ''/api/v1/rules/'') (RuleBody rule)) w = (Inr res, w') \<Longrightarrow> snd (createRule ev api rule w) = w'"
  by (auto simp: createRule_def comp_defs json_of_def split: sum.split)

text \<open>A first request with a token of an administrator gets through.\<close>

lemma admin_create_sent:
  assumes "0 < gp_limit G" "gw_limiter (pf_gateway st) = fresh_limiter 0" "ks_public (gw_keys (pf_gateway st)) = Some key"
    and "rq_url rq = ''/api/v1/rules/''" "rq_method rq = ''POST''" "header rq ''Authorization'' = ''Bearer '' @ t" "word_token t"
    and "gp_jwt G key (gp_issuer G) (gp_audience G) 0 t = Some c" "jc_role c = Some ''admin''"
    and "rk_pool (pf_rules st)" "parse_create (rq_body rq) = Some rule" "validate_expression R (ru_expression rule) = None"
    and "repo_create R rule (pf_rules st) = Inr (created, rs)" "uuid_not_str R"
  shows "pf_rules (snd (platform_send G A R N addr rq st)) = after_reload R rs"
proof -
  have path: "url_path (rq_url rq) = ''/api/v1/rules'' @ ''/''" by (simp add: assms(4) url_path_def cut_at_def)
  have slash: "startsWith ''/'' ''/''" by (simp add: startsWith_def)
  have p: "startsWith ''/api/v1/rules/'' ''/api/v1/auth/'' = False" "protected_backend ''/api/v1/rules/'' = Some RiskBackend"
    by (simp_all add: startsWith_def protected_backend_def)
  have v: "verify_token G (gw_keys (pf_gateway st)) 0 rq = Inr (forward_claims c rq)"
    using go_fields_bearer [OF assms(7)] assms(3,6,8) by (simp add: verify_token_def token_header_def Let_def)
  have "fst (gateway_serve G addr rq (pf_gateway st)) = gateway_route G (snd (gateway_serve G addr rq (pf_gateway st))) rq"
    using first_attempt_allowed [of G 0 addr rq "[]" "pf_gateway st"] assms(1,2) by (simp add: gateway_run_def)
  also have "\<dots> = Proxy RiskBackend (director (forward_claims c rq))"
    using path p v assms(2) by (simp add: gateway_route_def gateway_serve_limiter Allow_def fresh_limiter_def Let_def)
  finally have g: "fst (gateway_serve G addr rq (pf_gateway st)) = Proxy RiskBackend (director (forward_claims c rq))" .
  have adm: "require_admin R (director (forward_claims c rq))"
    using assms(9) by (simp add: require_admin_def director_def forward_claims_def set_header_def Let_def split: option.split)
  have "\<not> (\<exists>e. fst (platform_send G A R N addr rq st) = FromGateway (Answer e))"
    using g by (auto simp: platform_send_def Let_def split: prod.splits if_splits)
  then have "pf_rules (snd (platform_send G A R N addr rq st)) = snd (rules_serve R ''/'' (director (forward_claims c rq)) (pf_rules st))"
    using send_rules [OF path slash, of G A R N addr st] v assms(2) by (auto simp: fresh_limiter_def)
  also have "\<dots> = after_reload R rs"
    using create_fails [OF assms(14) adm assms(10) _ assms(12,13)] assms(5,11) by (simp add: rules_serve_def)
  finally show ?thesis .
qed

definition sample_input :: rule_input where
  "sample_input = \<lparr>ri_rule_id = Some ''R3'', ri_name = ''n'', ri_description = None, ri_expression = ''is_mobile'',
     ri_score_contribution = 60, ri_action = ''BLOCK'', ri_is_enabled = None, ri_priority = None\<rparr>"

lemma sample_platform_rules: "rk_rows (pf_rules sample_platform) = rk_rows sample_rules" "rk_db (pf_rules sample_platform)"
  "rk_pool (pf_rules sample_platform)" "rows_ok (rk_rows (pf_rules sample_platform))"
  using sample_rows_ok
  by (simp_all add: sample_platform_def lifespan_def load_rules_def get_all_enabled_def sample_rules_def Let_def)

lemma sample_create_sent:
  assumes "rq_url rq = ''/api/v1/rules/''" "rq_method rq = ''POST''" "header rq ''Authorization'' = ''Bearer '' @ ''adm''"
    and "rq_body rq = RuleBody sample_input"
  shows "\<exists>created. rk_rows (pf_rules (snd (platform_send sample_gateway sample_params sample_risk sample_analytics addr rq sample_platform)))
    = rk_rows sample_rules @ [created]"
proof -
  define r where "r = \<lparr>ru_name = ''n'', ru_description = '''', ru_expression = ''is_mobile'', ru_score = 60, ru_action = ''BLOCK'',
    ru_enabled = True, ru_priority = 50, rc_rule_id = ''R3''\<rparr>"
  note rows = sample_platform_rules
  have c: "parse_create (RuleBody sample_input) = Some r"
    by (simp add: parse_create_def sample_input_def json_int_def r_def rule_update.defs rule_create.defs)
  have val: "validate_expression sample_risk (ru_expression r) = None"
  proof -
    have m: "''is_mobile'' \<in> set FEATURE_NAMES" by (simp add: FEATURE_NAMES_def feature_defaults_def)
    have "rk_parse sample_risk ''is_mobile'' = Inr ''is_mobile''" "rk_variables sample_risk ''is_mobile'' = [''is_mobile'']"
      by (simp_all add: sample_risk_def)
    then show ?thesis using m by (simp add: validate_expression_def r_def unknown_features_def)
  qed
  have cols: "columns_ok r" "length (rc_rule_id r) \<le> 20" by (simp_all add: r_def columns_ok_def int32_def)
  have new: "\<not> list_ex (\<lambda>x. rc_rule_id x = rc_rule_id r) (rk_rows sample_rules)"
    by (simp add: sample_rules_def sample_row_def r_def)
  obtain created rs where cr: "repo_create sample_risk r (pf_rules sample_platform) = Inr (created, rs)"
    using cols new rows by (auto simp: repo_create_def Let_def)
  have len: "rk_rows rs = rk_rows sample_rules @ [created]" using repo_create_ok [OF cr rows(4)] rows by simp
  have tok: "word_token ''adm''" by (simp add: word_token_def go_space_def char_code_def)
  have "pf_rules (snd (platform_send sample_gateway sample_params sample_risk sample_analytics addr rq sample_platform)) = after_reload sample_risk rs"
    by (rule admin_create_sent [where key = "''K''" and t = "''adm''" and rule = r and created = created
        and c = "\<lparr>jc_sub = Some ''u0'', jc_role = Some ''admin'', jc_email = Some ''root@example.org''\<rparr>", OF _ _ _ assms(1-3) tok])
      (use c val cr rows assms(4) in \<open>simp_all add: sample_gateway_def sample_platform_def NewAuthMiddleware_def sample_uuid\<close>)
  with len show ?thesis by (simp add: after_reload_table)
qed

theorem created_rule_reported_failed_witness:
  "\<exists>w'. createRule local_env (platform_api sample_gateway sample_params sample_risk sample_analytics ''9.9.9.9:1234'' local_env dead_api) sample_input
      \<lparr>w_storage = [access_key \<mapsto> ''adm''], w_server = sample_platform, w_sent = [], w_location = []\<rparr>
    = (Inl (JsError ''Failed to create rule (500)''), w') \<and> length (rk_rows (pf_rules (w_server w'))) = 3"
proof -
  let ?w = "\<lparr>w_storage = [access_key \<mapsto> ''adm''], w_server = sample_platform, w_sent = [], w_location = []\<rparr>"
  let ?init = "json_request ''POST'' (apiURL local_env ''/api/v1/rules/'') (RuleBody sample_input)"
  let ?rq = "(with_auth local_env (w_storage ?w) ?init)\<lparr>rq_url := ''/api/v1/rules/''\<rparr>"
  let ?api = "platform_api sample_gateway sample_params sample_risk sample_analytics ''9.9.9.9:1234'' local_env dead_api :: (string, string) platform api"
  have "header ?rq ''Authorization'' = ''Bearer '' @ ''adm''"
    by (simp add: header_def with_auth_def json_request_def json_content_def local_env_def)
  then obtain created where sent: "rk_rows (pf_rules (snd (platform_send sample_gateway sample_params sample_risk sample_analytics ''9.9.9.9:1234'' ?rq sample_platform)))
      = rk_rows sample_rules @ [created]"
    using sample_create_sent [of ?rq] by (auto simp: json_request_def)
  have url: "rq_url ?init = getAPIURL local_env @ ''/api/v1/rules/''" by (simp add: json_request_def apiURL_def)
  obtain w' where w': "apiFetch local_env (ep_refresh ?api) (ep_rule ?api) ?init ?w
      = (Inr (up_rule (fst (platform_send sample_gateway sample_params sample_risk sample_analytics ''9.9.9.9:1234'' ?rq sample_platform))), w')"
      "rk_rows (pf_rules (w_server w')) = rk_rows sample_rules @ [created]"
    using platform_fetch [OF sample_params_ok(1) url, of sample_gateway sample_risk sample_analytics "''9.9.9.9:1234''" up_rule ?w] sent
    unfolding platform_api_def by auto
  have n: "length (rk_rows (pf_rules (w_server w'))) = 3" by (simp add: w'(2)) (simp add: sample_rules_def)
  have "rows_ok (rk_rows (pf_rules (w_server ?w)))" using sample_platform_rules by simp
  from created_rule_reported_failed [OF sample_uuid sample_params_ok(1) this, of local_env sample_gateway sample_analytics "''9.9.9.9:1234''" dead_api sample_input]
    createRule_world [OF w'(1)] w'(2) sample_platform_rules n show ?thesis by auto
qed

section \<open>Who can change the rules\<close>

text \<open>
  C3: through the gateway only an administrator changes a rule. A request that changes anything in the
  table or in the engine carries a token that verifies under the gateway's current key, and either the
  verified role is \<open>admin\<close> or the request has the service token of the risk engine; a role the client
  claims in a header counts for nothing.
\<close>

theorem rules_change_needs_admin:
  assumes "pf_rules (snd (platform_send G A R N addr rq st)) \<noteq> pf_rules st"
  shows "\<exists>key token claims. ks_public (gw_keys (pf_gateway st)) = Some key \<and> go_fields (token_header rq) = [''Bearer'', token]
    \<and> gp_jwt G key (gp_issuer G) (gp_audience G) (lm_now (gw_limiter (pf_gateway st))) token = Some claims
    \<and> (jc_role claims = Some ''admin''
       \<or> rk_service_token R \<noteq> [] \<and> rq_headers rq ''X-Service-Token'' = Some (rk_service_token R))"
proof -
  obtain reply gw where g: "gateway_serve G addr rq (pf_gateway st) = (reply, gw)" by fastforce
  obtain b r where b: "reply = Proxy b r" "b \<noteq> AuthBackend"
    and ch: "snd (rules_serve R (drop 13 (url_path (rq_url rq))) r (pf_rules st)) \<noteq> pf_rules st"
    using assms by (auto simp: platform_send_def g Let_def split: gateway_reply.splits prod.splits if_splits)
  obtain q where q: "verify_token G (gw_keys (pf_gateway st)) (lm_now (gw_limiter (pf_gateway st))) rq = Inr q" "r = director q"
    using gateway_serve_backend [of G addr rq "pf_gateway st" b r] g b by auto
  obtain key token claims where v: "ks_public (gw_keys (pf_gateway st)) = Some key" "go_fields (token_header rq) = [''Bearer'', token]"
    "gp_jwt G key (gp_issuer G) (gp_audience G) (lm_now (gw_limiter (pf_gateway st))) token = Some claims"
    "q = forward_claims claims rq"
    using verify_token_accepts [OF q(1)] by blast
  have "require_admin R r" using admin_only ch by blast
  moreover have "rq_headers r ''X-User-Role'' = jc_role claims" "rq_headers r ''X-Service-Token'' = rq_headers rq ''X-Service-Token''"
    unfolding q(2) v(4) by (simp_all add: forwarded_headers)
  ultimately have "jc_role claims = Some ''admin'' \<or> rk_service_token R \<noteq> [] \<and> rq_headers rq ''X-Service-Token'' = Some (rk_service_token R)"
    by (auto simp: require_admin_def default_def split: option.splits)
  with v(1-3) show ?thesis by blast
qed

theorem rules_change_needs_admin_witness:
  "go_fields (token_header (sample_get ''/'' [''Authorization'' \<mapsto> ''Bearer adm''])) = [''Bearer'', ''adm'']
   \<and> (\<exists>claims. gp_jwt sample_gateway ''K'' (gp_issuer sample_gateway) (gp_audience sample_gateway) 0 ''adm'' = Some claims \<and> jc_role claims = Some ''admin'')"
proof -
  let ?rq = "\<lparr>rq_url = ''/api/v1/rules/'', rq_method = ''POST'', rq_headers = [''Authorization'' \<mapsto> ''Bearer adm''], rq_body = RuleBody sample_input\<rparr>"
  have f: "go_fields ''Bearer adm'' = [''Bearer'', ''adm'']" by code_simp
  have t: "token_header ?rq = ''Bearer adm''" "token_header (sample_get ''/'' [''Authorization'' \<mapsto> ''Bearer adm'']) = ''Bearer adm''"
    by (simp_all add: token_header_def header_def sample_get_def Let_def)
  obtain created where "rk_rows (pf_rules (snd (platform_send sample_gateway sample_params sample_risk sample_analytics ''h:1'' ?rq sample_platform)))
      = rk_rows sample_rules @ [created]"
    using sample_create_sent [of ?rq "''h:1''"] by (auto simp: header_def)
  then have "pf_rules (snd (platform_send sample_gateway sample_params sample_risk sample_analytics ''h:1'' ?rq sample_platform)) \<noteq> pf_rules sample_platform"
    using sample_platform_rules(1) by (metis append_self_conv list.discI)
  from rules_change_needs_admin [OF this] f t show ?thesis
    by (auto simp: sample_platform_def NewAuthMiddleware_def fresh_limiter_def sample_risk_def)
qed

section \<open>Rollups without rows\<close>

text \<open>
  The replies of the analytics service as the dashboard decodes them: a list, or \<open>null\<close>, which
  TypeScript's casts do not see.
\<close>

definition up_counts :: "upstream \<Rightarrow> (string \<times> int) list option response" where
  "up_counts u = \<lparr>rs_status = up_status u, rs_json = (case u of FromAnalytics y \<Rightarrow>
     (case ar_body y of CountsJson v \<Rightarrow> Inr v | _ \<Rightarrow> Inl JsOther) | _ \<Rightarrow> Inl JsOther)\<rparr>"

definition up_rate :: "upstream \<Rightarrow> rate_point list option response" where
  "up_rate u = \<lparr>rs_status = up_status u, rs_json = (case u of FromAnalytics y \<Rightarrow>
     (case ar_body y of RateJson v \<Rightarrow> Inr v | _ \<Rightarrow> Inl JsOther) | _ \<Rightarrow> Inl JsOther)\<rparr>"


text \<open>\<open>fetchFraudRate\<close>, \<open>fetchGeo\<close> and \<open>fetchTopThreats\<close> on such replies.\<close>

definition fetch_nullable :: "env \<Rightarrow> ('srv, token_pair) endpoint \<Rightarrow> ('srv, 'b list option) endpoint \<Rightarrow> string \<Rightarrow> 'b list
    \<Rightarrow> ('srv world, 'b list option) comp" where
  "fetch_nullable ev refresh_ep ep path fallback = catchE
     (bindE (apiFetch ev refresh_ep ep (get_request (apiURL ev path))) (\<lambda>res.
        if \<not> ok res then returnE (Some []) else json_of res))
     (\<lambda>_. returnE (Some fallback))"

text \<open>Where no body is \<open>null\<close> this is the function of \<open>Api\<close>.\<close>

lemma fetch_nullable_lists:
  assumes "\<And>rq st. ep rq st = (case ep' rq st of (Inl e, st') \<Rightarrow> (Inl e, st')
    | (Inr r, st') \<Rightarrow> (Inr \<lparr>rs_status = rs_status r, rs_json = (case rs_json r of Inl e \<Rightarrow> Inl e | Inr xs \<Rightarrow> Inr (Some xs))\<rparr>, st'))"
  shows "fetch_nullable ev (ep_refresh api) ep path fallback w =
    (case fetch_rollup ev api ep' path fallback w of (Inl e, w') \<Rightarrow> (Inl e, w') | (Inr xs, w') \<Rightarrow> (Inr (Some xs), w'))"
proof -
  let ?conv = "\<lambda>r. \<lparr>rs_status = rs_status r, rs_json = (case rs_json r of Inl e \<Rightarrow> Inl e | Inr xs \<Rightarrow> Inr (Some xs))\<rparr>"
  have fetch: "do_fetch ep rq w = (case do_fetch ep' rq w of (Inl e, w') \<Rightarrow> (Inl e, w') | (Inr r, w') \<Rightarrow> (Inr (?conv r), w'))" for rq w
    by (simp add: do_fetch_def assms split: prod.split sum.split)
  have api: "apiFetch ev (ep_refresh api) ep init w = (case apiFetch ev (ep_refresh api) ep' init w of
      (Inl e, w') \<Rightarrow> (Inl e, w') | (Inr r, w') \<Rightarrow> (Inr (?conv r), w'))" for init
    by (simp add: apiFetch_def bindE_def send_auth_eq fetch returnE_def json_of_def getItem_def setItem_def readE_def modifyE_def
        throwE_def split: prod.split sum.split)
  show ?thesis
    unfolding fetch_nullable_def fetch_rollup_def catchE_def bindE_def api
    by (auto simp: ok_def returnE_def json_of_def throwE_def split: prod.split sum.split)
qed

text \<open>
  What a render of the analytics page computes first: \<open>fraudRateSeries.length\<close>, \<open>geoData.slice\<close> and
  \<open>threatSources.length\<close> throw on \<open>null\<close>. The dashboard has no error boundary.
\<close>

definition null_property :: "string \<Rightarrow> exn" where
  "null_property p = JsError (''Cannot read properties of null (reading '' @ [CHR 0x27] @ p @ [CHR 0x27] @ '')'')"

definition charts_render :: "(iso \<Rightarrow> string) \<Rightarrow> rate_point list option \<Rightarrow> (string \<times> int) list option \<Rightarrow> (string \<times> int) list option
    \<Rightarrow> history_point list \<Rightarrow> exn + hour_bar list \<times> (string \<times> int) list \<times> (string \<times> int) list" where
  "charts_render short_time rate geo threats hist =
     (case rate of None \<Rightarrow> Inl (null_property ''length'')
      | Some series \<Rightarrow> (case geo of None \<Rightarrow> Inl (null_property ''slice'')
        | Some countries \<Rightarrow> (case threats of None \<Rightarrow> Inl (null_property ''length'')
          | Some sources \<Rightarrow> Inr (hourlyData short_time series hist, geoSeries countries, sources))))"

text \<open>A request of the dashboard that the gateway lets through to the analytics service.\<close>

definition passes_gateway :: "'k gateway_params \<Rightarrow> string \<Rightarrow> env \<Rightarrow> string \<Rightarrow> ('k, 'a) platform world \<Rightarrow> bool" where
  "passes_gateway G addr ev path w \<longleftrightarrow> (\<exists>q. fst (gateway_serve G addr
     ((with_auth ev (w_storage w) (get_request (apiURL ev path)))\<lparr>rq_url := path\<rparr>) (pf_gateway (w_server w))) = Proxy AnalyticsBackend q)"

lemma analytics_sent:
  assumes "passes_gateway G addr ev path w" "url_path path = p"
  shows "fst (platform_send G A R N addr ((with_auth ev (w_storage w) (get_request (apiURL ev path)))\<lparr>rq_url := path\<rparr>) (w_server w))
    = FromAnalytics (analytics_serve N p (query_get path) (pf_analytics (w_server w)))"
proof -
  let ?rq = "(with_auth ev (w_storage w) (get_request (apiURL ev path)))\<lparr>rq_url := path\<rparr>"
  obtain q where q: "fst (gateway_serve G addr ?rq (pf_gateway (w_server w))) = Proxy AnalyticsBackend q"
    using assms(1) by (auto simp: passes_gateway_def)
  obtain v where v: "verify_token G (gw_keys (pf_gateway (w_server w))) (lm_now (gw_limiter (pf_gateway (w_server w)))) ?rq = Inr v" "q = director v"
    using gateway_serve_backend [OF q] by auto
  then have "rq_method q = ''GET''" "rq_url q = path"
    using verify_token_accepts [OF v(1)] by (auto simp: get_request_def)
  with q assms(2) show ?thesis by (auto simp: platform_send_def Let_def split: prod.split)
qed

text \<open>
  C16: the analytics page cannot show an empty rollup. When no stored event has a score of 60 or more,
  the list of top threats the page gets is \<open>null\<close>, and from then on rendering the page throws, whatever
  else it shows; with no country in any event the same happens through the geographic rollup. The texts
  the page has for these cases are reached only when the request fails.
\<close>

theorem empty_rollup_crashes_page:
  fixes w :: "('k, 'a) platform world" and G :: "'k gateway_params" and A R N addr ev path fallback
  assumes "sha_ok A" "as_up (pf_analytics (w_server w))" "passes_gateway G addr ev path w"
    and "path = ''/api/v1/analytics/top-threats'' \<and> (\<forall>r \<in> set (as_rows (pf_analytics (w_server w))). \<not> risky r)
      \<or> path = ''/api/v1/analytics/geo'' \<and> (\<forall>r \<in> set (as_rows (pf_analytics (w_server w))). row_country N r = [])"
  shows "\<exists>rows. fst (fetch_nullable ev (platform_endpoint G A R N addr (getAPIURL ev) up_pair)
      (platform_endpoint G A R N addr (getAPIURL ev) up_counts) path fallback w) = Inr rows
    \<and> (\<forall>short_time rate geo threats hist. \<exists>e. charts_render short_time rate
        (if path = ''/api/v1/analytics/geo'' then rows else geo) (if path = ''/api/v1/analytics/geo'' then threats else rows) hist = Inl e)"
proof -
  let ?st = "pf_analytics (w_server w)"
  let ?init = "get_request (apiURL ev path)"
  have p: "url_path path = path" using assms(4) by (auto simp: url_path_def cut_at_def)
  have serve: "analytics_serve N path query ?st = \<lparr>ar_status = 200, ar_body = CountsJson None\<rparr>" for query
    using assms(2,4) empty_rollups(1) [of ?st] empty_rollups(2) [of N ?st]
    by (auto simp: analytics_serve_def answer_with_def json_slice_def)
  have url: "rq_url ?init = getAPIURL ev @ path" by (simp add: get_request_def apiURL_def)
  have sent: "fst (platform_send G A R N addr ((with_auth ev (w_storage w) ?init)\<lparr>rq_url := path\<rparr>) (w_server w))
      = FromAnalytics \<lparr>ar_status = 200, ar_body = CountsJson None\<rparr>"
    using analytics_sent [OF assms(3) p] serve by simp
  obtain w' where "apiFetch ev (platform_endpoint G A R N addr (getAPIURL ev) up_pair) (platform_endpoint G A R N addr (getAPIURL ev) up_counts) ?init w
      = (Inr \<lparr>rs_status = 200, rs_json = Inr None\<rparr>, w')"
    using platform_fetch [OF assms(1) url, of G R N addr up_counts w] sent by (auto simp: up_counts_def)
  then have "fst (fetch_nullable ev (platform_endpoint G A R N addr (getAPIURL ev) up_pair)
      (platform_endpoint G A R N addr (getAPIURL ev) up_counts) path fallback w) = Inr None"
    by (simp add: fetch_nullable_def catchE_def bindE_def ok_def json_of_def returnE_def)
  then show ?thesis by (auto simp: charts_render_def split: option.split)
qed

lemma sample_passes:
  assumes "path \<in> {''/api/v1/analytics/top-threats'', ''/api/v1/analytics/geo'', ''/api/v1/analytics/events?limit=50''}"
  shows "passes_gateway sample_gateway addr local_env path
     \<lparr>w_storage = [access_key \<mapsto> ''adm''], w_server = sample_platform, w_sent = [], w_location = []\<rparr>"
proof -
  let ?rq = "(with_auth local_env [access_key \<mapsto> ''adm''] (get_request (apiURL local_env path)))\<lparr>rq_url := path\<rparr>"
  let ?g = "pf_gateway sample_platform"
  have tok: "word_token ''adm''" by (simp add: word_token_def go_space_def char_code_def)
  have h: "header ?rq ''Authorization'' = ''Bearer '' @ ''adm''"
    by (simp add: header_def with_auth_def get_request_def local_env_def)
  have v: "\<exists>q. verify_token sample_gateway (gw_keys ?g) now ?rq = Inr q" for now
    unfolding verify_token_def token_header_def h Let_def using go_fields_bearer [OF tok]
    by (simp add: sample_platform_def NewAuthMiddleware_def sample_gateway_def)
  have p: "url_path path \<noteq> ''/metrics''" "url_path path \<noteq> ''/health''" "startsWith (url_path path) ''/api/v1/auth/'' = False"
    "protected_backend (url_path path) = Some AnalyticsBackend"
    using assms by (auto simp: url_path_def cut_at_def startsWith_def protected_backend_def)
  have "fst (gateway_serve sample_gateway addr ?rq ?g) = gateway_route sample_gateway (snd (gateway_serve sample_gateway addr ?rq ?g)) ?rq"
    using first_attempt_allowed [of sample_gateway 0 addr ?rq "[]" ?g]
    by (simp add: gateway_run_def sample_gateway_def sample_platform_def)
  moreover have "\<exists>q. gateway_route sample_gateway (snd (gateway_serve sample_gateway addr ?rq ?g)) ?rq = Proxy AnalyticsBackend q"
    using p v by (auto simp: gateway_route_def gateway_serve_limiter Let_def split: sum.split) (metis sum.distinct(1))
  ultimately show ?thesis by (simp add: passes_gateway_def)
qed

theorem empty_rollup_crashes_page_witness:
  "\<exists>e. charts_render (\<lambda>_. []) (Some []) (Some []) (projr (fst (fetch_nullable local_env
      (platform_endpoint sample_gateway sample_params sample_risk sample_analytics ''h:1'' (getAPIURL local_env) up_pair)
      (platform_endpoint sample_gateway sample_params sample_risk sample_analytics ''h:1'' (getAPIURL local_env) up_counts)
      ''/api/v1/analytics/top-threats'' demoTopThreats
      \<lparr>w_storage = [access_key \<mapsto> ''adm''], w_server = sample_platform, w_sent = [], w_location = []\<rparr>))) [] = Inl e"
proof -
  let ?w = "\<lparr>w_storage = [access_key \<mapsto> ''adm''], w_server = sample_platform, w_sent = [], w_location = []\<rparr>"
  have up: "as_up (pf_analytics (w_server ?w))" by (simp add: sample_platform_def)
  have none: "''/api/v1/analytics/top-threats'' = ''/api/v1/analytics/top-threats'' \<and> (\<forall>r \<in> set (as_rows (pf_analytics (w_server ?w))). \<not> risky r)
      \<or> ''/api/v1/analytics/top-threats'' = ''/api/v1/analytics/geo'' \<and> (\<forall>r \<in> set (as_rows (pf_analytics (w_server ?w))). row_country sample_analytics r = [])"
    by (simp add: sample_platform_def)
  have pass: "passes_gateway sample_gateway ''h:1'' local_env ''/api/v1/analytics/top-threats'' ?w" by (rule sample_passes) simp
  show ?thesis using empty_rollup_crashes_page [OF sample_params_ok(1) up pass none, of sample_risk demoTopThreats] by force
qed

section \<open>A platform without events\<close>





end
