(* ===== verification/Alert_Service.thy ===== *)
theory Alert_Service
  imports Tokens
begin

text \<open>
  The alert service (\<open>alert-service/redis.go\<close>, \<open>dispatcher.go\<close>, \<open>kafka.go\<close>): the script that
  deduplicates and limits alerts, the delivery to a webhook with retries and a dead-letter topic, and the
  consumer with the offsets of its partition.

  Parsing a URL, resolving a host and decoding the JSON of a message are parameters; Redis runs a script
  atomically and drops a key when its expiry has passed. Times are milliseconds.
\<close>

section \<open>Deduplication and rate limit\<close>

record alert_store =
  sr_dedup :: "string \<Rightarrow> int option"
  sr_rate :: "string \<Rightarrow> (int \<times> int) option"
  sr_now :: int
  sr_up :: bool

text \<open>A deduplication key is its expiry; a rate key its count and expiry.\<close>

definition dedup_live :: "string \<Rightarrow> alert_store \<Rightarrow> bool" where
  "dedup_live alertID st \<longleftrightarrow> (case sr_dedup st alertID of None \<Rightarrow> False | Some e \<Rightarrow> sr_now st < e)"

definition rate_live :: "string \<Rightarrow> alert_store \<Rightarrow> (int \<times> int) option" where
  "rate_live userID st = (case sr_rate st userID of None \<Rightarrow> None | Some (c, e) \<Rightarrow> if sr_now st < e then Some (c, e) else None)"

definition alertLuaScript :: "string \<Rightarrow> string \<Rightarrow> int \<Rightarrow> int \<Rightarrow> int \<Rightarrow> alert_store \<Rightarrow> bool \<times> alert_store" where
  "alertLuaScript alertID userID dedupTTL amount rateTTL st =
     (if dedup_live alertID st then (False, st)
      else if (case rate_live userID st of None \<Rightarrow> False | Some (c, e) \<Rightarrow> amount \<le> c) then (False, st)
      else let st = st\<lparr>sr_dedup := (sr_dedup st)(alertID \<mapsto> sr_now st + 1000 * dedupTTL)\<rparr>;
               current = (case rate_live userID st of None \<Rightarrow> (1, sr_now st + 1000 * rateTTL) | Some (c, e) \<Rightarrow> (c + 1, e))
           in (True, st\<lparr>sr_rate := (sr_rate st)(userID \<mapsto> current)\<rparr>))"

definition AllowAlert :: "string \<Rightarrow> string \<Rightarrow> alert_store \<Rightarrow> bool option \<times> alert_store" where
  "AllowAlert alertID userID st = (if \<not> sr_up st then (None, st)
     else case alertLuaScript alertID userID 600 5 60 st of (b, st') \<Rightarrow> (Some b, st'))"

text \<open>
  A run of the script with waiting and outages in between; it lists the alerts let through with their
  times.
\<close>

datatype store_event = Ask string string | Pass nat | Redis bool

definition allowed_by :: "store_event \<Rightarrow> alert_store \<Rightarrow> (int \<times> string \<times> string) list" where
  "allowed_by e st = (case e of Ask alertID userID \<Rightarrow>
     if fst (AllowAlert alertID userID st) = Some True then [(sr_now st, alertID, userID)] else [] | _ \<Rightarrow> [])"

fun alert_step :: "store_event \<Rightarrow> alert_store \<Rightarrow> alert_store" where
  "alert_step (Ask alertID userID) st = snd (AllowAlert alertID userID st)"
| "alert_step (Pass ms) st = st\<lparr>sr_now := sr_now st + int ms\<rparr>"
| "alert_step (Redis up) st = st\<lparr>sr_up := up\<rparr>"

fun alerts_of :: "store_event list \<Rightarrow> alert_store \<Rightarrow> (int \<times> string \<times> string) list" where
  "alerts_of [] st = []"
| "alerts_of (e # es) st = allowed_by e st @ alerts_of es (alert_step e st)"

definition empty_store :: "int \<Rightarrow> alert_store" where
  "empty_store now = \<lparr>sr_dedup = Map.empty, sr_rate = Map.empty, sr_now = now, sr_up = True\<rparr>"

text \<open>The times of the alerts of a user, and of an alert, in a list of those let through.\<close>

definition user_times :: "string \<Rightarrow> (int \<times> string \<times> string) list \<Rightarrow> int list" where
  "user_times u as = map fst (filter (\<lambda>(t, a, v). v = u) as)"

definition alert_times :: "string \<Rightarrow> (int \<times> string \<times> string) list \<Rightarrow> int list" where
  "alert_times i as = map fst (filter (\<lambda>(t, a, v). a = i) as)"

definition in_span :: "int \<Rightarrow> int \<Rightarrow> int list \<Rightarrow> nat" where
  "in_span a w ts = length (filter (\<lambda>t. a \<le> t \<and> t < a + w) ts)"

lemma span_simps [simp]: "in_span a w [] = 0" "in_span a w (ts @ [t]) = in_span a w ts + (if a \<le> t \<and> t < a + w then 1 else 0)"
  by (simp_all add: in_span_def)

lemma span_none: "\<forall>t \<in> set ts. t < a \<Longrightarrow> in_span a w ts = 0"
  by (fastforce simp: in_span_def filter_empty_conv)

text \<open>
  What the key of a user says of the alerts let through: the current window started at \<open>e - w\<close> and
  holds the alerts since then. An interval of the length of a window meets at most two windows, and if two
  then not the first alert of the earlier one.
\<close>

definition span_cap :: "nat \<Rightarrow> int \<Rightarrow> int \<Rightarrow> int \<Rightarrow> int \<Rightarrow> int" where
  "span_cap k w c e a = (if e - w < a then c - 1 else if e - w = a then c else if e < a + 2 * w then int k - 1 + c else 2 * int k - 1)"

definition rate_ok :: "nat \<Rightarrow> int \<Rightarrow> int \<Rightarrow> (int \<times> int) option \<Rightarrow> int list \<Rightarrow> bool" where
  "rate_ok k w now key ts \<longleftrightarrow> (case key of None \<Rightarrow> ts = []
     | Some (c, e) \<Rightarrow> e - w \<le> now \<and> 0 < c \<and> c \<le> int k \<and> (\<forall>t \<in> set ts. t < e)
         \<and> (\<forall>a. int (in_span a w ts) \<le> span_cap k w c e a))"

lemma rate_ok_bound: "rate_ok k w now key ts \<Longrightarrow> in_span a w ts \<le> 2 * k - 1"
proof (cases key)
  case (Some p)
  assume r: "rate_ok k w now key ts"
  obtain c e where p: "p = (c, e)" by fastforce
  have "int (in_span a w ts) \<le> span_cap k w c e a" "c \<le> int k"
    using r Some p by (auto simp: rate_ok_def)
  then show ?thesis by (auto simp: span_cap_def split: if_splits)
qed (simp add: rate_ok_def)

lemma rate_ok_later: "rate_ok k w now key ts \<Longrightarrow> now \<le> now' \<Longrightarrow> rate_ok k w now' key ts"
  by (auto simp: rate_ok_def split: option.splits)

lemma rate_ok_first:
  assumes "rate_ok k w now key ts" "0 < w" "0 < k" "\<forall>c e. key = Some (c, e) \<longrightarrow> e \<le> now"
  shows "rate_ok k w now (Some (1, now + w)) (ts @ [now])"
proof -
  have old: "\<forall>t \<in> set ts. t < now" and n: "in_span a w ts \<le> (if a < now \<and> now < a + w then k - 1 else 2 * k - 1)" for a
  proof -
    show "\<forall>t \<in> set ts. t < now" using assms(1,4) by (force simp: rate_ok_def split: option.splits)
    show "in_span a w ts \<le> (if a < now \<and> now < a + w then k - 1 else 2 * k - 1)"
    proof (cases "a < now \<and> now < a + w \<and> key \<noteq> None")
      case True
      then obtain c e where key: "key = Some (c, e)" by auto
      have "e \<le> now" using assms(4) key by blast
      have "e - w < a" using True \<open>e \<le> now\<close> by auto
      then have "span_cap k w c e a = c - 1" by (simp add: span_cap_def)
      moreover have "int (in_span a w ts) \<le> span_cap k w c e a" "c \<le> int k" using assms(1) key by (auto simp: rate_ok_def)
      ultimately have "int (in_span a w ts) \<le> int k - 1" by simp
      with True show ?thesis by simp
    next
      case False
      then show ?thesis using rate_ok_bound [OF assms(1), of a] assms(1) by (cases key) (auto simp: rate_ok_def)
    qed
  qed
  have "int (in_span a w (ts @ [now])) \<le> span_cap k w 1 (now + w) a" for a
  proof (cases "now \<le> a")
    case True
    then have "in_span a w ts = 0" using old by (intro span_none) auto
    with True show ?thesis by (simp add: span_cap_def)
  qed (use n [of a] assms(2,3) in \<open>auto simp: span_cap_def split: if_splits\<close>)
  then show ?thesis using old assms(2,3) by (auto simp: rate_ok_def)
qed

lemma rate_ok_next:
  assumes "rate_ok k w now (Some (c, e)) ts" "now < e" "c < int k"
  shows "rate_ok k w now (Some (c + 1, e)) (ts @ [now])"
proof -
  have "int (in_span a w (ts @ [now])) \<le> span_cap k w (c + 1) e a" for a
  proof -
    have "int (in_span a w ts) \<le> span_cap k w c e a" "e - w \<le> now" using assms(1) by (simp_all add: rate_ok_def)
    then show ?thesis by (auto simp: span_cap_def)
  qed
  with assms show ?thesis by (auto simp: rate_ok_def)
qed

text \<open>A deduplication key is that of the last alert with the id; alerts of one id keep its distance.\<close>

definition dedup_ok :: "int \<Rightarrow> int option \<Rightarrow> int list \<Rightarrow> bool" where
  "dedup_ok w key ts \<longleftrightarrow> key = (if ts = [] then None else Some (last ts + w)) \<and> successively (\<lambda>s t. s + w \<le> t) ts"

definition alerts_ok :: "string \<Rightarrow> string \<Rightarrow> alert_store \<Rightarrow> (int \<times> string \<times> string) list \<Rightarrow> bool" where
  "alerts_ok u i st as \<longleftrightarrow> rate_ok 5 60000 (sr_now st) (sr_rate st u) (user_times u as) \<and> dedup_ok 600000 (sr_dedup st i) (alert_times i as)"

lemma times_append [simp]:
  "user_times u (as @ [(t, a, v)]) = user_times u as @ (if v = u then [t] else [])"
  "alert_times i (as @ [(t, a, v)]) = alert_times i as @ (if a = i then [t] else [])"
  by (simp_all add: user_times_def alert_times_def)

lemma Ask_ok:
  assumes "alerts_ok u i st as"
  shows "alerts_ok u i (snd (AllowAlert a v st)) (as @ allowed_by (Ask a v) st)"
proof (cases "fst (AllowAlert a v st) = Some True")
  case True
  let ?current = "case rate_live v st of None \<Rightarrow> (1, sr_now st + 60000) | Some (c, e) \<Rightarrow> (c + 1, e)"
  have up: "\<not> dedup_live a st" "case rate_live v st of None \<Rightarrow> True | Some (c, e) \<Rightarrow> c < 5"
    and st: "snd (AllowAlert a v st) = st\<lparr>sr_dedup := (sr_dedup st)(a \<mapsto> sr_now st + 600000), sr_rate := (sr_rate st)(v \<mapsto> ?current)\<rparr>"
    using True by (auto simp: AllowAlert_def alertLuaScript_def rate_live_def Let_def split: if_splits option.splits)
  have rate: "rate_ok 5 60000 (sr_now st) (Some ?current) (user_times u as @ [sr_now st])" if "v = u"
  proof (cases "rate_live v st")
    case None
    then have "\<forall>c e. sr_rate st u = Some (c, e) \<longrightarrow> e \<le> sr_now st" using that
      by (auto simp: rate_live_def split: option.splits if_splits)
    with assms None show ?thesis by (auto simp: alerts_ok_def intro: rate_ok_first [where key = "sr_rate st u"])
  next
    case (Some p)
    obtain c e where p: "p = (c, e)" by fastforce
    then have "sr_rate st u = Some (c, e)" "sr_now st < e" using Some that by (auto simp: rate_live_def split: option.splits if_splits)
    with assms up(2) Some p show ?thesis by (auto simp: alerts_ok_def intro: rate_ok_next)
  qed
  have dedup: "dedup_ok 600000 (Some (sr_now st + 600000)) (alert_times i as @ [sr_now st])" if "a = i"
    using assms up(1) that
    by (auto simp: alerts_ok_def dedup_ok_def dedup_live_def successively_append_iff split: if_splits)
  show ?thesis using assms rate dedup True by (auto simp: allowed_by_def alerts_ok_def st)
next
  case False
  then have "snd (AllowAlert a v st) = st"
    by (auto simp: AllowAlert_def alertLuaScript_def Let_def split: if_splits)
  with assms False show ?thesis by (simp add: allowed_by_def)
qed

lemma alerts_run: "alerts_ok u i st as \<Longrightarrow> \<exists>st'. alerts_ok u i st' (as @ alerts_of es st)"
proof (induction es arbitrary: st as)
  case (Cons e es)
  have "alerts_ok u i (alert_step e st) (as @ allowed_by e st)"
  proof (cases e)
    case (Ask a v)
    with Ask_ok [OF Cons.prems] show ?thesis by simp
  next
    case (Pass ms)
    with Cons.prems rate_ok_later show ?thesis by (auto simp: alerts_ok_def allowed_by_def)
  qed (use Cons.prems in \<open>simp add: alerts_ok_def allowed_by_def\<close>)
  from Cons.IH [OF this] show ?case by simp
qed auto

text \<open>Alerts with fresh ids, evaluated.\<close>

lemma fresh_alerts:
  "d a = None \<Longrightarrow> r u = None \<Longrightarrow> alerts_of (Ask a u # es) \<lparr>sr_dedup = d, sr_rate = r, sr_now = t, sr_up = True\<rparr>
     = (t, a, u) # alerts_of es \<lparr>sr_dedup = d(a \<mapsto> t + 600000), sr_rate = r(u \<mapsto> (1, t + 60000)), sr_now = t, sr_up = True\<rparr>"
  "d a = None \<Longrightarrow> r u = Some (c, e) \<Longrightarrow> e \<le> t \<Longrightarrow> alerts_of (Ask a u # es) \<lparr>sr_dedup = d, sr_rate = r, sr_now = t, sr_up = True\<rparr>
     = (t, a, u) # alerts_of es \<lparr>sr_dedup = d(a \<mapsto> t + 600000), sr_rate = r(u \<mapsto> (1, t + 60000)), sr_now = t, sr_up = True\<rparr>"
  "d a = None \<Longrightarrow> r u = Some (c, e) \<Longrightarrow> t < e \<Longrightarrow> c < 5 \<Longrightarrow> alerts_of (Ask a u # es) \<lparr>sr_dedup = d, sr_rate = r, sr_now = t, sr_up = True\<rparr>
     = (t, a, u) # alerts_of es \<lparr>sr_dedup = d(a \<mapsto> t + 600000), sr_rate = r(u \<mapsto> (c + 1, e)), sr_now = t, sr_up = True\<rparr>"
  "alerts_of (Pass ms # es) \<lparr>sr_dedup = d, sr_rate = r, sr_now = t, sr_up = True\<rparr>
     = alerts_of es \<lparr>sr_dedup = d, sr_rate = r, sr_now = t + int ms, sr_up = True\<rparr>"
  by (simp_all add: allowed_by_def AllowAlert_def alertLuaScript_def dedup_live_def rate_live_def Let_def)

lemma nine_alerts:
  "user_times u (alerts_of [Ask ''1'' u, Pass 59999, Ask ''2'' u, Ask ''3'' u, Ask ''4'' u, Ask ''5'' u, Pass 1,
      Ask ''6'' u, Ask ''7'' u, Ask ''8'' u, Ask ''9'' u, Ask ''0'' u] (empty_store start))
    = [start, start + 59999, start + 59999, start + 59999, start + 59999, start + 60000, start + 60000, start + 60000, start + 60000, start + 60000]"
  unfolding empty_store_def
  by (simp add: fresh_alerts user_times_def del: alerts_of.simps(2))

text \<open>
  C25: what the script guarantees, in every run with any alerts, users, waiting times and outages of
  Redis. An alert is let through at most once in ten minutes. The limit of five alerts a minute is that
  of fixed windows: a user gets at most nine alerts in any sixty seconds, and can get nine.
\<close>

theorem alert_limits:
  "in_span a 60000 (user_times u (alerts_of es (empty_store start))) \<le> 9
   \<and> successively (\<lambda>s t. s + 600000 \<le> t) (alert_times i (alerts_of es (empty_store start)))
   \<and> (\<exists>es. in_span (start + 1) 60000 (user_times u (alerts_of es (empty_store start))) = 9)"
proof (intro conjI)
  have "alerts_ok u i (empty_store start) []"
    by (simp add: alerts_ok_def empty_store_def rate_ok_def dedup_ok_def user_times_def alert_times_def)
  from alerts_run [OF this, of es] have r: "\<exists>st'. alerts_ok u i st' (alerts_of es (empty_store start))" by simp
  then show "in_span a 60000 (user_times u (alerts_of es (empty_store start))) \<le> 9"
    using rate_ok_bound [of 5] by (fastforce simp: alerts_ok_def)
  from r show "successively (\<lambda>s t. s + 600000 \<le> t) (alert_times i (alerts_of es (empty_store start)))"
    by (auto simp: alerts_ok_def dedup_ok_def)
  have "in_span (start + 1) 60000 ([start, start + 59999, start + 59999, start + 59999, start + 59999, start + 60000, start + 60000, start + 60000, start + 60000, start + 60000]) = 9"
    by (simp add: in_span_def)
  then show "\<exists>es. in_span (start + 1) 60000 (user_times u (alerts_of es (empty_store start))) = 9"
    using nine_alerts [of u start] by metis
qed

section \<open>Delivery\<close>

text \<open>
  The dispatcher's configuration; \<open>wc_parse\<close> gives scheme and host name of a URL, \<open>wc_lookup\<close> the kinds
  of the addresses of a host.
\<close>

datatype address = Loopback | PrivateNet | LinkLocal | Unspecified | PublicNet

record webhook_config =
  wc_webhook :: string
  wc_allowlist :: "string list"
  wc_production :: bool
  wc_parse :: "string \<Rightarrow> (string \<times> string) option"
  wc_lookup :: "string \<Rightarrow> address list option"

definition parse_allowlist :: "string \<Rightarrow> string list" where
  "parse_allowlist s = filter (\<lambda>d. d \<noteq> []) (map (toLowerCase \<circ> TrimSpace) (split_on (CHR '','') s))"

definition resolveIPs :: "webhook_config \<Rightarrow> string \<Rightarrow> address list" where
  "resolveIPs cfg host = default (wc_lookup cfg host) [Loopback]"

definition validateWebhook :: "webhook_config \<Rightarrow> string \<Rightarrow> string option" where
  "validateWebhook cfg raw = (case wc_parse cfg raw of None \<Rightarrow> Some ''invalid webhook URL''
     | Some (scheme, host) \<Rightarrow>
         if scheme = [] \<or> host = [] then Some ''invalid webhook URL''
         else if wc_production cfg \<and> toLowerCase scheme \<noteq> ''https'' then Some ''production webhooks must use HTTPS''
         else if wc_allowlist cfg \<noteq> [] \<and> toLowerCase host \<notin> set (wc_allowlist cfg) then Some ''webhook host is not allowlisted''
         else if list_ex (\<lambda>ip. ip \<noteq> PublicNet) (resolveIPs cfg host) then Some ''webhook resolves to a private address''
         else None)"

text \<open>
  The answer to one POST, and the loop over the attempts: \<open>cancelled i\<close> says whether the context ends in
  the pause after attempt \<open>i\<close>. A request can be built for every URL that was validated, and every alert
  has a JSON form.
\<close>

datatype posted = PostStatus nat | PostFailed

datatype ending = Delivered | Cancelled | Exhausted

record dispatched =
  ds_posts :: nat
  ds_waits :: "nat list"
  ds_ending :: "ending option"
  ds_dlq :: "string option"

definition success :: "posted \<Rightarrow> bool" where
  "success p \<longleftrightarrow> (case p of PostStatus n \<Rightarrow> 200 \<le> n \<and> n < 300 | PostFailed \<Rightarrow> False)"

fun try_posts :: "(nat \<Rightarrow> posted) \<Rightarrow> (nat \<Rightarrow> bool) \<Rightarrow> nat list \<Rightarrow> nat \<times> nat list \<times> ending" where
  "try_posts answers cancelled [] = (0, [], Exhausted)"
| "try_posts answers cancelled (i # is) =
     (if success (answers i) then (1, [], Delivered)
      else if is = [] then (1, [], Exhausted)
      else if cancelled i then (1, [2 ^ i], Cancelled)
      else case try_posts answers cancelled is of (n, ws, e) \<Rightarrow> (n + 1, 2 ^ i # ws, e))"

definition Dispatch :: "webhook_config \<Rightarrow> (nat \<Rightarrow> posted) \<Rightarrow> (nat \<Rightarrow> bool) \<Rightarrow> string \<Rightarrow> dispatched" where
  "Dispatch cfg answers cancelled webhook =
     (if validateWebhook cfg webhook \<noteq> None
      then \<lparr>ds_posts = 0, ds_waits = [], ds_ending = None, ds_dlq = Some ''invalid_webhook''\<rparr>
      else case try_posts answers cancelled [0..<5] of (n, ws, e) \<Rightarrow>
        \<lparr>ds_posts = n, ds_waits = ws, ds_ending = Some e,
           ds_dlq = (if e = Exhausted then Some ''max_retries_exceeded'' else None)\<rparr>)"

lemma try_posts_all:
  assumes "try_posts answers cancelled [i..<m] = (n, ws, e)" "i < m"
  shows "i + n \<le> m \<and> 0 < n \<and> (\<forall>j. i \<le> j \<and> j < i + n - 1 \<longrightarrow> \<not> success (answers j))
    \<and> (e = Delivered \<longleftrightarrow> success (answers (i + n - 1))) \<and> (e = Cancelled \<longrightarrow> cancelled (i + n - 1) \<and> i + n < m)
    \<and> (e = Exhausted \<longrightarrow> i + n = m)
    \<and> ws = map (\<lambda>j. 2 ^ j) [i..<(if e = Cancelled then i + n else i + n - 1)]"
  using assms
proof (induction "m - i" arbitrary: i n ws e)
  case (Suc d)
  have split: "[i..<m] = i # [i + 1..<m]" using Suc.prems(2) by (simp add: upt_conv_Cons)
  show ?case
  proof (cases "success (answers i) \<or> m = i + 1 \<or> cancelled i")
    case True
    with Suc.prems show ?thesis by (auto simp: split split: if_splits prod.splits)
  next
    case False
    obtain n' ws' where r: "try_posts answers cancelled [i + 1..<m] = (n', ws', e)" "n = n' + 1" "ws = 2 ^ i # ws'"
      using Suc.prems False by (auto simp: split split: if_splits prod.splits)
    have "i + 1 < m" using False Suc.prems(2) by simp
    with Suc.hyps(1) [of "i + 1", OF _ r(1)] Suc.hyps(2)
    have ih: "i + 1 + n' \<le> m \<and> 0 < n' \<and> (\<forall>j. i + 1 \<le> j \<and> j < i + 1 + n' - 1 \<longrightarrow> \<not> success (answers j))
      \<and> (e = Delivered \<longleftrightarrow> success (answers (i + 1 + n' - 1))) \<and> (e = Cancelled \<longrightarrow> cancelled (i + 1 + n' - 1) \<and> i + 1 + n' < m)
      \<and> (e = Exhausted \<longrightarrow> i + 1 + n' = m)
      \<and> ws' = map (\<lambda>j. 2 ^ j) [i + 1..<(if e = Cancelled then i + 1 + n' else i + 1 + n' - 1)]" by simp
    have "\<not> success (answers j)" if "i \<le> j" "j < i + n - 1" for j
      using ih that False r(2) by (cases "j = i") auto
    with ih r show ?thesis by (auto simp: upt_conv_Cons split: if_splits)
  qed
qed simp

text \<open>
  What becomes of one alert. An address that is not valid costs no request and one dead letter;
  otherwise there are between one and five requests, with pauses of 1, 2, 4 and 8 seconds between them,
  all but the last of which fail. It ends delivered by the last request, or after five failures with one
  dead letter, or cancelled in a pause without either.
\<close>

lemma dispatch_outcome:
  fixes cfg answers cancelled webhook
  defines "d \<equiv> Dispatch cfg answers cancelled webhook"
  shows "if validateWebhook cfg webhook \<noteq> None
    then ds_posts d = 0 \<and> ds_ending d = None \<and> ds_dlq d = Some ''invalid_webhook''
    else (\<exists>n e. ds_posts d = n \<and> ds_ending d = Some e \<and> 0 < n \<and> n \<le> 5 \<and> (\<forall>j < n - 1. \<not> success (answers j))
      \<and> (e = Delivered \<longleftrightarrow> success (answers (n - 1)))
      \<and> (e = Exhausted \<longrightarrow> n = 5) \<and> (e = Cancelled \<longrightarrow> n < 5 \<and> cancelled (n - 1))
      \<and> ds_waits d = take (if e = Cancelled then n else n - 1) [1, 2, 4, 8]
      \<and> ds_dlq d = (if e = Exhausted then Some ''max_retries_exceeded'' else None))"
proof (cases "validateWebhook cfg webhook")
  case None
  obtain n ws e where t: "try_posts answers cancelled [0..<5] = (n, ws, e)" by (metis prod_cases3)
  have d: "d = \<lparr>ds_posts = n, ds_waits = ws, ds_ending = Some e, ds_dlq = (if e = Exhausted then Some ''max_retries_exceeded'' else None)\<rparr>"
    using None by (simp add: d_def Dispatch_def t)
  from try_posts_all [OF t] have r: "n \<le> 5" "0 < n" "\<forall>j < n - 1. \<not> success (answers j)" "e = Delivered \<longleftrightarrow> success (answers (n - 1))"
    "e = Cancelled \<longrightarrow> cancelled (n - 1) \<and> n < 5" "e = Exhausted \<longrightarrow> n = 5"
    "ws = map (\<lambda>j. 2 ^ j) [0..<(if e = Cancelled then n else n - 1)]" by simp_all
  have four: "map (\<lambda>j. 2 ^ j) [0..<4] = [1, 2, 4, 8 :: nat]" by (simp add: upt_rec)
  have take: "take k [1, 2, 4, 8 :: nat] = map (\<lambda>j. 2 ^ j) [0..<k]" if "k \<le> 4" for k
    unfolding four [symmetric] take_map using that by (simp add: take_upt)
  have "(if e = Cancelled then n else n - 1) \<le> 4" using r(1,5) by auto
  from take [OF this] r d None show ?thesis by simp
qed (simp add: d_def Dispatch_def)

definition sample_webhook :: webhook_config where
  "sample_webhook = \<lparr>wc_webhook = ''https://hooks'', wc_allowlist = [], wc_production = True,
     wc_parse = (\<lambda>_. Some (''https'', ''hooks'')), wc_lookup = (\<lambda>_. Some [PublicNet])\<rparr>"

lemma dispatch_outcome_witness:
  "ds_posts (Dispatch sample_webhook (\<lambda>i. if i = 2 then PostStatus 204 else PostFailed) (\<lambda>_. False) ''https://hooks'') = 3"
proof -
  let ?d = "Dispatch sample_webhook (\<lambda>i. if i = 2 then PostStatus 204 else PostFailed) (\<lambda>_. False) ''https://hooks''"
  have v: "validateWebhook sample_webhook ''https://hooks'' = None" by code_simp
  from dispatch_outcome [of sample_webhook "''https://hooks''" "\<lambda>i. if i = 2 then PostStatus 204 else PostFailed" "\<lambda>_. False"] v
  obtain n e where n: "ds_posts ?d = n" "0 < n" "n \<le> 5" "\<forall>j < n - 1. j \<noteq> 2" "e = Delivered \<longleftrightarrow> n - 1 = 2"
    "e = Exhausted \<longrightarrow> n = 5" "e \<noteq> Cancelled" by (auto simp: success_def split: if_splits)
  then show ?thesis by (cases e) (auto dest: spec [of _ 2])
qed

section \<open>The consumer\<close>

record alert_event =
  ae_AlertID :: string
  ae_UserID :: string
  ae_Action :: string
  ae_Score :: rat
  ae_data_action :: "string option"

text \<open>A message of the partition: not JSON of the struct, or an event.\<close>

datatype alert_message = Garbled | Message alert_event

text \<open>
  The consumer: the next offset to fetch, the committed offset of the group, and what left the service,
  with the offsets: delivered alerts and dead letters.
\<close>

record consumer =
  co_store :: alert_store
  co_position :: nat
  co_committed :: nat
  co_delivered :: "(nat \<times> alert_event) list"
  co_dlq :: "(nat \<times> string) list"

definition with_action :: "alert_event \<Rightarrow> alert_event" where
  "with_action alert = (if ae_Action alert = [] then (case ae_data_action alert of Some v \<Rightarrow> alert\<lparr>ae_Action := v\<rparr> | None \<Rightarrow> alert) else alert)"

text \<open>
  What the surroundings do while a message is handled: the answers to the POSTs, whether the context
  ends in a pause, and whether the brokers take a dead letter and the commit.
\<close>

record surroundings =
  su_answers :: "nat \<Rightarrow> posted"
  su_cancelled :: "nat \<Rightarrow> bool"
  su_publish :: bool
  su_commit :: bool

definition commit :: "surroundings \<Rightarrow> nat \<Rightarrow> consumer \<Rightarrow> consumer" where
  "commit su k st = (if su_commit su then st\<lparr>co_committed := k + 1\<rparr> else st)"

definition dispatch_alert :: "webhook_config \<Rightarrow> surroundings \<Rightarrow> nat \<Rightarrow> alert_event \<Rightarrow> consumer \<Rightarrow> consumer" where
  "dispatch_alert cfg su k alert st =
     (let d = Dispatch cfg (su_answers su) (su_cancelled su) (wc_webhook cfg) in
      st\<lparr>co_delivered := co_delivered st @ (if ds_ending d = Some Delivered then [(k, alert)] else []),
         co_dlq := co_dlq st @ (case ds_dlq d of Some reason \<Rightarrow> if su_publish su then [(k, reason)] else [] | None \<Rightarrow> [])\<rparr>)"

definition handle_message :: "webhook_config \<Rightarrow> surroundings \<Rightarrow> nat \<Rightarrow> alert_message \<Rightarrow> consumer \<Rightarrow> consumer" where
  "handle_message cfg su k m st =
     (case m of Garbled \<Rightarrow> commit su k st
      | Message alert \<Rightarrow>
          if ae_AlertID alert = [] then commit su k st
          else let alert = with_action alert in
            (case AllowAlert (ae_AlertID alert) (ae_UserID alert) (co_store st) of
               (None, _) \<Rightarrow> st
             | (Some allowed, store) \<Rightarrow>
                 (let st = st\<lparr>co_store := store\<rparr> in
                  if \<not> allowed then commit su k st
                  else if wc_webhook cfg = [] then commit su k st
                  else commit su k (dispatch_alert cfg su k alert st))))"

definition consume :: "webhook_config \<Rightarrow> alert_message list \<Rightarrow> surroundings \<Rightarrow> consumer \<Rightarrow> consumer" where
  "consume cfg topic su st = (let k = co_position st in
     if length topic \<le> k then st else handle_message cfg su k (topic ! k) (st\<lparr>co_position := k + 1\<rparr>))"

text \<open>A new process of the group starts at the committed offset.\<close>

datatype consumer_event = Consume surroundings | Restart | StoreEvent store_event

fun consumer_step :: "webhook_config \<Rightarrow> alert_message list \<Rightarrow> consumer_event \<Rightarrow> consumer \<Rightarrow> consumer" where
  "consumer_step cfg topic (Consume su) st = consume cfg topic su st"
| "consumer_step cfg topic Restart st = st\<lparr>co_position := co_committed st\<rparr>"
| "consumer_step cfg topic (StoreEvent e) st = st\<lparr>co_store := alert_step e (co_store st)\<rparr>"

definition outcomes_of :: "nat \<Rightarrow> consumer \<Rightarrow> (alert_event + string) list" where
  "outcomes_of k st = map (Inl \<circ> snd) (filter (\<lambda>p. fst p = k) (co_delivered st)) @ map (Inr \<circ> snd) (filter (\<lambda>p. fst p = k) (co_dlq st))"

lemma handle_frame:
  "j \<noteq> k \<Longrightarrow> outcomes_of j (handle_message cfg su k m st) = outcomes_of j st"
  "co_position (handle_message cfg su k m st) = co_position st"
  "co_committed (handle_message cfg su k m st) \<in> {co_committed st, k + 1}"
  by (auto simp: handle_message_def commit_def dispatch_alert_def outcomes_of_def Let_def
      split: alert_message.split prod.split option.split)

interpretation passed: machine "consumer_step cfg topic"
  "\<lambda>st. k < co_position st \<and> k < co_committed st \<and> outcomes_of k st = r" for cfg topic k r
proof
  fix st e
  assume a: "k < co_position st \<and> k < co_committed st \<and> outcomes_of k st = r"
  show "k < co_position (consumer_step cfg topic e st) \<and> k < co_committed (consumer_step cfg topic e st)
    \<and> outcomes_of k (consumer_step cfg topic e st) = r"
  proof (cases e)
    case (Consume su)
    show ?thesis
    proof (cases "length topic \<le> co_position st")
      case False
      let ?p = "co_position st" and ?st = "st\<lparr>co_position := co_position st + 1\<rparr>"
      have c: "consume cfg topic su st = handle_message cfg su ?p (topic ! ?p) ?st" using False by (simp add: consume_def Let_def)
      have "outcomes_of k ?st = outcomes_of k st" by (simp add: outcomes_of_def)
      then show ?thesis
        using handle_frame(1) [of k ?p cfg su "topic ! ?p" ?st] handle_frame(2,3) [of cfg su ?p "topic ! ?p" ?st] a Consume c by auto
    qed (use a Consume in \<open>simp add: consume_def Let_def\<close>)
  qed (use a in \<open>auto simp: outcomes_of_def\<close>)
qed

text \<open>
  C24: an alert that meets an outage of Redis is lost. The consumer leaves its offset uncommitted so
  that it comes back, but goes on with the next message, whose commit covers it: afterwards, through any
  messages, waiting and restarts, the alert is neither delivered nor dead-lettered. Only a restart before
  the next commit fetches it again.
\<close>

theorem redis_outage_loses_alert:
  fixes cfg topic su su' es
  assumes "co_position st = k" "co_committed st \<le> k" "k + 1 < length topic" "outcomes_of k st = []"
    and "topic ! k = Message alert" "ae_AlertID alert \<noteq> []" "\<not> sr_up (co_store st)" "su_commit su'"
  defines "st1 \<equiv> consume cfg topic su st"
  defines "st2 \<equiv> consume cfg topic su' (consumer_step cfg topic (StoreEvent (Redis True)) st1)"
  shows "outcomes_of k (fold (consumer_step cfg topic) es st2) = []
    \<and> co_position (consumer_step cfg topic Restart st1) \<le> k"
proof -
  have st1: "st1 = st\<lparr>co_position := k + 1\<rparr>"
    using assms(1,3,5-7) by (simp add: st1_def consume_def handle_message_def with_action_def AllowAlert_def Let_def)
  let ?s = "st1\<lparr>co_store := (co_store st1)\<lparr>sr_up := True\<rparr>\<rparr>"
  have s2: "st2 = handle_message cfg su' (k + 1) (topic ! (k + 1)) (?s\<lparr>co_position := k + 2\<rparr>)"
    using assms(3) by (simp add: st2_def consume_def st1 Let_def)
  have "\<exists>b store. AllowAlert i u (co_store ?s) = (Some b, store)" for i u by (simp add: AllowAlert_def split: prod.split)
  then have "co_committed st2 = k + 2"
    using assms(8) unfolding s2
    by (auto simp: handle_message_def commit_def dispatch_alert_def Let_def split: alert_message.split prod.split option.split)
      (metis fst_conv option.distinct(1))+
  moreover have "co_position st2 = k + 2" unfolding s2 by (simp add: handle_frame(2))
  moreover have "outcomes_of k st2 = []"
    using handle_frame(1) [of k "k + 1" cfg su' "topic ! (k + 1)" "?s\<lparr>co_position := k + 2\<rparr>"] assms(4)
    unfolding s2 by (simp add: st1 outcomes_of_def)
  ultimately have "outcomes_of k (fold (consumer_step cfg topic) es st2) = []"
    using passed.run [of k st2 "[]" cfg topic es] by simp
  with assms(2) show ?thesis by (simp add: st1)
qed

definition sample_alert :: "string \<Rightarrow> alert_event" where
  "sample_alert i = \<lparr>ae_AlertID = i, ae_UserID = ''u'', ae_Action = ''ALLOW'', ae_Score = 3, ae_data_action = None\<rparr>"

definition calm :: surroundings where
  "calm = \<lparr>su_answers = (\<lambda>_. PostStatus 200), su_cancelled = (\<lambda>_. False), su_publish = True, su_commit = True\<rparr>"

theorem redis_outage_loses_alert_witness:
  "outcomes_of 0 (fold (consumer_step sample_webhook [Message (sample_alert ''1''), Message (sample_alert ''2'')]) [Restart, Consume calm]
     (fold (consumer_step sample_webhook [Message (sample_alert ''1''), Message (sample_alert ''2'')])
       [Consume calm, StoreEvent (Redis True), Consume calm]
       \<lparr>co_store = (empty_store 0)\<lparr>sr_up := False\<rparr>, co_position = 0, co_committed = 0, co_delivered = [], co_dlq = []\<rparr>)) = []"
proof -
  let ?topic = "[Message (sample_alert ''1''), Message (sample_alert ''2'')]"
  let ?st = "\<lparr>co_store = (empty_store 0)\<lparr>sr_up := False\<rparr>, co_position = 0, co_committed = 0, co_delivered = [], co_dlq = []\<rparr>"
  have "co_position ?st = 0" "co_committed ?st \<le> 0" "0 + 1 < length ?topic" "outcomes_of 0 ?st = []"
    "?topic ! 0 = Message (sample_alert ''1'')" "ae_AlertID (sample_alert ''1'') \<noteq> []" "\<not> sr_up (co_store ?st)" "su_commit calm"
    by (simp_all add: outcomes_of_def sample_alert_def calm_def)
  from redis_outage_loses_alert [OF this, of sample_webhook "[Restart, Consume calm]" calm] show ?thesis by simp
qed

text \<open>The decision behind an alert plays no part: an alert goes out for \<open>ALLOW\<close> as for \<open>BLOCK\<close>.\<close>

lemma action_ignored:
  assumes "ae_AlertID a = ae_AlertID b" "ae_UserID a = ae_UserID b"
  shows "co_committed (handle_message cfg su k (Message a) st) = co_committed (handle_message cfg su k (Message b) st)
    \<and> co_store (handle_message cfg su k (Message a) st) = co_store (handle_message cfg su k (Message b) st)
    \<and> map fst (co_delivered (handle_message cfg su k (Message a) st)) = map fst (co_delivered (handle_message cfg su k (Message b) st))
    \<and> co_dlq (handle_message cfg su k (Message a) st) = co_dlq (handle_message cfg su k (Message b) st)"
proof -
  have "ae_AlertID (with_action x) = ae_AlertID x" "ae_UserID (with_action x) = ae_UserID x" for x
    by (simp_all add: with_action_def split: option.split)
  with assms show ?thesis
    by (auto simp: handle_message_def commit_def dispatch_alert_def Let_def split: prod.split option.split)
qed

end
