(* ===== verification/Spec2Isabelle.thy ===== *)
theory Spec2Isabelle
  imports Demo Threats World_Map Sign_Up Rules_Run Web_Socket Telemetry Analytics_Page System_Health Login
    Top_Bar Shell Widgets Ambient Pages Panels Views Risk_Scoring Platform Alert_Service
begin

text \<open>
  Sentinel: a verification library for the TypeScript dashboard under \<open>src/dashboard/src\<close> and the
  services behind it: the Go auth service, API gateway, analytics service and alert service
  (\<open>src/auth-service\<close>, \<open>src/gateway\<close>, \<open>src/analytics-service\<close>, \<open>src/alert-service\<close>) and the Python risk
  engine (\<open>src/risk-engine\<close>).

  \<^bold>\<open>The program.\<close> The dashboard shows the decisions of a fraud-detection platform. One hook
  (\<open>hooks/useAnalytics.ts\<close>) polls the analytics service, listens to a WebSocket
  (\<open>hooks/useWebSocket.ts\<close>) and keeps a window of fifty events; when no backend answers it feeds the
  same window from a simulation (\<open>lib/demo.ts\<close>). A context (\<open>components/live/LiveContext.tsx\<close>) hands
  the window to the pages and to the chrome. Requests go through a wrapper that refreshes expired
  tokens (\<open>lib/api.ts\<close>); a gate (\<open>components/layout/AuthGate.tsx\<close>) and the sign-in page decide who
  gets in. Pages derive map markers, charts, rule lists and health reports from this data. The auth
  service (\<open>auth-service/internal\<close>) registers users in Postgres, keeps sessions in Redis, issues
  signed access tokens and refresh tokens, and answers the routes that the dashboard calls. The gateway
  limits requests per client, checks tokens and forwards requests to the services. The risk engine keeps
  the fraud rules in Postgres, scores requests with them, with counters in Redis and with a model, and
  publishes its decisions; the analytics service stores them in ClickHouse, answers the dashboard's
  queries and broadcasts live events; the alert service posts them to a webhook.

  \<^bold>\<open>Theories\<close>, each importing what the component calls:
  \<^item> \<open>Prelude\<close>: JavaScript strings and arrays, radix printing, computations that may throw
    (\<open>comp\<close>, with \<open>bindE\<close>, \<open>catchE\<close>), list lemmas; the locale \<open>machine\<close> gives the runs of a component
    whose steps keep an invariant. \<open>JS_Number\<close>: double arithmetic as exact rationals
    rounded to 53 bits (\<open>fl\<close>), \<open>Math.round\<close>, \<open>toFixed\<close>; the locale \<open>rounding\<close> holds what clients
    use of it. \<open>Events\<close>: the event record. \<open>Memo\<close>: \<open>React.memo\<close> and the locale \<open>memoized\<close>.
  \<^item> \<open>Demo\<close>: \<open>lib/demo.ts\<close>. The generator on 32-bit words, weighted choice, event generation in the
    state monad, backfill, rollups; the locale \<open>random_source\<close> is interpreted by \<open>mulberry32\<close>.
  \<^item> \<open>Session\<close>: addresses, storage, the fetch wrapper in both copies, percent encoding, the gate and
    sign-out. The server is a parameter: an endpoint maps a request and a server state to a reply
    or a rejection and a new state. \<open>Api\<close>: the client functions of \<open>lib/api.ts\<close>.
  \<^item> \<open>Tokens\<close>, \<open>Accounts\<close>, \<open>Auth_Service\<close>: the auth service, from \<open>service/token_service.go\<close> over the
    users table, the session store, the event producer and \<open>service/auth_service.go\<close> to the handlers,
    middleware and routes; its invariants over all requests, waiting times and outages; its endpoints
    as the dashboard calls them, the token check of the gateway, and the interleavings of two wrapped
    calls. \<open>Sign_Up\<close>: registration from the form to the identity the pages show.
  \<^item> \<open>Gateway\<close>: the limiter over time, the key that is fetched and polled, the token check, the routes.
    \<open>Feature_Store\<close>: the Redis counters of the risk engine and the consumer that fills them; the locale
    \<open>sliding_window\<close> is what a purged log of times owes its readers, interpreted by these counters and
    by the limiter. \<open>Rules_Service\<close>: table, API and compiled cache of the fraud rules.
    \<open>Risk_Scoring\<close>: from the features of a request to its decision.
  \<^item> \<open>Analytics_Service\<close>, \<open>Alert_Service\<close>: consumers with their offsets, batch engine, queries and
    routes; deduplication, delivery and dead letters. \<open>Platform\<close>: gateway, auth service, rules API
    and analytics service as the one server of the dashboard's requests.
  \<^item> \<open>Analytics\<close>, \<open>Web_Socket\<close>: the two hooks. The locale \<open>event_window\<close> states what both ways of
    pushing into the window promise; the socket hook is an inductive step relation in which opens,
    closes, errors, messages, retries and URL changes interleave freely. \<open>Telemetry\<close>: the telemetry
    hook from mount on, with a machine for each of its two modes, and beside its socket.
  \<^item> \<open>Threats\<close>, \<open>World_Map\<close>: marker placement, critical alerts, posture, radar, feed and origins
    table; atlas cache, arcs, markers and the memo comparators. \<open>Analytics_Page\<close>, \<open>Rules\<close>,
    \<open>System_Health\<close>, \<open>Login\<close>: the pages with state or computation of their own. \<open>Rules_Run\<close>: the rules
    page with answers under way, in which clicks and answers interleave.
  \<^item> \<open>Toasts\<close>, \<open>Top_Bar\<close>, \<open>Shell\<close>, \<open>Widgets\<close>, \<open>Ambient\<close>: the notification queue with the locale
    \<open>toaster\<close>, the command palette, drop-downs and navigation, the boot overlay over time, the
    animated number and the other computing widgets, the transaction ledger, the two particle
    canvases with one animation loop. \<open>Panels\<close>: the tilting card, glass panel, skeletons, brand mark,
    area chart, radar scope, service cards, drop-downs and the fields of the sign-in form. \<open>Views\<close>: what the larger
    pieces of markup compute, and the copies that files keep of one function or table.
  \<^item> \<open>Pages\<close>: the command center, the threats page as a state machine, and the panels of the
    analytics and ledger pages. This theory: the session from sign-in to sign-out, and the
    simulated session on the pages.

  \<^bold>\<open>What the lemmas show.\<close> Invariants over all reachable states (toasts, window, sockets, atlas,
  accounts and sessions, the mode of the telemetry hook, answers under way on the rules page);
  outcomes of every asynchronous operation on every branch (refresh, load, save, submit, rollups);
  refinement of the fetch wrapper and of the sequential rules page by the steps that are
  interleaved; transparency of the caches and memo comparators; that the weighted choice inverts the weights under rounding;
  round trips of tokens and encodings, through the address of the live socket too; exactness of the
  rate limit and of the velocity counters over time; that the compiled rules are those of the table in
  every reachable state; what the backends can rely on behind the gateway and who can change a rule;
  that live events are stored ones; the limits of alerts; registration and sign-in end to end; the lockout after five
  wrong passwords; termination of the overlay and of the tween. Some theorems establish defects: no
  refresh of a session ever succeeds, because its digest is dropped on storing, so that a sign-in
  ends with its first access token, a registration with a long password fails, the
  gateway probe never reports ok, demo charts run backwards, timers survive unmounting, HTTP errors
  become demo rules, the login probe misses forwarded
  backends, the boot overlay never ends in demo mode, animation loops multiply when the page is
  hidden and shown, a late save closes another editor, the load gauge never warns, the rules page never
  shows the rules, a rule that fires makes scoring fail, no decision blocks or is saved, empty tables
  crash the pages, outages of Redis lose alerts, and a forged address evades the rate limit.

  \<^bold>\<open>Bounds.\<close> No definition uses fuel: loops are structural recursions over the lists they traverse
  (the thirty tries for the key end by a measure),
  the overlay is a recursion over milliseconds, the socket hook a relation. Rounding lemmas ask for
  integers up to \<open>2 ^ 53\<close>, which covers millisecond clocks and all counts of the program.

  \<^bold>\<open>Conventions.\<close> Numbers of the program are rationals (finite doubles), never NaN or infinite; a
  missing property is \<open>None\<close>. \<open>toLocaleTimeString\<close>, \<open>Math.pow\<close>, the d3 projection, and token signing,
  digests, bcrypt, UUIDs and random bytes (the record \<open>auth_params\<close>) are arguments, with what is asked
  of them as hypotheses (\<open>jwt_ok\<close>, \<open>sha_ok\<close>, \<open>bcrypt_ok\<close>, \<open>uuid_ok\<close>, \<open>random_ok\<close>), which \<open>sample_params\<close>
  satisfies. In the other services the expression parser, UUIDs and pydantic (\<open>risk_params\<close>), the IP
  service, the model and the calendar (\<open>score_params\<close>), PEM, JWT verification and \<open>RealIP\<close>
  (\<open>gateway_params\<close>), JSON decoding and quantiles (\<open>analytics_params\<close>) and name resolution
  (\<open>webhook_config\<close>) are arguments; hypotheses ask that pydantic refuses a UUID for a string
  (\<open>uuid_not_str\<close>) and that \<open>RealIP\<close> takes an IPv4 address from \<open>X-Real-IP\<close> (\<open>real_ip_ok\<close>), which the samples
  satisfy. Strings are byte lists, so case conversion and trimming are those of ASCII. In the auth
  service and the rules API a store is up or down for a whole request, the clock does not advance during
  one, bodies are within the size limits, and the gateway forwards paths unchanged. Expiries in Redis are
  exact where the client library cuts them to whole seconds. Promises that a page starts together are run
  one after the other. A socket's address is always valid. The
  editor of the rules page is gone as soon as it is closed, without the animation that keeps it on the
  screen for a moment, and a click reaches only what no dialog covers.

  \<^bold>\<open>Not modelled.\<close> Markup, styling and animation settings (SVG shapes, gradients, class names, spring
  parameters, canvas calls), \<open>app/layout.tsx\<close>, \<open>LazyCharts.tsx\<close> and \<open>lib/utils.ts\<close>, which only
  configure or re-export libraries; start-up, configuration, connection handling, metrics and CORS of
  the services; the ingestion service, the WebSocket hub and the ingest route of the analytics service,
  loading of the model, the block of feature extraction that reads a hash nothing writes, seeds and
  scripts. On the platform the risk engine's scoring route, which the dashboard does not call, is down.
\<close>

section \<open>From sign-in to sign-out\<close>

lemma closed_shell: "\<not> g_ready g \<Longrightarrow> AppShell (g_path g) g \<noteq> Chrome"
  by (auto simp: AppShell_def gate_open_def isLogin_def)

lemma open_shell: "gate_open g \<Longrightarrow> \<not> isLogin pathname \<Longrightarrow> AppShell pathname g = Chrome"
  by (simp add: AppShell_def)

text \<open>
  C20: the life of a session across the sign-in page, the gate, the shell and the user menu: after a
  successful submission that stored a non-empty token (demo mode always does) a gate mounted on any
  protected path opens when its timer fires, without redirecting, and the shell shows its chrome; the
  telemetry hook has an address for its socket. After signing out from there a new gate itself redirects to
  the sign-in page, beside the redirect of signing out: once when it mounts, once for every navigation and once
  by its safety timer; and whatever timers fire and wherever the visitor navigates the chrome is not
  shown.
\<close>

theorem session_lifecycle:
  fixes s :: "'srv login_page" and api :: "'srv api" and ev now
  defines "w1 \<equiv> pg_world (snd (submit now ev api s))"
  assumes "lp_error (snd (submit now ev api s)) = None" and "w_storage w1 access_key \<noteq> Some []"
    and "env_window ev \<noteq> None" and "\<not> isLogin path"
  shows "(\<exists>g. (bindE (gate_mount path) (gate_run [ReadyTimer])) w1 = (Inr g, w1) \<and> AppShell path g = Chrome)
    \<and> (\<exists>url. fst (websocketURL ev w1) = Inr (Some url))
    \<and> (\<exists>g w2. (bindE (gate_mount path') (gate_run es)) (snd (logout w1)) = (Inr g, w2)
         \<and> AppShell (g_path g) g \<noteq> Chrome
         \<and> w_location w2 = w_location (snd (logout w1)) @ replicate (gate_redirects es) ''/login/'')"
proof -
  obtain t where t: "w_storage w1 access_key = Some t" "t \<noteq> []"
    using submit_stores [OF assms(2)] assms(3) by (auto simp: w1_def)
  then have "\<exists>url. fst (websocketURL ev w1) = Inr (Some url)"
    using assms(4) by (simp add: websocketURL_def readE_def truthy_def)
  with gate_opens [OF t, of path] gate_signed_out [OF logout_forgets, of path' es w1] show ?thesis
    using open_shell [OF _ assms(5)] closed_shell by blast
qed

theorem session_lifecycle_witness:
  "\<exists>g w. (bindE (gate_mount ''/threats'') (gate_run [ReadyTimer]))
     (pg_world (snd (submit 7 local_env empty_api (blank_login\<lparr>lp_demo := True\<rparr>)))) = (Inr g, w)
     \<and> AppShell ''/threats'' g = Chrome"
proof -
  let ?s = "blank_login\<lparr>lp_demo := True\<rparr>"
  have "lp_demo ?s" by simp
  note d = submit_demo [OF this, of 7 local_env empty_api]
  have e: "env_window local_env \<noteq> None" by (simp add: local_env_def)
  have p: "\<not> isLogin ''/threats''" by (simp add: isLogin_def)
  from session_lifecycle [OF _ _ e p, of 7 empty_api ?s "''/''" "[]"] d show ?thesis by (simp del: gate_run.simps) blast
qed

section \<open>The simulated session on the pages\<close>

text \<open>The numbers in the simulated ids never repeat.\<close>

lemma demo_ids_distinct:
  "distinct (map snd ps) \<Longrightarrow> distinct (map (\<lambda>(t, k). Some (demo_id t k)) ps)"
  by (induction ps) (auto dest!: demo_id_inj intro: rev_image_eqI)

lemma tick_ids:
  "map ev_id (tick_events ts ds) = map (\<lambda>(t, k). Some (demo_id t k)) (zip ts [ds_seq ds + 1 ..< ds_seq ds + 1 + length ts])
   \<and> ds_seq (tick_stream ts ds) = ds_seq ds + length ts
   \<and> (\<forall>e \<in> set (tick_events ts ds). banded e \<and> on_globe e)"
proof (induction ts rule: rev_induct)
  case (snoc t ts)
  obtain e ds' where e: "demoTick t (tick_stream ts ds) = (e, ds')" by fastforce
  let ?m = "ds_seq ds + 1"
  have "[?m ..< ?m + length (ts @ [t])] = [?m ..< ?m + length ts] @ [?m + length ts]" by simp
  then have "zip (ts @ [t]) [?m ..< ?m + length (ts @ [t])] = zip ts [?m ..< ?m + length ts] @ [(t, ?m + length ts)]"
    by (simp del: upt_Suc)
  with demoTick_laws [OF e] snoc e show ?case by (simp add: tick_snoc del: upt_Suc)
qed simp

lemma backfill_ids:
  "map ev_id (demo_events clk now s) = map (\<lambda>(t, k). Some (demo_id t k))
     (zip (map (\<lambda>j. clk (ds_seq (tl_stream s) + j)) [0..<48])
       [ds_seq (tl_stream s) + 1 ..< ds_seq (tl_stream s) + 49])"
  unfolding demo_events_def demoBackfill_laws(3) by (rule nth_equalityI) (simp_all add: add.commute)

lemma demo_window:
  fixes s :: "'srv telemetry"
  assumes "\<not> tl_cancelled s"
  defines "ds \<equiv> (tl_stream s)\<lparr>ds_seq := ds_seq (tl_stream s) + 48\<rparr>"
  shows "tl_events (fold demo_tick ts (demo_started clk now s)) = take 50 (rev (tick_events ts ds) @ demo_events clk now s)"
proof -
  let ?s = "demo_started clk now s"
  have s: "tl_tick_timer ?s" "tl_overview ?s = Some (demo_overview (demo_events clk now s))"
    "tl_stream ?s = ds" "tl_events ?s = demo_events clk now s"
    using assms(1) by (simp_all add: demo_started_eq ds_def)
  have "length (demo_events clk now s) = 48" by (simp add: demo_events_def demoBackfill_laws(1))
  with demo_ticks [OF s(1,2), of ts] s(3,4) show ?thesis by (cases "ts = []") simp_all
qed

lemma demo_window_keys:
  fixes s :: "'srv telemetry" and clk now ts
  assumes "\<not> tl_cancelled s"
  defines "es \<equiv> tl_events (fold demo_tick ts (demo_started clk now s))"
  shows "distinct (map ev_id es) \<and> (\<forall>e \<in> set es. banded e \<and> on_globe e \<and> ev_id e \<noteq> None)"
proof -
  let ?n = "ds_seq (tl_stream s)"
  let ?ds = "(tl_stream s)\<lparr>ds_seq := ?n + 48\<rparr>"
  let ?ps = "rev (zip ts [?n + 49 ..< ?n + 49 + length ts])
    @ zip (map (\<lambda>j. clk (?n + j)) [0..<48]) [?n + 1 ..< ?n + 49]"
  let ?all = "rev (tick_events ts ?ds) @ demo_events clk now s"
  have ids: "map ev_id ?all = map (\<lambda>(t, k). Some (demo_id t k)) ?ps"
    using tick_ids [of ts ?ds] backfill_ids [of clk now s] by (simp add: rev_map [symmetric] add.commute)
  have "map snd ?ps = rev [?n + 49 ..< ?n + 49 + length ts] @ [?n + 1 ..< ?n + 49]"
    by (simp add: rev_map [symmetric])
  then have "distinct (map ev_id ?all)" unfolding ids by (intro demo_ids_distinct) auto
  moreover have "\<forall>e \<in> set ?all. banded e \<and> on_globe e"
    using tick_ids [of ts ?ds] demoBackfill_laws(4) by (auto simp: demo_events_def)
  moreover have "None \<notin> set (map ev_id ?all)" unfolding ids by auto
  then have "\<forall>e \<in> set ?all. ev_id e \<noteq> None" by (metis image_eqI set_map)
  moreover have "es = take 50 ?all" unfolding es_def by (rule demo_window [OF assms(1)])
  ultimately have "distinct (map ev_id es)" "\<forall>e \<in> set es. banded e \<and> on_globe e \<and> ev_id e \<noteq> None"
    by (simp_all only: take_map [symmetric] distinct_take) (blast dest: in_set_takeD)
  then show ?thesis by blast
qed

text \<open>
  C32: in demo mode, through any number of ticks, the window is fit for every page: at most fifty
  events with pairwise distinct keys, the histogram is built and accounts for all of them, the radial
  chart counts each of them as a decision, and the map of the threats page places every source.
\<close>

theorem demo_session_on_pages:
  fixes s :: "'srv telemetry" and clk now ts
  assumes "\<not> tl_cancelled s"
  defines "es \<equiv> tl_events (fold demo_tick ts (demo_started clk now s))"
  shows "length es \<le> 50 \<and> distinct (map event_key es)
    \<and> (\<exists>bs. scoreBuckets es = Inr bs \<and> sum_list bs = length es)
    \<and> totalScored es = length es
    \<and> length (page_threats AllThreats es) = card (threat_key ` set es)"
proof -
  note k = demo_window_keys [OF assms(1), of ts clk now, folded es_def]
  have "map event_key es = map ev_id es" using k by (auto simp: event_key_def or_else_def)
  with k have "distinct (map event_key es)" by metis
  moreover have "\<exists>bs. scoreBuckets es = Inr bs \<and> sum_list bs = length es"
  proof -
    have "\<forall>e \<in> set es. 0 \<le> default (ev_score e) 0" using k by (fastforce simp: banded_def)
    from bucket_loop_ok [OF this, of "[0, 0, 0, 0, 0]"] show ?thesis by (auto simp: scoreBuckets_def)
  qed
  moreover have "totalScored es = length es"
  proof -
    have "filter (\<lambda>e. ev_action e \<in> {Some ''ALLOW'', Some ''REVIEW'', Some ''CHALLENGE'', Some ''BLOCK''}) es = es"
      using k by (intro filter_True) (auto simp: banded_def)
    with totalScored_counts [of es] show ?thesis by simp
  qed
  moreover have "length (page_threats AllThreats es) = card (threat_key ` set es)"
  proof -
    have "filter (placeable AllThreats) es = es"
      using k by (intro filter_True) (auto simp: placeable_def on_globe_def event_coords_def)
    then show ?thesis using first_by_distinct [of threat_key es] first_by_keys [of threat_key es]
      by (simp add: page_threats_def threat_loop_spec) (metis distinct_card length_map set_map)
  qed
  moreover have "length es \<le> 50" unfolding es_def demo_window [OF assms(1)] by simp
  ultimately show ?thesis by blast
qed

theorem demo_session_on_pages_witness:
  "\<exists>bs. scoreBuckets (tl_events (fold demo_tick [1400, 2800] (demo_started id 0 idle_telemetry))) = Inr bs
    \<and> sum_list bs = length (tl_events (fold demo_tick [1400, 2800] (demo_started id 0 idle_telemetry)))"
  using demo_session_on_pages [where s = idle_telemetry and clk = id and now = 0 and ts = "[1400, 2800]"]
  by (auto simp: idle_telemetry_def telemetry_init_def)

end
